theory Spec2Isabelle
  imports Main "HOL-Library.Word"
begin

unbundle bit_operations_syntax

section \<open>The swgp server relay (service/server.go)\<close>

text \<open>
  A shallow embedding of \<^verbatim>\<open>src/service/server.go\<close>: the constructor
  \<^verbatim>\<open>ServerConfig.Server\<close>, the ingress loop \<^verbatim>\<open>recvFromProxyConnGeneric\<close>, the two
  per-session workers \<^verbatim>\<open>relayProxyToWgGeneric\<close> and \<^verbatim>\<open>relayWgToProxyGeneric\<close>, the
  buffer pool helpers and \<^verbatim>\<open>Stop\<close>.

  Go's \<^verbatim>\<open>int\<close> is modelled as \<open>int\<close>: every size computed here is an MTU of at least
  1280 minus small constants, so no 64-bit operation wraps. Byte slices are lists of
  8-bit words. Instants and durations are integers counting seconds.
\<close>

type_synonym byte = "8 word"
type_synonym bytes = "byte list"
type_synonym time = int

subsection \<open>Errors and panics\<close>

text \<open>
  Go error values. \<open>ErrMTUTooSmall\<close> is the sentinel returned by the constructor;
  \<open>ErrDeadlineExceeded\<close> is \<^verbatim>\<open>os.ErrDeadlineExceeded\<close>; \<open>ErrNetClosing\<close> is the
  "use of closed network connection" error of package \<^verbatim>\<open>net\<close>. The others stand
  for the errors of the collaborators.
\<close>

datatype error =
    ErrMTUTooSmall
  | ErrDeadlineExceeded
  | ErrNetClosing
  | ErrUnknownProxyMode
  | ErrInvalidPSK
  | ErrEndpointUnresolvable
  | ErrBadPacket
  | ErrEncryptFailed
  | ErrOther string

text \<open>Run-time panics of the Go code; a panic in any goroutine ends the process.\<close>

datatype panic =
    IndexOutOfRange
  | SliceBoundsOutOfRange
  | SendOnClosedChannel
  | CloseOfClosedChannel
  | MakeSizeOutOfRange
  | NilDereference
  | NegativeWaitGroupCounter

subsection \<open>Addresses (net/netip)\<close>

text \<open>
  \<^verbatim>\<open>netip.Addr\<close> is a 128-bit value (two 64-bit halves) and a tag: \<open>z0\<close> for the zero
  Addr, \<open>z4\<close> for IPv4, \<open>z6noz\<close> for IPv6 without zone, \<open>z6\<close> for IPv6 with a zone.
  An IPv4 address is stored as its IPv4-mapped form with tag \<open>z4\<close>.
\<close>

datatype zone = z0 | z4 | z6noz | z6 string

datatype netip_Addr = IP (ip_hi: "64 word") (ip_lo: "64 word") (ip_z: zone)

datatype netip_AddrPort = AddrPort (Addr: netip_Addr) (Port: "16 word")

definition Is4 :: "netip_Addr \<Rightarrow> bool" where
  "Is4 ip = (ip_z ip = z4)"

definition Is6 :: "netip_Addr \<Rightarrow> bool" where
  "Is6 ip = (ip_z ip \<noteq> z0 \<and> ip_z ip \<noteq> z4)"

definition Is4In6 :: "netip_Addr \<Rightarrow> bool" where
  "Is4In6 ip = (Is6 ip \<and> ip_hi ip = 0 \<and> drop_bit 32 (ip_lo ip) = 0xffff)"

definition Unmap :: "netip_Addr \<Rightarrow> netip_Addr" where
  "Unmap ip = (if Is4In6 ip then IP (ip_hi ip) (ip_lo ip) z4 else ip)"

text \<open>
  Modelled from the spec: \<^verbatim>\<open>conn.AddrPortMappedEqual\<close> is not in
  \<^verbatim>\<open>src/\<close>. The spec describes it as equality of endpoints "using
  IPv4-mapped-IPv6 normalization": the ports are equal and the addresses are equal
  after unmapping.
\<close>

definition AddrPortMappedEqual :: "netip_AddrPort \<Rightarrow> netip_AddrPort \<Rightarrow> bool" where
  "AddrPortMappedEqual l r = (l = r \<or> (Port l = Port r \<and> Unmap (Addr l) = Unmap (Addr r)))"

subsection \<open>Constants of the package\<close>

text \<open>
  The constants that \<^verbatim>\<open>server.go\<close> uses are declared in files of the repository that
  are not in \<^verbatim>\<open>src/\<close>; each is given the value the spec states.
\<close>

text \<open>
  Modelled from the spec: \<^verbatim>\<open>minimumMTU\<close>, "MTU < 1280" (the source comment at the
  check reads "Require MTU to be at least 1280").
\<close>

definition minimumMTU :: int where
  "minimumMTU = 1280"

text \<open>Modelled from the spec: \<^verbatim>\<open>IPv4HeaderLength\<close>, "ip_header is 20 for IPv4".\<close>

definition IPv4HeaderLength :: int where
  "IPv4HeaderLength = 20"

text \<open>Modelled from the spec: \<^verbatim>\<open>IPv6HeaderLength\<close>, "and 40 for IPv6".\<close>

definition IPv6HeaderLength :: int where
  "IPv6HeaderLength = 40"

text \<open>
  Modelled from the spec: \<^verbatim>\<open>UDPHeaderLength\<close>; the spec's sizes are "MTU minus IP+UDP
  header" with a UDP header of 8 bytes.
\<close>

definition UDPHeaderLength :: int where
  "UDPHeaderLength = 8"

text \<open>
  Modelled from the spec: \<^verbatim>\<open>WireGuardDataPacketOverhead\<close>, the "32-byte overhead of
  header+auth tag".
\<close>

definition WireGuardDataPacketOverhead :: int where
  "WireGuardDataPacketOverhead = 32"

text \<open>
  Modelled from the spec: \<^verbatim>\<open>WireGuardDataPacketLengthMask\<close>, the \<^verbatim>\<open>~0xF\<close> of
  "(max_proxy_packet_size - overhead - 32) & ~0xF".
\<close>

definition WireGuardDataPacketLengthMask :: int where
  "WireGuardDataPacketLengthMask = NOT 15"

text \<open>
  Modelled from the spec: \<^verbatim>\<open>packet.WireGuardMessageTypeHandshakeInitiation\<close>,
  "WireGuard Handshake Initiation (1)".
\<close>

definition WireGuardMessageTypeHandshakeInitiation :: byte where
  "WireGuardMessageTypeHandshakeInitiation = 1"

text \<open>
  Modelled from the spec: \<^verbatim>\<open>packet.WireGuardMessageTypeHandshakeResponse\<close>,
  "Handshake Response (2)".
\<close>

definition WireGuardMessageTypeHandshakeResponse :: byte where
  "WireGuardMessageTypeHandshakeResponse = 2"

text \<open>
  Modelled from the spec: \<^verbatim>\<open>RejectAfterTime\<close>, "180 seconds in the reference
  protocol".
\<close>

definition RejectAfterTime :: time where
  "RejectAfterTime = 180"

subsection \<open>The packet handler and the other collaborators\<close>

text \<open>
  \<^verbatim>\<open>packet.Handler\<close> is an interface implemented outside \<^verbatim>\<open>src/\<close>; the server only calls
  its four methods, so a handler is a record of them. The zero-copy methods work in
  place: they return the buffer as they leave it with the start and length of the result.
\<close>

record Handler =
  FrontOverhead :: int
  RearOverhead :: int
  DecryptZeroCopy :: "bytes \<Rightarrow> int \<Rightarrow> int \<Rightarrow> error + (bytes \<times> int \<times> int)"
  EncryptZeroCopy :: "bytes \<Rightarrow> int \<Rightarrow> int \<Rightarrow> error + (bytes \<times> int \<times> int)"

text \<open>
  \<^verbatim>\<open>PerfConfig\<close> is declared outside \<^verbatim>\<open>src/\<close>; these are the fields the constructor
  reads.
\<close>

record PerfConfig =
  BatchMode :: string
  RelayBatchSize :: int
  MainRecvBatchSize :: int
  SendChannelCapacity :: int

text \<open>
  The functions of the repository that \<^verbatim>\<open>server.go\<close> calls and that are not in \<^verbatim>\<open>src/\<close>
  are parameters of the model: \<^verbatim>\<open>PerfConfig.CheckAndApplyDefaults\<close>,
  \<^verbatim>\<open>getPacketHandlerForProxyMode\<close>, \<^verbatim>\<open>conn.ResolveAddrPort\<close>, \<^verbatim>\<open>conn.ParseFlagsForError\<close> and
  \<^verbatim>\<open>conn.ParsePktinfoCmsg\<close>.
\<close>

record deps =
  CheckAndApplyDefaults :: "PerfConfig \<Rightarrow> error + PerfConfig"
  getPacketHandlerForProxyMode :: "string \<Rightarrow> bytes \<Rightarrow> error + Handler"
  ResolveAddrPort :: "string \<Rightarrow> error + netip_AddrPort"
  ParseFlagsForError :: "int \<Rightarrow> error option"
  ParsePktinfoCmsg :: "bytes \<Rightarrow> error + (netip_Addr \<times> 32 word)"

subsection \<open>Sockets (net.UDPConn)\<close>

text \<open>
  What the server observes of a UDP socket: whether it is closed and its read deadline.
  Every operation on a closed socket fails with \<open>ErrNetClosing\<close>.
\<close>

record UDPConn =
  closed :: bool
  readDeadline :: "time option"

definition ListenUDP :: UDPConn where
  "ListenUDP = \<lparr>closed = False, readDeadline = None\<rparr>"

definition SetReadDeadline :: "UDPConn \<Rightarrow> time \<Rightarrow> error option \<times> UDPConn" where
  "SetReadDeadline c t =
     (if closed c then (Some ErrNetClosing, c) else (None, c\<lparr>readDeadline := Some t\<rparr>))"

definition Close :: "UDPConn \<Rightarrow> error option \<times> UDPConn" where
  "Close c = (if closed c then (Some ErrNetClosing, c) else (None, c\<lparr>closed := True\<rparr>))"

text \<open>
  A write hands a datagram to the operating system, which may refuse it: \<open>oserr\<close> is
  the operating system's answer.
\<close>

definition WriteTo :: "UDPConn \<Rightarrow> error option \<Rightarrow> error option" where
  "WriteTo c oserr = (if closed c then Some ErrNetClosing else oserr)"

subsection \<open>Configuration and server\<close>

record ServerConfig =
  Name :: string
  ProxyListen :: string
  ProxyMode :: string
  ProxyPSK :: bytes
  ProxyFwmark :: int
  WgEndpoint :: string
  WgFwmark :: int
  MTU :: int
  Perf :: PerfConfig

subsection \<open>Queues, sessions and the server state\<close>

text \<open>
  \<^verbatim>\<open>queuedPacket\<close> (declared outside \<^verbatim>\<open>src/\<close>; its three fields are read at the
  enqueue and in the worker): a pool buffer with the start and length of the plaintext.
\<close>

record queuedPacket =
  buf :: bytes
  start :: int
  length' :: int

text \<open>
  A Go channel of \<^verbatim>\<open>queuedPacket\<close>: its buffered items in arrival order, its capacity
  and whether it has been closed.
\<close>

record chan =
  chbuf :: "queuedPacket list"
  chcap :: int
  chclosed :: bool

definition make_chan :: "int \<Rightarrow> panic + chan" where
  "make_chan n =
     (if n < 0 then Inl MakeSizeOutOfRange
      else Inr \<lparr>chbuf = [], chcap = n, chclosed = False\<rparr>)"

text \<open>
  \<^verbatim>\<open>serverNatEntry\<close>. The atomic pointer \<^verbatim>\<open>clientPktinfo\<close> is \<open>None\<close> for nil and
  otherwise holds the published snapshot; the nil slice \<^verbatim>\<open>clientPktinfoCache\<close> is \<open>[]\<close>
  (\<^verbatim>\<open>bytes.Equal\<close> does not tell a nil slice from an empty one).
\<close>

record serverNatEntry =
  clientPktinfo :: "bytes option"
  clientPktinfoCache :: bytes
  wgConn :: UDPConn
  wgConnSendCh :: chan
  maxProxyPacketSize :: int

datatype goroutine = NotStarted | Running | Exited

datatype level = DebugLevel | InfoLevel | WarnLevel

type_synonym log_entry = "level \<times> string"

text \<open>What the Proxy\<rightarrow>Wg worker does to the outside, in order.\<close>

datatype effect =
    EffWrite bytes netip_AddrPort "error option"
  | EffSetReadDeadline time "error option"
  | EffPutBuf bytes
  | EffClose "error option"

text \<open>
  An allocated \<^verbatim>\<open>serverNatEntry\<close> with the two goroutines started for it: the entry,
  the client address the goroutines were given, their state, and their local variables.
  \<open>sendLog\<close> and \<open>p2wTrace\<close> are not in the Go code: they record the packets the
  ingress loop has put on the send channel and what the Proxy\<rightarrow>Wg worker has done.
\<close>

record session =
  natEntry :: serverNatEntry
  clientAddrPort :: netip_AddrPort
  relayWgToProxy :: goroutine
  relayProxyToWg :: goroutine
  w2pClientPktinfo :: bytes
  w2pClientPktinfop :: "bytes option"
  w2pPacketBuf :: bytes
  w2pPacketsSent :: "64 word"
  w2pWgBytesSent :: "64 word"
  p2wPacketsSent :: "64 word"
  p2wWgBytesSent :: "64 word"
  sendLog :: "queuedPacket list"
  p2wTrace :: "effect list"

text \<open>
  The \<^verbatim>\<open>server\<close> struct. The table maps a client address to a pointer; pointers are
  indices into \<open>heap\<close>, the list of every entry allocated so far (an entry deleted from
  the table is still used by its draining worker). The mutex is not a field: each
  critical section is one step of the model. \<open>ingress\<close>, \<open>proxyWrites\<close>,
  \<open>poolGets\<close> and \<open>poolPuts\<close> are not in the Go code: the state of the ingress
  goroutine, the datagrams the Wg\<rightarrow>Proxy workers handed to the proxy socket, and the
  number of buffers taken from and returned to the pool. Only the generic relay is in
  \<^verbatim>\<open>src/\<close>, so \<^verbatim>\<open>recvFromProxyConn\<close> is always \<^verbatim>\<open>recvFromProxyConnGeneric\<close>.
\<close>

record server =
  name :: string
  proxyListen :: string
  proxyFwmark :: int
  wgFwmark :: int
  relayBatchSize :: int
  mainRecvBatchSize :: int
  sendChannelCapacity :: int
  maxProxyPacketSizev4 :: int
  maxProxyPacketSizev6 :: int
  wgTunnelMTUv4 :: int
  wgTunnelMTUv6 :: int
  wgAddrPort :: netip_AddrPort
  handler :: Handler
  logger :: "log_entry list"
  proxyConn :: "UDPConn option"
  packetBufPool :: "bytes list"
  wg :: int
  mwg :: int
  table :: "netip_AddrPort \<rightharpoonup> nat"
  heap :: "session list"
  ingress :: goroutine
  proxyWrites :: "(bytes \<times> bytes \<times> netip_AddrPort \<times> error option) list"
  poolGets :: nat
  poolPuts :: nat

subsection \<open>Go's \<^verbatim>\<open>int\<close>\<close>

text \<open>
  \<^verbatim>\<open>int\<close> is 64 bits wide on the platforms the program is built for, and its
  arithmetic wraps around in two's complement without any error. The records keep such
  values as \<open>int\<close>; \<open>wrapInt\<close> is what a 64-bit register holds after an operation
  whose exact result is \<open>x\<close>. \<open>MinInt\<close> and \<open>MaxInt\<close> are the ends of the range
  (\<^verbatim>\<open>math.MinInt\<close>, \<^verbatim>\<open>math.MaxInt\<close>).
\<close>

definition MinInt :: int where
  "MinInt = - (2 ^ 63)"

definition MaxInt :: int where
  "MaxInt = 2 ^ 63 - 1"

definition wrapInt :: "int \<Rightarrow> int" where
  "wrapInt x = (x + 2 ^ 63) mod 2 ^ 64 - 2 ^ 63"

subsection \<open>ServerConfig.Server\<close>

text \<open>
  The constructor, lines 67-126. Every subtraction and the addition of the two overheads
  is an operation on \<^verbatim>\<open>int\<close> and wraps; \<^verbatim>\<open>&\<close> cannot leave the range.
\<close>

definition Server :: "deps \<Rightarrow> ServerConfig \<Rightarrow> error + server" where
  "Server d sc =
     (if MTU sc < minimumMTU then Inl ErrMTUTooSmall
      else case CheckAndApplyDefaults d (Perf sc) of
        Inl err \<Rightarrow> Inl err
      | Inr pc \<Rightarrow>
     (case getPacketHandlerForProxyMode d (ProxyMode sc) (ProxyPSK sc) of
        Inl err \<Rightarrow> Inl err
      | Inr h \<Rightarrow>
     (case ResolveAddrPort d (WgEndpoint sc) of
        Inl err \<Rightarrow> Inl err
      | Inr ap \<Rightarrow>
         (let v4 = wrapInt (wrapInt (MTU sc - IPv4HeaderLength) - UDPHeaderLength);
              v6 = wrapInt (wrapInt (MTU sc - IPv6HeaderLength) - UDPHeaderLength);
              frontOverhead = FrontOverhead h;
              rearOverhead = RearOverhead h;
              overhead = wrapInt (frontOverhead + rearOverhead);
              mtu4 = wrapInt (wrapInt (v4 - overhead) - WireGuardDataPacketOverhead)
                       AND WireGuardDataPacketLengthMask;
              mtu6 = wrapInt (wrapInt (v6 - overhead) - WireGuardDataPacketOverhead)
                       AND WireGuardDataPacketLengthMask
          in Inr \<lparr>name = Name sc,
                   proxyListen = ProxyListen sc,
                   proxyFwmark = ProxyFwmark sc,
                   wgFwmark = WgFwmark sc,
                   relayBatchSize = RelayBatchSize pc,
                   mainRecvBatchSize = MainRecvBatchSize pc,
                   sendChannelCapacity = SendChannelCapacity pc,
                   maxProxyPacketSizev4 = v4,
                   maxProxyPacketSizev6 = v6,
                   wgTunnelMTUv4 = mtu4,
                   wgTunnelMTUv6 = mtu6,
                   wgAddrPort = ap,
                   handler = h,
                   logger = [],
                   proxyConn = None,
                   packetBufPool = [],
                   wg = 0,
                   mwg = 0,
                   table = Map.empty,
                   heap = [],
                   ingress = NotStarted,
                   proxyWrites = [],
                   poolGets = 0,
                   poolPuts = 0\<rparr>))))"

subsection \<open>Stand-ins used by the worked examples\<close>

text \<open>
  Modelled from the spec: the passthrough packet handler ("identity;
  front_overhead = rear_overhead = 0; decrypt = accept as-is; encrypt = accept as-is").
\<close>

definition zeroOverheadHandler :: Handler where
  "zeroOverheadHandler =
     \<lparr>FrontOverhead = 0, RearOverhead = 0,
      DecryptZeroCopy = (\<lambda>b st n. Inr (b, st, n)),
      EncryptZeroCopy = (\<lambda>b st n. Inr (b, st, n))\<rparr>"

text \<open>
  Concrete collaborators for the examples: defaults are accepted as they are, the only
  proxy mode is the passthrough one, one endpoint string resolves (to 127.0.0.1:51820),
  receive flags with \<^verbatim>\<open>MSG_TRUNC\<close> (0x20) or \<^verbatim>\<open>MSG_CTRUNC\<close> (0x08) are errors, and a
  control message shorter than a 16-byte cmsghdr does not parse.
\<close>

definition example_deps :: deps where
  "example_deps =
     \<lparr>CheckAndApplyDefaults = (\<lambda>p. Inr p),
      getPacketHandlerForProxyMode =
        (\<lambda>m psk. if m = ''zero-overhead'' then Inr zeroOverheadHandler
                  else Inl ErrUnknownProxyMode),
      ResolveAddrPort =
        (\<lambda>a. if a = ''127.0.0.1:51820'' then Inr (AddrPort (IP 0 0xFFFF7F000001 z4) 51820)
              else Inl ErrEndpointUnresolvable),
      ParseFlagsForError =
        (\<lambda>f. if f AND 0x28 \<noteq> 0 then Some (ErrOther ''message truncated'') else None),
      ParsePktinfoCmsg =
        (\<lambda>c. if length c < 16 then Inl (ErrOther ''control message too short'')
              else Inr (IP 0 (of_nat (length c)) z0, 0))\<rparr>"

definition example_config :: "int \<Rightarrow> ServerConfig" where
  "example_config m =
     \<lparr>Name = ''server'', ProxyListen = '':20220'', ProxyMode = ''zero-overhead'',
      ProxyPSK = [], ProxyFwmark = 0, WgEndpoint = ''127.0.0.1:51820'', WgFwmark = 0,
      MTU = m,
      Perf = \<lparr>BatchMode = [], RelayBatchSize = 0, MainRecvBatchSize = 0,
               SendChannelCapacity = 1\<rparr>\<rparr>"

text \<open>
  A handler that reserves \<open>f\<close> bytes in front of the packet and \<open>r\<close> behind it, and
  collaborators that choose it for every proxy mode. The constructor reads nothing of a
  handler but its two overheads.
\<close>

definition overheadHandler :: "int \<Rightarrow> int \<Rightarrow> Handler" where
  "overheadHandler f r = zeroOverheadHandler\<lparr>FrontOverhead := f, RearOverhead := r\<rparr>"

definition example_deps_overhead :: "int \<Rightarrow> int \<Rightarrow> deps" where
  "example_deps_overhead f r =
     example_deps\<lparr>getPacketHandlerForProxyMode := (\<lambda>m psk. Inr (overheadHandler f r))\<rparr>"

subsection \<open>Slices, the buffer pool and the logger\<close>

text \<open>
  A slice expression \<^verbatim>\<open>b[lo:hi]\<close> and an index expression \<^verbatim>\<open>b[i]\<close> on a slice whose
  length is its capacity; out of range they panic.
\<close>

definition slice :: "bytes \<Rightarrow> int \<Rightarrow> int \<Rightarrow> panic + bytes" where
  "slice b lo hi =
     (if 0 \<le> lo \<and> lo \<le> hi \<and> hi \<le> int (length b)
      then Inr (take (nat (hi - lo)) (drop (nat lo) b))
      else Inl SliceBoundsOutOfRange)"

definition index :: "bytes \<Rightarrow> int \<Rightarrow> panic + byte" where
  "index b i =
     (if 0 \<le> i \<and> i < int (length b) then Inr (b ! nat i) else Inl IndexOutOfRange)"

definition logw :: "level \<Rightarrow> string \<Rightarrow> server \<Rightarrow> server" where
  "logw lv m s = s\<lparr>logger := logger s @ [(lv, m)]\<rparr>"

text \<open>
  \<^verbatim>\<open>getPacketBuf\<close>: the pool hands out a stored buffer or makes a new one of
  \<open>maxProxyPacketSizev4\<close> bytes (the pool's \<^verbatim>\<open>New\<close> takes the address of its first
  byte), and \<^verbatim>\<open>unsafe.Slice\<close> gives it that length. The pool is a stack of the returned
  buffers.
\<close>

definition getPacketBuf :: "server \<Rightarrow> panic + (bytes \<times> server)" where
  "getPacketBuf s =
     (if maxProxyPacketSizev4 s < 0 then Inl MakeSizeOutOfRange
      else case packetBufPool s of
        [] \<Rightarrow>
          (if maxProxyPacketSizev4 s = 0 then Inl IndexOutOfRange
           else Inr (replicate (nat (maxProxyPacketSizev4 s)) 0,
                     s\<lparr>poolGets := Suc (poolGets s)\<rparr>))
      | b # rest \<Rightarrow>
          Inr (take (nat (maxProxyPacketSizev4 s)) b,
               s\<lparr>packetBufPool := rest, poolGets := Suc (poolGets s)\<rparr>))"

text \<open>\<^verbatim>\<open>putPacketBuf\<close> takes the address of the buffer's first byte.\<close>

definition putPacketBuf :: "bytes \<Rightarrow> server \<Rightarrow> panic + server" where
  "putPacketBuf packetBuf s =
     (if packetBuf = [] then Inl IndexOutOfRange
      else Inr (s\<lparr>packetBufPool := packetBuf # packetBufPool s,
                  poolPuts := Suc (poolPuts s)\<rparr>))"

text \<open>\<^verbatim>\<open>WaitGroup.Done\<close> on the session counter; a negative counter panics.\<close>

definition wg_Done :: "server \<Rightarrow> panic + server" where
  "wg_Done s = (if wg s - 1 < 0 then Inl NegativeWaitGroupCounter else Inr (s\<lparr>wg := wg s - 1\<rparr>))"

definition upd_session :: "nat \<Rightarrow> (session \<Rightarrow> session) \<Rightarrow> server \<Rightarrow> server" where
  "upd_session i f s = s\<lparr>heap := (heap s)[i := f (heap s ! i)]\<rparr>"

subsection \<open>relayProxyToWgGeneric\<close>

text \<open>The two cases of the \<^verbatim>\<open>switch\<close> on the first byte of the packet.\<close>

definition isHandshake :: "byte \<Rightarrow> bool" where
  "isHandshake b =
     (b = WireGuardMessageTypeHandshakeInitiation \<or> b = WireGuardMessageTypeHandshakeResponse)"

text \<open>
  The body of the \<^verbatim>\<open>for ... range\<close> loop for one received packet, run by the worker
  of session \<open>i\<close> at time \<open>now\<close>; \<open>oserr\<close> is the operating system's answer to the
  write.
\<close>

definition relayProxyToWg_packet ::
    "time \<Rightarrow> error option \<Rightarrow> queuedPacket \<Rightarrow> nat \<Rightarrow> server \<Rightarrow> panic + server" where
  "relayProxyToWg_packet now oserr qp i s =
     (case slice (buf qp) (start qp) (start qp + length' qp) of
        Inl p \<Rightarrow> Inl p
      | Inr wgPacket \<Rightarrow>
         (let c = wgConn (natEntry (heap s ! i));
              werr = WriteTo c oserr;
              s1 = (case werr of None \<Rightarrow> s
                    | Some err \<Rightarrow> logw WarnLevel ''Failed to write wgPacket to wgConn'' s)
          in case index wgPacket 0 of
               Inl p \<Rightarrow> Inl p
             | Inr b \<Rightarrow>
                (let (eff, c', s2) =
                       (if isHandshake b
                        then (case SetReadDeadline c (now + RejectAfterTime) of
                                (None, c') \<Rightarrow>
                                  ([EffSetReadDeadline (now + RejectAfterTime) None], c', s1)
                              | (Some err, c') \<Rightarrow>
                                  ([EffSetReadDeadline (now + RejectAfterTime) (Some err)], c',
                                   logw WarnLevel ''Failed to SetReadDeadline on wgConn'' s1))
                        else ([], c, s1))
                 in case putPacketBuf (buf qp) s2 of
                      Inl p \<Rightarrow> Inl p
                    | Inr s3 \<Rightarrow>
                        Inr (upd_session i
                              (\<lambda>se. se\<lparr>natEntry := (natEntry se)\<lparr>wgConn := c'\<rparr>,
                                        p2wPacketsSent := p2wPacketsSent se + 1,
                                        p2wWgBytesSent := p2wWgBytesSent se + of_int (length' qp),
                                        p2wTrace := p2wTrace se
                                          @ [EffWrite wgPacket (wgAddrPort s) werr] @ eff
                                          @ [EffPutBuf (buf qp)]\<rparr>) s3))))"

text \<open>
  What follows the loop, and the rest of the goroutine started for the worker: the final
  log line, \<^verbatim>\<open>natEntry.wgConn.Close()\<close> and \<^verbatim>\<open>s.wg.Done()\<close>.
\<close>

definition relayProxyToWg_exit :: "nat \<Rightarrow> server \<Rightarrow> panic + server" where
  "relayProxyToWg_exit i s =
     (let s1 = logw InfoLevel ''Finished relay proxyConn -> wgConn'' s;
          (cerr, c') = Close (wgConn (natEntry (heap s1 ! i)));
          s2 = upd_session i
                 (\<lambda>se. se\<lparr>natEntry := (natEntry se)\<lparr>wgConn := c'\<rparr>,
                           relayProxyToWg := Exited,
                           p2wTrace := p2wTrace se @ [EffClose cerr]\<rparr>) s1
      in wg_Done s2)"

text \<open>
  One turn of the worker of session \<open>i\<close>: it receives the oldest queued packet and
  handles it; on an empty closed channel the \<^verbatim>\<open>range\<close> loop ends; on an empty open
  channel the worker stays blocked in the receive. A goroutine that is not running
  does nothing.
\<close>

definition relayProxyToWg_step :: "time \<Rightarrow> error option \<Rightarrow> nat \<Rightarrow> server \<Rightarrow> panic + server" where
  "relayProxyToWg_step now oserr i s =
     (if \<not> i < length (heap s) \<or> relayProxyToWg (heap s ! i) \<noteq> Running then Inr s
      else case chbuf (wgConnSendCh (natEntry (heap s ! i))) of
        qp # rest \<Rightarrow>
          relayProxyToWg_packet now oserr qp i
            (upd_session i
               (\<lambda>se. se\<lparr>natEntry := (natEntry se)
                          \<lparr>wgConnSendCh := (wgConnSendCh (natEntry se))\<lparr>chbuf := rest\<rparr>\<rparr>\<rparr>) s)
      | [] \<Rightarrow>
          (if chclosed (wgConnSendCh (natEntry (heap s ! i)))
           then relayProxyToWg_exit i s
           else Inr s))"

subsection \<open>relayWgToProxyGeneric\<close>

text \<open>
  What a read on a socket returned: an error, or a datagram with its control data, its
  receive flags and its source address.
\<close>

datatype recv = RecvErr error | Recv bytes bytes int netip_AddrPort

text \<open>
  The statements before the loop: the local copy of the pktinfo, the scratch buffer of
  \<open>maxProxyPacketSize\<close> bytes and the window \<^verbatim>\<open>packetBuf[frontOverhead :
  maxProxyPacketSize-rearOverhead]\<close> the reads go to.
\<close>

definition relayWgToProxy_start :: "Handler \<Rightarrow> bytes option \<Rightarrow> session \<Rightarrow> panic + session" where
  "relayWgToProxy_start h clientPktinfop se =
     (let m = maxProxyPacketSize (natEntry se) in
      if m < 0 then Inl MakeSizeOutOfRange
      else case slice (replicate (nat m) 0) (FrontOverhead h) (m - RearOverhead h) of
        Inl p \<Rightarrow> Inl p
      | Inr plaintextBuf \<Rightarrow>
          Inr (se\<lparr>relayWgToProxy := Running,
                  w2pClientPktinfo := (case clientPktinfop of None \<Rightarrow> [] | Some b \<Rightarrow> b),
                  w2pClientPktinfop := clientPktinfop,
                  w2pPacketBuf := replicate (nat m) 0,
                  w2pPacketsSent := 0,
                  w2pWgBytesSent := 0\<rparr>))"

text \<open>
  What follows the loop, and the rest of the goroutine: under the mutex the send channel
  is closed and the client's key is deleted from the table; then \<^verbatim>\<open>s.wg.Done()\<close>.
\<close>

definition relayWgToProxy_exit :: "nat \<Rightarrow> server \<Rightarrow> panic + server" where
  "relayWgToProxy_exit i s =
     (let s1 = logw InfoLevel ''Finished relay wgConn -> proxyConn'' s;
          se = heap s1 ! i
      in if chclosed (wgConnSendCh (natEntry se)) then Inl CloseOfClosedChannel
         else wg_Done
                ((upd_session i
                   (\<lambda>se. se\<lparr>natEntry := (natEntry se)
                              \<lparr>wgConnSendCh := (wgConnSendCh (natEntry se))\<lparr>chclosed := True\<rparr>\<rparr>,
                             relayWgToProxy := Exited\<rparr>) s1)
                 \<lparr>table := (table s1)(clientAddrPort se := None)\<rparr>))"

text \<open>
  One iteration of the loop of session \<open>i\<close> for the read result \<open>r\<close>; \<open>oserr\<close> is
  the operating system's answer to the write on the proxy socket. The datagram is read
  into the window of the scratch buffer, at most as many bytes as the window holds.
\<close>

definition relayWgToProxy_iter ::
    "deps \<Rightarrow> recv \<Rightarrow> error option \<Rightarrow> nat \<Rightarrow> server \<Rightarrow> panic + server" where
  "relayWgToProxy_iter d r oserr i s =
     (if \<not> i < length (heap s) \<or> relayWgToProxy (heap s ! i) \<noteq> Running then Inr s
      else case r of
        RecvErr err \<Rightarrow>
          (if err = ErrDeadlineExceeded then relayWgToProxy_exit i s
           else Inr (logw WarnLevel ''Failed to read from wgConn'' s))
      | Recv data oob flags packetSourceAddrPort \<Rightarrow>
         (let se = heap s ! i;
              frontOverhead = FrontOverhead (handler s);
              rearOverhead = RearOverhead (handler s);
              window = nat (maxProxyPacketSize (natEntry se) - rearOverhead - frontOverhead);
              n = min (length data) window;
              packetBuf = take (nat frontOverhead) (w2pPacketBuf se) @ take n data
                            @ drop (nat frontOverhead + n) (w2pPacketBuf se);
              s1 = upd_session i (\<lambda>se. se\<lparr>w2pPacketBuf := packetBuf\<rparr>) s
          in case ParseFlagsForError d flags of
               Some err \<Rightarrow> Inr (logw WarnLevel ''Failed to read from wgConn'' s1)
             | None \<Rightarrow>
          if \<not> AddrPortMappedEqual packetSourceAddrPort (wgAddrPort s)
          then Inr (logw WarnLevel ''Ignoring packet from non-wg address'' s1)
          else case EncryptZeroCopy (handler s) packetBuf frontOverhead (int n) of
               Inl err \<Rightarrow> Inr (logw WarnLevel ''Failed to encrypt WireGuard packet'' s1)
             | Inr (packetBuf', swgpPacketStart, swgpPacketLength) \<Rightarrow>
          (case slice packetBuf' swgpPacketStart (swgpPacketStart + swgpPacketLength) of
               Inl p \<Rightarrow> Inl p
             | Inr swgpPacket \<Rightarrow>
          (case (if clientPktinfo (natEntry se) \<noteq> w2pClientPktinfop se
                 then (case clientPktinfo (natEntry se) of
                         None \<Rightarrow> Inl NilDereference
                       | Some b \<Rightarrow> Inr (b, Some b))
                 else Inr (w2pClientPktinfo se, w2pClientPktinfop se)) of
               Inl p \<Rightarrow> Inl p
             | Inr (pktinfo, pktinfop) \<Rightarrow>
          (case proxyConn s of
               None \<Rightarrow> Inl NilDereference
             | Some pc \<Rightarrow>
                (let werr = WriteTo pc oserr;
                     s2 = upd_session i
                            (\<lambda>se. se\<lparr>w2pPacketBuf := packetBuf',
                                      w2pClientPktinfo := pktinfo,
                                      w2pClientPktinfop := pktinfop,
                                      w2pPacketsSent := w2pPacketsSent se + 1,
                                      w2pWgBytesSent := w2pWgBytesSent se + of_nat n\<rparr>) s;
                     s3 = s2\<lparr>proxyWrites := proxyWrites s2
                              @ [(swgpPacket, pktinfo, clientAddrPort se, werr)]\<rparr>
                 in Inr (case werr of None \<Rightarrow> s3
                         | Some err \<Rightarrow>
                             logw WarnLevel ''Failed to write swgpPacket to proxyConn'' s3)))))))"
subsection \<open>recvFromProxyConnGeneric\<close>

text \<open>
  The \<^verbatim>\<open>!ok\<close> branch after the table lookup: a socket for the new session (\<open>listenErr\<close>
  is the answer of \<^verbatim>\<open>conn.ListenUDP\<close>), its first read deadline, the entry with its
  send channel and its \<open>maxProxyPacketSize\<close>, and the insertion into the table. The
  result is the new pointer, or \<open>None\<close> where the code logs and leaves the iteration.
\<close>

definition newSession ::
    "time \<Rightarrow> error option \<Rightarrow> netip_AddrPort \<Rightarrow> server \<Rightarrow> panic + (nat option \<times> server)" where
  "newSession now listenErr clientAddrPort' s =
     (case listenErr of
        Some err \<Rightarrow>
          Inr (None, logw WarnLevel ''Failed to create UDP socket for new session'' s)
      | None \<Rightarrow>
         (case SetReadDeadline ListenUDP (now + RejectAfterTime) of
            (Some err, c) \<Rightarrow>
              Inr (None, logw WarnLevel ''Failed to SetReadDeadline on wgConn'' s)
          | (None, c) \<Rightarrow>
             (case make_chan (sendChannelCapacity s) of
                Inl p \<Rightarrow> Inl p
              | Inr ch \<Rightarrow>
                 (let e = \<lparr>clientPktinfo = None,
                           clientPktinfoCache = [],
                           wgConn = c,
                           wgConnSendCh = ch,
                           maxProxyPacketSize =
                             (if Is4 (Addr clientAddrPort') \<or> Is4In6 (Addr clientAddrPort')
                              then maxProxyPacketSizev4 s
                              else maxProxyPacketSizev6 s)\<rparr>;
                      se = \<lparr>natEntry = e,
                            clientAddrPort = clientAddrPort',
                            relayWgToProxy = NotStarted,
                            relayProxyToWg = NotStarted,
                            w2pClientPktinfo = [],
                            w2pClientPktinfop = None,
                            w2pPacketBuf = [],
                            w2pPacketsSent = 0,
                            w2pWgBytesSent = 0,
                            p2wPacketsSent = 0,
                            p2wWgBytesSent = 0,
                            sendLog = [],
                            p2wTrace = []\<rparr>
                  in Inr (Some (length (heap s)),
                          s\<lparr>heap := heap s @ [se],
                            table := (table s)(clientAddrPort' \<mapsto> length (heap s))\<rparr>)))))"

text \<open>
  The \<^verbatim>\<open>if !ok\<close> block that starts the two goroutines of a new session:
  \<^verbatim>\<open>s.wg.Add(2)\<close>, the Wg\<rightarrow>Proxy worker with the pktinfo pointer of this iteration,
  the Proxy\<rightarrow>Wg worker, and the log line.
\<close>

definition startWorkers :: "nat \<Rightarrow> bytes option \<Rightarrow> server \<Rightarrow> panic + server" where
  "startWorkers p clientPktinfop s =
     (case relayWgToProxy_start (handler s) clientPktinfop (heap s ! p) of
        Inl pn \<Rightarrow> Inl pn
      | Inr se \<Rightarrow>
          Inr (logw InfoLevel ''New session''
                 (s\<lparr>wg := wg s + 2,
                    heap := (heap s)[p := se\<lparr>relayProxyToWg := Running\<rparr>]\<rparr>)))"

text \<open>
  Whether the send of the \<^verbatim>\<open>select\<close> can proceed: there is room in the channel's
  buffer, or the channel is unbuffered and its receiver is blocked in the receive
  (\<open>recvReady\<close>, the scheduler's choice); the packet handed over waits in \<open>chbuf\<close>
  for the worker's next turn.
\<close>

definition chan_can_send :: "session \<Rightarrow> bool \<Rightarrow> bool" where
  "chan_can_send se recvReady =
     (let ch = wgConnSendCh (natEntry se) in
      int (length (chbuf ch)) < chcap ch
      \<or> (chcap ch = 0 \<and> chbuf ch = [] \<and> relayProxyToWg se = Running \<and> recvReady))"

text \<open>
  The \<^verbatim>\<open>select\<close> at the end of the iteration: the non-blocking send, or the
  \<^verbatim>\<open>default\<close> branch that logs the drop and returns the buffer.
\<close>

definition trySend :: "nat \<Rightarrow> bool \<Rightarrow> queuedPacket \<Rightarrow> server \<Rightarrow> panic + server" where
  "trySend p recvReady qp s =
     (if chclosed (wgConnSendCh (natEntry (heap s ! p))) then Inl SendOnClosedChannel
      else if chan_can_send (heap s ! p) recvReady
      then Inr (upd_session p
                 (\<lambda>se. se\<lparr>natEntry := (natEntry se)
                            \<lparr>wgConnSendCh := (wgConnSendCh (natEntry se))
                               \<lparr>chbuf := chbuf (wgConnSendCh (natEntry se)) @ [qp]\<rparr>\<rparr>,
                           sendLog := sendLog se @ [qp]\<rparr>) s)
      else putPacketBuf (buf qp)
             (logw DebugLevel ''wgPacket dropped due to full send channel'' s))"

text \<open>
  The critical section of an iteration after the lookup, for the entry \<open>p\<close> that was
  found (\<open>ok\<close>) or has just been inserted: the pktinfo cache (a control message that
  does not parse ends the iteration with \<^verbatim>\<open>continue\<close>), the start of the workers of a
  new session, and the enqueue.
\<close>

definition recvFromProxyConn_session ::
    "deps \<Rightarrow> bool \<Rightarrow> nat \<Rightarrow> bool \<Rightarrow> bytes \<Rightarrow> queuedPacket \<Rightarrow> server \<Rightarrow> panic + server" where
  "recvFromProxyConn_session d ok p recvReady cmsg qp s1 =
     (case (if clientPktinfoCache (natEntry (heap s1 ! p)) \<noteq> cmsg
            then (case ParsePktinfoCmsg d cmsg of
                    Inl err \<Rightarrow> None
                  | Inr info \<Rightarrow>
                      Some (Some cmsg,
                            logw DebugLevel ''Updated client pktinfo''
                              (upd_session p
                                 (\<lambda>se. se\<lparr>natEntry := (natEntry se)
                                            \<lparr>clientPktinfo := Some cmsg,
                                             clientPktinfoCache := cmsg\<rparr>\<rparr>) s1)))
            else Some (None, s1)) of
        None \<Rightarrow>
          putPacketBuf (buf qp)
            (logw WarnLevel ''Failed to parse pktinfo control message from proxyConn'' s1)
      | Some (clientPktinfop, s2) \<Rightarrow>
         (case (if \<not> ok then startWorkers p clientPktinfop s2 else Inr s2) of
            Inl pn \<Rightarrow> Inl pn
          | Inr s3 \<Rightarrow> trySend p recvReady qp s3))"

text \<open>
  The critical section of an iteration, from \<^verbatim>\<open>s.mu.Lock()\<close> to \<^verbatim>\<open>s.mu.Unlock()\<close>, for
  a decrypted packet: the lookup, or the new session (where no socket can be had the
  buffer is returned and the iteration ends), and the rest for the entry.
\<close>

definition recvFromProxyConn_locked ::
    "deps \<Rightarrow> time \<Rightarrow> error option \<Rightarrow> bool \<Rightarrow> netip_AddrPort \<Rightarrow> bytes \<Rightarrow> queuedPacket
       \<Rightarrow> server \<Rightarrow> panic + server" where
  "recvFromProxyConn_locked d now listenErr recvReady clientAddrPort' cmsg qp s =
     (case table s clientAddrPort' of
        Some p \<Rightarrow>
          (if p < length (heap s) then recvFromProxyConn_session d True p recvReady cmsg qp s
           else Inl NilDereference)
      | None \<Rightarrow>
         (case newSession now listenErr clientAddrPort' s of
            Inl pn \<Rightarrow> Inl pn
          | Inr (None, s1) \<Rightarrow> putPacketBuf (buf qp) s1
          | Inr (Some p, s1) \<Rightarrow> recvFromProxyConn_session d False p recvReady cmsg qp s1))"

text \<open>What follows the loop once the read deadline ends it, and \<^verbatim>\<open>s.mwg.Done()\<close>.\<close>

definition recvFromProxyConn_exit :: "server \<Rightarrow> panic + server" where
  "recvFromProxyConn_exit s =
     (if mwg s - 1 < 0 then Inl NegativeWaitGroupCounter
      else Inr ((logw InfoLevel ''Finished receiving from proxyConn'' s)
                 \<lparr>mwg := mwg s - 1, ingress := Exited\<rparr>))"

text \<open>
  One iteration of the ingress loop for the read result \<open>r\<close>. The datagram is read
  into the pool buffer (at most as many bytes as it holds).
\<close>

definition recvFromProxyConn_iter ::
    "deps \<Rightarrow> recv \<Rightarrow> time \<Rightarrow> error option \<Rightarrow> bool \<Rightarrow> server \<Rightarrow> panic + server" where
  "recvFromProxyConn_iter d r now listenErr recvReady s0 =
     (if ingress s0 \<noteq> Running then Inr s0
      else case getPacketBuf s0 of
        Inl pn \<Rightarrow> Inl pn
      | Inr (packetBuf, s) \<Rightarrow>
         (case r of
            RecvErr err \<Rightarrow>
              (if err = ErrDeadlineExceeded
               then (case putPacketBuf packetBuf s of
                       Inl pn \<Rightarrow> Inl pn
                     | Inr s' \<Rightarrow> recvFromProxyConn_exit s')
               else putPacketBuf packetBuf
                      (logw WarnLevel ''Failed to read from proxyConn'' s))
          | Recv data cmsg flags clientAddrPort' \<Rightarrow>
             (let n = min (length data) (length packetBuf);
                  packetBuf1 = take n data @ drop n packetBuf
              in case ParseFlagsForError d flags of
                   Some err \<Rightarrow>
                     putPacketBuf packetBuf1
                       (logw WarnLevel ''Failed to read from proxyConn'' s)
                 | None \<Rightarrow>
                    (case DecryptZeroCopy (handler s) packetBuf1 0 (int n) of
                       Inl err \<Rightarrow>
                         putPacketBuf packetBuf1
                           (logw WarnLevel ''Failed to decrypt swgpPacket'' s)
                     | Inr (packetBuf2, wgPacketStart, wgPacketLength) \<Rightarrow>
                         recvFromProxyConn_locked d now listenErr recvReady clientAddrPort' cmsg
                           \<lparr>buf = packetBuf2, start = wgPacketStart, length' = wgPacketLength\<rparr>
                           s))))"

subsection \<open>Start and Stop\<close>

text \<open>
  \<^verbatim>\<open>Start\<close>: \<open>listenErr\<close> is the answer of \<^verbatim>\<open>conn.ListenUDP\<close> for the proxy socket;
  on success the ingress goroutine is started.
\<close>

definition Start :: "error option \<Rightarrow> server \<Rightarrow> error option \<times> server" where
  "Start listenErr s =
     (case listenErr of
        Some err \<Rightarrow> (Some err, s\<lparr>proxyConn := None\<rparr>)
      | None \<Rightarrow>
          (None, logw InfoLevel ''Started service''
                   (s\<lparr>proxyConn := Some ListenUDP, mwg := mwg s + 1, ingress := Running\<rparr>)))"

text \<open>
  \<^verbatim>\<open>s.mwg.Wait()\<close> returns when the ingress goroutine has ended: its read fails with
  the deadline error that \<^verbatim>\<open>Stop\<close> has just injected.
\<close>

definition mwg_Wait :: "deps \<Rightarrow> time \<Rightarrow> server \<Rightarrow> panic + server" where
  "mwg_Wait d now s =
     recvFromProxyConn_iter d (RecvErr ErrDeadlineExceeded) now None False s"

text \<open>
  The loop of \<^verbatim>\<open>Stop\<close> over the table, under the mutex; a failure is only logged.
  The entries of the table are the allocated entries that the table holds under their
  client's address.
\<close>

definition expire_session :: "time \<Rightarrow> server \<Rightarrow> nat \<Rightarrow> server" where
  "expire_session now s i =
     (if table s (clientAddrPort (heap s ! i)) = Some i
      then (case SetReadDeadline (wgConn (natEntry (heap s ! i))) now of
              (None, c) \<Rightarrow> upd_session i (\<lambda>se. se\<lparr>natEntry := (natEntry se)\<lparr>wgConn := c\<rparr>\<rparr>) s
            | (Some err, c) \<Rightarrow> logw WarnLevel ''Failed to SetReadDeadline on wgConn'' s)
      else s)"

definition expire_all :: "time \<Rightarrow> server \<Rightarrow> server" where
  "expire_all now s = foldl (expire_session now) s [0 ..< length (heap s)]"

text \<open>
  \<^verbatim>\<open>s.wg.Wait()\<close> returns when every session goroutine has ended: each running
  Wg\<rightarrow>Proxy worker meets its deadline and leaves, and each running Proxy\<rightarrow>Wg worker
  handles what is left in its channel and leaves.
\<close>

fun drain :: "nat \<Rightarrow> time \<Rightarrow> nat \<Rightarrow> server \<Rightarrow> panic + server" where
  "drain 0 now i s = Inr s"
| "drain (Suc k) now i s =
     (case relayProxyToWg_step now None i s of Inl pn \<Rightarrow> Inl pn | Inr s' \<Rightarrow> drain k now i s')"

definition finish_session :: "deps \<Rightarrow> time \<Rightarrow> nat \<Rightarrow> server \<Rightarrow> panic + server" where
  "finish_session d now i s =
     (case relayWgToProxy_iter d (RecvErr ErrDeadlineExceeded) None i s of
        Inl pn \<Rightarrow> Inl pn
      | Inr s' \<Rightarrow>
          drain (Suc (length (chbuf (wgConnSendCh (natEntry (heap s' ! i)))))) now i s')"

fun wg_Wait :: "deps \<Rightarrow> time \<Rightarrow> nat list \<Rightarrow> server \<Rightarrow> panic + server" where
  "wg_Wait d now [] s = Inr s"
| "wg_Wait d now (i # is) s =
     (case finish_session d now i s of Inl pn \<Rightarrow> Inl pn | Inr s' \<Rightarrow> wg_Wait d now is s')"

text \<open>
  \<^verbatim>\<open>Stop\<close>. It returns at once when there is no proxy socket, and with the error when
  the deadline cannot be set; otherwise it waits for the ingress goroutine, expires every
  session of the table, waits for the session goroutines and closes the proxy socket.
\<close>

definition Stop :: "deps \<Rightarrow> time \<Rightarrow> server \<Rightarrow> panic + (error option \<times> server)" where
  "Stop d now s =
     (case proxyConn s of
        None \<Rightarrow> Inr (None, s)
      | Some pc \<Rightarrow>
         (case SetReadDeadline pc now of
            (Some err, pc') \<Rightarrow> Inr (Some err, s)
          | (None, pc') \<Rightarrow>
             (case mwg_Wait d now (s\<lparr>proxyConn := Some pc'\<rparr>) of
                Inl pn \<Rightarrow> Inl pn
              | Inr s1 \<Rightarrow>
                 (case wg_Wait d now [0 ..< length (heap s1)] (expire_all now s1) of
                    Inl pn \<Rightarrow> Inl pn
                  | Inr s2 \<Rightarrow>
                     (case proxyConn s2 of
                        None \<Rightarrow> Inl NilDereference
                      | Some pc2 \<Rightarrow>
                          (case Close pc2 of
                             (cerr, pc3) \<Rightarrow> Inr (cerr, s2\<lparr>proxyConn := Some pc3\<rparr>)))))))"

subsection \<open>The goroutines together\<close>

text \<open>
  An event is one turn of one goroutine with what its environment answers: an iteration
  of the ingress loop (the read result, the time, the answer of \<^verbatim>\<open>conn.ListenUDP\<close> and
  whether an unbuffered channel's receiver is ready), a turn of the Proxy\<rightarrow>Wg worker of
  a session (the time and the answer to its write), or an iteration of the Wg\<rightarrow>Proxy
  worker of a session (the read result and the answer to its write), or a call of
  \<^verbatim>\<open>Stop\<close> (the time), whose result is dropped. A turn is one step: the mutex makes
  the critical sections exclusive, and outside them a goroutine works on its own socket,
  its own buffer and the pool.
\<close>

datatype event =
    IngressRecv recv time "error option" bool
  | ProxyToWg nat time "error option"
  | WgToProxy nat recv "error option"
  | StopCall time

fun step :: "deps \<Rightarrow> event \<Rightarrow> server \<Rightarrow> panic + server" where
  "step d (IngressRecv r now listenErr recvReady) s =
     recvFromProxyConn_iter d r now listenErr recvReady s"
| "step d (ProxyToWg i now oserr) s = relayProxyToWg_step now oserr i s"
| "step d (WgToProxy i r oserr) s = relayWgToProxy_iter d r oserr i s"
| "step d (StopCall now) s =
     (case Stop d now s of Inl pn \<Rightarrow> Inl pn | Inr (r, s') \<Rightarrow> Inr s')"

fun exec :: "deps \<Rightarrow> event list \<Rightarrow> server \<Rightarrow> panic + server" where
  "exec d [] s = Inr s"
| "exec d (e # es) s = (case step d e s of Inl pn \<Rightarrow> Inl pn | Inr s' \<Rightarrow> exec d es s')"

subsection \<open>States used by the worked examples\<close>

text \<open>
  A client at 192.0.2.1:51820, the server built from the example configuration with MTU
  1500 and started, and that server after a first datagram from the client whose first
  byte is 1 (read at time 100, with no control message).
\<close>

definition example_client :: netip_AddrPort where
  "example_client = AddrPort (IP 0 0xFFFFC0000201 z4) 51820"

definition example_server :: server where
  "example_server =
     (case Server example_deps (example_config 1500) of Inr s \<Rightarrow> snd (Start None s))"

definition example_session :: server where
  "example_session =
     (case recvFromProxyConn_iter example_deps (Recv [1, 0, 0, 0] [] 0 example_client)
             100 None False example_server of
        Inr s \<Rightarrow> s)"

subsection \<open>Invariants of the session goroutines\<close>

text \<open>
  The plaintext of a queued packet, the plaintexts a trace of the Proxy\<rightarrow>Wg worker has
  written, and the traces in which the upstream socket has not been closed.
\<close>

definition payload :: "queuedPacket \<Rightarrow> bytes" where
  "payload qp = take (nat (length' qp)) (drop (nat (start qp)) (buf qp))"

fun writes_of :: "effect list \<Rightarrow> bytes list" where
  "writes_of [] = []"
| "writes_of (EffWrite w a r # es) = w # writes_of es"
| "writes_of (EffSetReadDeadline t r # es) = writes_of es"
| "writes_of (EffPutBuf b # es) = writes_of es"
| "writes_of (EffClose r # es) = writes_of es"

fun no_close :: "effect list \<Rightarrow> bool" where
  "no_close [] = True"
| "no_close (EffClose r # es) = False"
| "no_close (EffWrite w a r # es) = no_close es"
| "no_close (EffSetReadDeadline t r # es) = no_close es"
| "no_close (EffPutBuf b # es) = no_close es"

text \<open>
  What holds of every allocated entry between two steps: the packets put on its channel
  are those written so far followed by those still queued; the upstream socket is
  closed only by the Proxy\<rightarrow>Wg worker as its last act, on an empty closed channel; the
  channel is closed exactly when the Wg\<rightarrow>Proxy worker has left.
\<close>

definition session_inv :: "session \<Rightarrow> bool" where
  "session_inv se =
     (writes_of (p2wTrace se) @ map payload (chbuf (wgConnSendCh (natEntry se)))
        = map payload (sendLog se)
      \<and> (relayProxyToWg se = NotStarted \<longrightarrow> p2wTrace se = [])
      \<and> (relayProxyToWg se \<noteq> Exited \<longrightarrow>
            no_close (p2wTrace se) \<and> \<not> closed (wgConn (natEntry se)))
      \<and> (relayProxyToWg se = Exited \<longrightarrow>
            chbuf (wgConnSendCh (natEntry se)) = []
            \<and> chclosed (wgConnSendCh (natEntry se))
            \<and> closed (wgConn (natEntry se))
            \<and> (\<exists>tr r. p2wTrace se = tr @ [EffClose r] \<and> no_close tr))
      \<and> (chclosed (wgConnSendCh (natEntry se)) = (relayWgToProxy se = Exited)))"

text \<open>
  What holds of the table between two steps: it points to allocated entries, each stored
  under its own client's address, whose Wg\<rightarrow>Proxy worker has not left; and the entry of
  a running Wg\<rightarrow>Proxy worker is in the table.
\<close>

definition server_inv :: "server \<Rightarrow> bool" where
  "server_inv s =
     ((\<forall>i < length (heap s). session_inv (heap s ! i))
      \<and> (\<forall>k p. table s k = Some p \<longrightarrow>
             p < length (heap s) \<and> clientAddrPort (heap s ! p) = k
             \<and> relayWgToProxy (heap s ! p) \<noteq> Exited)
      \<and> (\<forall>i < length (heap s). relayWgToProxy (heap s ! i) = Running \<longrightarrow>
             table s (clientAddrPort (heap s ! i)) = Some i))"

text \<open>
  How a state \<open>s'\<close> extends a state \<open>s\<close>: the two packet sizes of the server are the
  same, every entry of \<open>s\<close> is still allocated with the same client address and the same
  \<open>maxProxyPacketSize\<close>, and every entry allocated since has the size of its client's
  address family.
\<close>

definition heap_ext :: "server \<Rightarrow> server \<Rightarrow> bool" where
  "heap_ext s s' =
     (length (heap s) \<le> length (heap s')
      \<and> maxProxyPacketSizev4 s' = maxProxyPacketSizev4 s
      \<and> maxProxyPacketSizev6 s' = maxProxyPacketSizev6 s
      \<and> (\<forall>i < length (heap s).
            maxProxyPacketSize (natEntry (heap s' ! i)) = maxProxyPacketSize (natEntry (heap s ! i))
            \<and> clientAddrPort (heap s' ! i) = clientAddrPort (heap s ! i))
      \<and> (\<forall>i. length (heap s) \<le> i \<and> i < length (heap s') \<longrightarrow>
            maxProxyPacketSize (natEntry (heap s' ! i)) =
              (if Is4 (Addr (clientAddrPort (heap s' ! i)))
                  \<or> Is4In6 (Addr (clientAddrPort (heap s' ! i)))
               then maxProxyPacketSizev4 s else maxProxyPacketSizev6 s)))"

text \<open>
  The same client by its IPv4-mapped IPv6 address, a client at [2001:db8::1]:51820, and
  two runs: a first datagram from each of the three clients; and the life of one
  session (its first datagram, the deadline of its Wg\<rightarrow>Proxy worker, and two turns of
  its Proxy\<rightarrow>Wg worker).
\<close>

definition example_client_mapped :: netip_AddrPort where
  "example_client_mapped = AddrPort (IP 0 0xFFFFC0000201 z6noz) 51820"

definition example_client_v6 :: netip_AddrPort where
  "example_client_v6 = AddrPort (IP 0x20010DB800000000 1 z6noz) 51820"

definition example_three_clients :: "event list" where
  "example_three_clients =
     [IngressRecv (Recv [1, 0, 0, 0] [] 0 example_client) 100 None False,
      IngressRecv (Recv [1, 0, 0, 0] [] 0 example_client_mapped) 101 None False,
      IngressRecv (Recv [1, 0, 0, 0] [] 0 example_client_v6) 102 None False]"

definition example_session_life :: "event list" where
  "example_session_life =
     [IngressRecv (Recv [1, 0, 0, 0] [] 0 example_client) 100 None False,
      WgToProxy 0 (RecvErr ErrDeadlineExceeded) None,
      ProxyToWg 0 300 None,
      ProxyToWg 0 301 None]"

text \<open>
  A run in which the first control message of a new client does not parse: that
  datagram, a second datagram of the same client with no control message, a turn of the
  Proxy\<rightarrow>Wg worker of the entry, and \<^verbatim>\<open>Stop\<close>; and the state it ends in. Last, the
  state of the server with the one session after a first \<^verbatim>\<open>Stop\<close>.
\<close>

definition example_unparsed_run :: "event list" where
  "example_unparsed_run =
     [IngressRecv (Recv [1, 0, 0, 0] [1] 0 example_client) 100 None False,
      IngressRecv (Recv [1, 0, 0, 0] [] 0 example_client) 101 None False,
      ProxyToWg 0 102 None,
      StopCall 200]"

definition example_unparsed :: server where
  "example_unparsed =
     (case exec example_deps example_unparsed_run example_server of Inr s \<Rightarrow> s)"

definition example_stopped :: server where
  "example_stopped = (case Stop example_deps 200 example_session of Inr (r, s) \<Rightarrow> s)"

section \<open>Properties of the constructor\<close>

lemma wrapInt_id:
  "MinInt \<le> x \<Longrightarrow> x \<le> MaxInt \<Longrightarrow> wrapInt x = x"
  by (simp add: wrapInt_def MinInt_def MaxInt_def)

lemma wrapInt_range:
  "MinInt \<le> wrapInt x \<and> wrapInt x \<le> MaxInt"
proof -
  have "0 \<le> (x + 2 ^ 63) mod (2 ^ 64 :: int)" by simp
  moreover have "(x + 2 ^ 63) mod (2 ^ 64 :: int) < 2 ^ 64" by simp
  ultimately show ?thesis by (simp add: wrapInt_def MinInt_def MaxInt_def)
qed

lemma Server_Inr_fields:
  assumes "Server d sc = Inr s"
  shows "\<exists>pc h ap. CheckAndApplyDefaults d (Perf sc) = Inr pc
           \<and> getPacketHandlerForProxyMode d (ProxyMode sc) (ProxyPSK sc) = Inr h
           \<and> ResolveAddrPort d (WgEndpoint sc) = Inr ap
           \<and> minimumMTU \<le> MTU sc
           \<and> handler s = h
           \<and> maxProxyPacketSizev4 s
               = wrapInt (wrapInt (MTU sc - IPv4HeaderLength) - UDPHeaderLength)
           \<and> maxProxyPacketSizev6 s
               = wrapInt (wrapInt (MTU sc - IPv6HeaderLength) - UDPHeaderLength)
           \<and> wgTunnelMTUv4 s =
               wrapInt (wrapInt (maxProxyPacketSizev4 s
                                   - wrapInt (FrontOverhead h + RearOverhead h))
                          - WireGuardDataPacketOverhead) AND WireGuardDataPacketLengthMask
           \<and> wgTunnelMTUv6 s =
               wrapInt (wrapInt (maxProxyPacketSizev6 s
                                   - wrapInt (FrontOverhead h + RearOverhead h))
                          - WireGuardDataPacketOverhead) AND WireGuardDataPacketLengthMask
           \<and> proxyConn s = None"
  using assms
  by (auto simp: Server_def Let_def split: if_splits sum.splits)

lemma example_Server_1500:
  "\<exists>s. Server example_deps (example_config 1500) = Inr s"
  by (simp add: Server_def example_deps_def example_config_def minimumMTU_def Let_def)

lemma example_Server_overhead:
  "\<exists>s. Server (example_deps_overhead f r) (example_config 1500) = Inr s"
  by (simp add: Server_def example_deps_overhead_def example_deps_def example_config_def
      minimumMTU_def Let_def)

text \<open>
  The sizes without wrap-around. The MTU of an accepted configuration is at least 1280,
  so the two header subtractions are exact for every MTU that is an \<^verbatim>\<open>int\<close>.
\<close>

lemma Server_maxProxyPacketSize:
  assumes "Server d sc = Inr s" and "MTU sc \<le> MaxInt"
  shows "maxProxyPacketSizev4 s = MTU sc - 28" and "maxProxyPacketSizev6 s = MTU sc - 48"
proof -
  from Server_Inr_fields [OF assms(1)]
  have m: "1280 \<le> MTU sc"
    and v4: "maxProxyPacketSizev4 s
               = wrapInt (wrapInt (MTU sc - IPv4HeaderLength) - UDPHeaderLength)"
    and v6: "maxProxyPacketSizev6 s
               = wrapInt (wrapInt (MTU sc - IPv6HeaderLength) - UDPHeaderLength)"
    by (auto simp: minimumMTU_def)
  have a: "wrapInt (MTU sc - 20) = MTU sc - 20" "wrapInt (MTU sc - 40) = MTU sc - 40"
    "wrapInt (MTU sc - 20 - 8) = MTU sc - 20 - 8" "wrapInt (MTU sc - 40 - 8) = MTU sc - 40 - 8"
    using m assms(2) by (auto intro!: wrapInt_id simp: MinInt_def MaxInt_def)
  show "maxProxyPacketSizev4 s = MTU sc - 28"
    using v4 a by (simp add: IPv4HeaderLength_def UDPHeaderLength_def)
  show "maxProxyPacketSizev6 s = MTU sc - 48"
    using v6 a by (simp add: IPv6HeaderLength_def UDPHeaderLength_def)
qed

text \<open>
  Overheads that no buffer can hold make the sum wrap: with both at \<open>MaxInt\<close> it is
  \<open>-2\<close>, and the constructor reports tunnel MTUs of 1440 and 1408, not the value of the
  formula over the integers.
\<close>

lemma Server_overhead_wraps:
  "\<exists>s. Server (example_deps_overhead MaxInt MaxInt) (example_config 1500) = Inr s
     \<and> wgTunnelMTUv4 s = 1440 \<and> wgTunnelMTUv6 s = 1408
     \<and> (maxProxyPacketSizev4 s
           - (FrontOverhead (handler s) + RearOverhead (handler s)) - 32) AND NOT 15
         = - 18446744073709550176"
  by (simp add: Server_def example_deps_overhead_def example_deps_def example_config_def
      overheadHandler_def zeroOverheadHandler_def MaxInt_def wrapInt_def Let_def
      minimumMTU_def IPv4HeaderLength_def IPv6HeaderLength_def UDPHeaderLength_def
      WireGuardDataPacketOverhead_def WireGuardDataPacketLengthMask_def)

text \<open>
  C5. For every accepted configuration the derived sizes are
  \<open>maxProxyPacketSizev4 = MTU - 20 - 8\<close> and \<open>maxProxyPacketSizev6 = MTU - 40 - 8\<close>,
  and each advertised WireGuard tunnel MTU is
  \<open>(maxProxyPacketSize - (front overhead + rear overhead) - 32) AND NOT 0xF\<close>, computed
  separately for IPv4 and IPv6. The constructor computes in 64-bit \<^verbatim>\<open>int\<close>; the
  equations are those of the integers when the configured MTU is an \<^verbatim>\<open>int\<close> and the
  handler's two overheads are byte counts (not negative) whose sum is an \<^verbatim>\<open>int\<close>.
\<close>

theorem Server_derived_sizes:
  assumes "Server d sc = Inr s"
    and "MTU sc \<le> MaxInt"
    and "0 \<le> FrontOverhead (handler s)" and "0 \<le> RearOverhead (handler s)"
    and "FrontOverhead (handler s) + RearOverhead (handler s) \<le> MaxInt"
  shows "maxProxyPacketSizev4 s = MTU sc - 20 - 8
       \<and> maxProxyPacketSizev6 s = MTU sc - 40 - 8
       \<and> wgTunnelMTUv4 s =
           (maxProxyPacketSizev4 s
              - (FrontOverhead (handler s) + RearOverhead (handler s)) - 32) AND NOT 15
       \<and> wgTunnelMTUv6 s =
           (maxProxyPacketSizev6 s
              - (FrontOverhead (handler s) + RearOverhead (handler s)) - 32) AND NOT 15"
proof -
  let ?o = "FrontOverhead (handler s) + RearOverhead (handler s)"
  from Server_Inr_fields [OF assms(1)]
  have m: "1280 \<le> MTU sc"
    and t4: "wgTunnelMTUv4 s =
               wrapInt (wrapInt (maxProxyPacketSizev4 s - wrapInt ?o) - 32) AND NOT 15"
    and t6: "wgTunnelMTUv6 s =
               wrapInt (wrapInt (maxProxyPacketSizev6 s - wrapInt ?o) - 32) AND NOT 15"
    by (auto simp: minimumMTU_def WireGuardDataPacketOverhead_def
        WireGuardDataPacketLengthMask_def)
  have v4: "maxProxyPacketSizev4 s = MTU sc - 28"
    and v6: "maxProxyPacketSizev6 s = MTU sc - 48"
    using Server_maxProxyPacketSize [OF assms(1,2)] by simp_all
  have o: "0 \<le> ?o" "?o \<le> MaxInt"
    using assms(3-5) by simp_all
  have wo: "wrapInt ?o = ?o"
    using o by (intro wrapInt_id) (simp_all add: MinInt_def)
  have w4: "wrapInt (MTU sc - 28 - ?o) = MTU sc - 28 - ?o"
    "wrapInt (MTU sc - 28 - ?o - 32) = MTU sc - 28 - ?o - 32"
    using m assms(2) o by (auto intro!: wrapInt_id simp: MinInt_def MaxInt_def)
  have w6: "wrapInt (MTU sc - 48 - ?o) = MTU sc - 48 - ?o"
    "wrapInt (MTU sc - 48 - ?o - 32) = MTU sc - 48 - ?o - 32"
    using m assms(2) o by (auto intro!: wrapInt_id simp: MinInt_def MaxInt_def)
  have "wgTunnelMTUv4 s = (maxProxyPacketSizev4 s - ?o - 32) AND NOT 15"
    unfolding t4 v4 wo w4 ..
  moreover have "wgTunnelMTUv6 s = (maxProxyPacketSizev6 s - ?o - 32) AND NOT 15"
    unfolding t6 v6 wo w6 ..
  ultimately show ?thesis
    using v4 v6 by simp
qed

theorem Server_derived_sizes_witness:
  "(\<exists>s. Server example_deps (example_config 1500) = Inr s
      \<and> maxProxyPacketSizev4 s = 1472 \<and> maxProxyPacketSizev6 s = 1452
      \<and> wgTunnelMTUv4 s = 1440 \<and> wgTunnelMTUv6 s = 1408)
   \<and> (\<exists>s. Server (example_deps_overhead 24 16) (example_config 1500) = Inr s
      \<and> maxProxyPacketSizev4 s = 1472 \<and> maxProxyPacketSizev6 s = 1452
      \<and> wgTunnelMTUv4 s = 1392 \<and> wgTunnelMTUv6 s = 1376)"
proof -
  have m: "MTU (example_config 1500) = 1500" "MTU (example_config 1500) \<le> MaxInt"
    by (simp_all add: example_config_def MaxInt_def)
  obtain s where s: "Server example_deps (example_config 1500) = Inr s"
    using example_Server_1500 by blast
  have h: "handler s = zeroOverheadHandler"
    using Server_Inr_fields [OF s]
    by (auto simp: example_deps_def example_config_def)
  have "maxProxyPacketSizev4 s = 1472 \<and> maxProxyPacketSizev6 s = 1452
     \<and> wgTunnelMTUv4 s = 1440 \<and> wgTunnelMTUv6 s = 1408"
    using Server_derived_sizes [OF s m(2)]
    by (simp add: h m(1) zeroOverheadHandler_def MaxInt_def)
  with s have A: "\<exists>s. Server example_deps (example_config 1500) = Inr s
      \<and> maxProxyPacketSizev4 s = 1472 \<and> maxProxyPacketSizev6 s = 1452
      \<and> wgTunnelMTUv4 s = 1440 \<and> wgTunnelMTUv6 s = 1408"
    by blast
  obtain u where u: "Server (example_deps_overhead 24 16) (example_config 1500) = Inr u"
    using example_Server_overhead by blast
  have k: "handler u = overheadHandler 24 16"
    using Server_Inr_fields [OF u]
    by (auto simp: example_deps_overhead_def)
  have "maxProxyPacketSizev4 u = 1472 \<and> maxProxyPacketSizev6 u = 1452
     \<and> wgTunnelMTUv4 u = 1392 \<and> wgTunnelMTUv6 u = 1376"
    using Server_derived_sizes [OF u m(2)]
    by (simp add: k m(1) overheadHandler_def zeroOverheadHandler_def MaxInt_def)
  with u have B: "\<exists>s. Server (example_deps_overhead 24 16) (example_config 1500) = Inr s
      \<and> maxProxyPacketSizev4 s = 1472 \<and> maxProxyPacketSizev6 s = 1452
      \<and> wgTunnelMTUv4 s = 1392 \<and> wgTunnelMTUv6 s = 1376"
    by blast
  from A B show ?thesis by (rule conjI)
qed

text \<open>
  C6. The constructor fails with \<open>ErrMTUTooSmall\<close> exactly when the configured MTU is
  below 1280, whatever the later validations would answer (they are assumed not to
  return this sentinel themselves), and a server that is returned has no socket yet.
\<close>

theorem Server_MTUTooSmall_iff:
  assumes "\<And>p. CheckAndApplyDefaults d p \<noteq> Inl ErrMTUTooSmall"
    and "\<And>m k. getPacketHandlerForProxyMode d m k \<noteq> Inl ErrMTUTooSmall"
    and "\<And>a. ResolveAddrPort d a \<noteq> Inl ErrMTUTooSmall"
  shows "(Server d sc = Inl ErrMTUTooSmall) = (MTU sc < 1280)
       \<and> (case Server d sc of Inl err \<Rightarrow> True | Inr s \<Rightarrow> proxyConn s = None)"
  using assms
  by (auto simp: Server_def minimumMTU_def Let_def split: sum.splits)

theorem Server_MTUTooSmall_iff_witness:
  "Server example_deps (example_config 1279) = Inl ErrMTUTooSmall
   \<and> Server example_deps (example_config 1280) \<noteq> Inl ErrMTUTooSmall"
proof -
  have a: "\<And>p. CheckAndApplyDefaults example_deps p \<noteq> Inl ErrMTUTooSmall"
    by (simp add: example_deps_def)
  have b: "\<And>m k. getPacketHandlerForProxyMode example_deps m k \<noteq> Inl ErrMTUTooSmall"
    by (simp add: example_deps_def)
  have c: "\<And>a. ResolveAddrPort example_deps a \<noteq> Inl ErrMTUTooSmall"
    by (simp add: example_deps_def)
  have m: "MTU (example_config 1279) = 1279" "MTU (example_config 1280) = 1280"
    by (simp_all add: example_config_def)
  show ?thesis
    using Server_MTUTooSmall_iff [OF a b c, of "example_config 1279"]
      Server_MTUTooSmall_iff [OF a b c, of "example_config 1280"]
    by (simp add: m)
qed

section \<open>Properties of the Proxy\<rightarrow>Wg worker\<close>

lemma slice_in_bounds:
  "0 \<le> lo \<Longrightarrow> lo \<le> hi \<Longrightarrow> hi \<le> int (length b)
     \<Longrightarrow> slice b lo hi = Inr (take (nat (hi - lo)) (drop (nat lo) b))"
  by (simp add: slice_def)

lemma upd_session_heap_nth:
  "i < length (heap s) \<Longrightarrow> heap (upd_session i f s) ! i = f (heap s ! i)"
  by (simp add: upd_session_def)

lemma upd_session_fields [simp]:
  "packetBufPool (upd_session i f s) = packetBufPool s"
  "poolPuts (upd_session i f s) = poolPuts s"
  "poolGets (upd_session i f s) = poolGets s"
  "logger (upd_session i f s) = logger s"
  "table (upd_session i f s) = table s"
  "wg (upd_session i f s) = wg s"
  "mwg (upd_session i f s) = mwg s"
  "proxyConn (upd_session i f s) = proxyConn s"
  "proxyWrites (upd_session i f s) = proxyWrites s"
  "ingress (upd_session i f s) = ingress s"
  "handler (upd_session i f s) = handler s"
  "wgAddrPort (upd_session i f s) = wgAddrPort s"
  "maxProxyPacketSizev4 (upd_session i f s) = maxProxyPacketSizev4 s"
  "maxProxyPacketSizev6 (upd_session i f s) = maxProxyPacketSizev6 s"
  "sendChannelCapacity (upd_session i f s) = sendChannelCapacity s"
  "length (heap (upd_session i f s)) = length (heap s)"
  by (simp_all add: upd_session_def)

lemma logw_fields [simp]:
  "packetBufPool (logw lv m s) = packetBufPool s"
  "poolPuts (logw lv m s) = poolPuts s"
  "poolGets (logw lv m s) = poolGets s"
  "logger (logw lv m s) = logger s @ [(lv, m)]"
  "table (logw lv m s) = table s"
  "heap (logw lv m s) = heap s"
  "wg (logw lv m s) = wg s"
  "mwg (logw lv m s) = mwg s"
  "proxyConn (logw lv m s) = proxyConn s"
  "proxyWrites (logw lv m s) = proxyWrites s"
  "ingress (logw lv m s) = ingress s"
  "handler (logw lv m s) = handler s"
  "wgAddrPort (logw lv m s) = wgAddrPort s"
  "maxProxyPacketSizev4 (logw lv m s) = maxProxyPacketSizev4 s"
  "maxProxyPacketSizev6 (logw lv m s) = maxProxyPacketSizev6 s"
  "sendChannelCapacity (logw lv m s) = sendChannelCapacity s"
  by (simp_all add: logw_def)

text \<open>
  C10. The worker reads the first byte of each received packet with no length guard of
  its own. For a queued packet with \<open>0 \<le> start\<close>, \<open>start + length \<le> len(buf)\<close> and
  \<open>1 \<le> length\<close> the slice expression and the read of the first byte are in bounds and
  the body of the loop runs without a panic; for a plaintext of length zero (its start
  within the buffer) the read of the first byte panics with an index out of range.
\<close>

theorem relayProxyToWg_packet_bounds:
  "(0 \<le> start qp \<and> start qp + length' qp \<le> int (length (buf qp)) \<and> 1 \<le> length' qp
      \<longrightarrow> (\<exists>wgPacket. slice (buf qp) (start qp) (start qp + length' qp) = Inr wgPacket
             \<and> index wgPacket 0 = Inr (buf qp ! nat (start qp))
             \<and> (\<exists>s'. relayProxyToWg_packet now oserr qp i s = Inr s')))
   \<and> (0 \<le> start qp \<and> start qp \<le> int (length (buf qp)) \<and> length' qp = 0
      \<longrightarrow> relayProxyToWg_packet now oserr qp i s = Inl IndexOutOfRange)"
proof (intro conjI impI)
  assume a: "0 \<le> start qp \<and> start qp + length' qp \<le> int (length (buf qp)) \<and> 1 \<le> length' qp"
  then have sl: "slice (buf qp) (start qp) (start qp + length' qp)
      = Inr (take (nat (length' qp)) (drop (nat (start qp)) (buf qp)))"
    by (simp add: slice_def)
  have ne: "buf qp \<noteq> []" using a by auto
  have ix: "index (take (nat (length' qp)) (drop (nat (start qp)) (buf qp))) 0
      = Inr (buf qp ! nat (start qp))"
    using a by (auto simp: index_def)
  have "\<exists>s'. relayProxyToWg_packet now oserr qp i s = Inr s'"
    by (simp add: relayProxyToWg_packet_def sl ix Let_def putPacketBuf_def ne
        split: prod.splits option.splits)
  with sl ix show "\<exists>wgPacket. slice (buf qp) (start qp) (start qp + length' qp) = Inr wgPacket
             \<and> index wgPacket 0 = Inr (buf qp ! nat (start qp))
             \<and> (\<exists>s'. relayProxyToWg_packet now oserr qp i s = Inr s')"
    by simp
next
  assume a: "0 \<le> start qp \<and> start qp \<le> int (length (buf qp)) \<and> length' qp = 0"
  then show "relayProxyToWg_packet now oserr qp i s = Inl IndexOutOfRange"
    by (simp add: relayProxyToWg_packet_def slice_def index_def Let_def)
qed

theorem relayProxyToWg_packet_bounds_witness:
  "(\<exists>s'. relayProxyToWg_packet 0 None \<lparr>buf = [4, 0, 0, 0], start = 0, length' = 4\<rparr> 0
            example_server = Inr s')
   \<and> relayProxyToWg_packet 0 None \<lparr>buf = [4, 0, 0, 0], start = 0, length' = 0\<rparr> 0
            example_server = Inl IndexOutOfRange"
  using relayProxyToWg_packet_bounds
          [of "\<lparr>buf = [4, 0, 0, 0], start = 0, length' = 4\<rparr>" 0 None 0 example_server]
        relayProxyToWg_packet_bounds
          [of "\<lparr>buf = [4, 0, 0, 0], start = 0, length' = 0\<rparr>" 0 None 0 example_server]
  by auto

text \<open>
  C4. For a received packet of length at least 1 (within its buffer), the worker writes
  it to the upstream socket and then sets the socket's read deadline to
  \<open>now + RejectAfterTime\<close> exactly when the first byte is 1 or 2; for any other first
  byte (3 and 4 among them) the deadline is left as it was. In every case the buffer goes
  back to the pool. The upstream socket is open while the worker runs.
\<close>

theorem relayProxyToWg_packet_deadline:
  assumes "i < length (heap s)"
    and "0 \<le> start qp" and "start qp + length' qp \<le> int (length (buf qp))"
    and "1 \<le> length' qp"
    and "\<not> closed (wgConn (natEntry (heap s ! i)))"
  shows "\<exists>s'. relayProxyToWg_packet now oserr qp i s = Inr s'
     \<and> readDeadline (wgConn (natEntry (heap s' ! i))) =
         (if buf qp ! nat (start qp) = 1 \<or> buf qp ! nat (start qp) = 2
          then Some (now + RejectAfterTime)
          else readDeadline (wgConn (natEntry (heap s ! i))))
     \<and> p2wTrace (heap s' ! i) =
         p2wTrace (heap s ! i)
         @ [EffWrite (take (nat (length' qp)) (drop (nat (start qp)) (buf qp))) (wgAddrPort s) oserr]
         @ (if buf qp ! nat (start qp) = 1 \<or> buf qp ! nat (start qp) = 2
            then [EffSetReadDeadline (now + RejectAfterTime) None] else [])
         @ [EffPutBuf (buf qp)]
     \<and> packetBufPool s' = buf qp # packetBufPool s
     \<and> poolPuts s' = Suc (poolPuts s)"
proof -
  have sl: "slice (buf qp) (start qp) (start qp + length' qp)
      = Inr (take (nat (length' qp)) (drop (nat (start qp)) (buf qp)))"
    using assms by (simp add: slice_def)
  have ne: "buf qp \<noteq> []" using assms by auto
  have ix: "index (take (nat (length' qp)) (drop (nat (start qp)) (buf qp))) 0
      = Inr (buf qp ! nat (start qp))"
    using assms by (auto simp: index_def)
  show ?thesis
    using assms(1,5)
    by (simp add: relayProxyToWg_packet_def sl ix Let_def putPacketBuf_def ne
        isHandshake_def WireGuardMessageTypeHandshakeInitiation_def
        WireGuardMessageTypeHandshakeResponse_def SetReadDeadline_def WriteTo_def
        upd_session_def logw_def split: option.splits)
qed

lemmas example_defs =
  example_deps_def example_config_def example_client_def zeroOverheadHandler_def

lemmas const_defs =
  minimumMTU_def IPv4HeaderLength_def IPv6HeaderLength_def UDPHeaderLength_def
  WireGuardDataPacketOverhead_def WireGuardDataPacketLengthMask_def RejectAfterTime_def

lemma example_server_eq:
  "example_server =
     \<lparr>name = ''server'', proxyListen = '':20220'', proxyFwmark = 0, wgFwmark = 0,
      relayBatchSize = 0, mainRecvBatchSize = 0, sendChannelCapacity = 1,
      maxProxyPacketSizev4 = 1472, maxProxyPacketSizev6 = 1452,
      wgTunnelMTUv4 = 1440, wgTunnelMTUv6 = 1408,
      wgAddrPort = AddrPort (IP 0 0xFFFF7F000001 z4) 51820,
      handler = zeroOverheadHandler,
      logger = [(InfoLevel, ''Started service'')],
      proxyConn = Some \<lparr>closed = False, readDeadline = None\<rparr>,
      packetBufPool = [], wg = 0, mwg = 1, table = Map.empty, heap = [],
      ingress = Running, proxyWrites = [], poolGets = 0, poolPuts = 0\<rparr>"
  by (simp add: example_server_def Server_def Start_def example_defs const_defs Let_def
      logw_def ListenUDP_def wrapInt_def)

lemma example_session_facts:
  "length (heap example_session) = 1"
  "table example_session example_client = Some 0"
  "wgConn (natEntry (heap example_session ! 0)) = \<lparr>closed = False, readDeadline = Some 280\<rparr>"
  "relayProxyToWg (heap example_session ! 0) = Running"
  "relayWgToProxy (heap example_session ! 0) = Running"
  "chbuf (wgConnSendCh (natEntry (heap example_session ! 0)))
     = [\<lparr>buf = [1, 0, 0, 0] @ replicate 1468 0, start = 0, length' = 4\<rparr>]"
  "p2wTrace (heap example_session ! 0) = []"
  "packetBufPool example_session = []"
  by (simp_all add: example_session_def example_server_eq recvFromProxyConn_iter_def
      getPacketBuf_def example_defs const_defs Let_def recvFromProxyConn_locked_def recvFromProxyConn_session_def
      newSession_def SetReadDeadline_def ListenUDP_def make_chan_def Is4_def Is4In6_def
      startWorkers_def relayWgToProxy_start_def slice_def trySend_def chan_can_send_def
      upd_session_def logw_def)

theorem relayProxyToWg_packet_deadline_witness:
  "(\<exists>s'. relayProxyToWg_packet 105 None \<lparr>buf = [2, 0, 0, 0], start = 0, length' = 4\<rparr> 0
            example_session = Inr s'
         \<and> readDeadline (wgConn (natEntry (heap s' ! 0))) = Some 285
         \<and> packetBufPool s' = [[2, 0, 0, 0]])
   \<and> (\<exists>s'. relayProxyToWg_packet 105 None \<lparr>buf = [4, 0, 0, 0], start = 0, length' = 4\<rparr> 0
            example_session = Inr s'
         \<and> readDeadline (wgConn (natEntry (heap s' ! 0))) = Some 280
         \<and> packetBufPool s' = [[4, 0, 0, 0]])"
proof -
  have i: "0 < length (heap example_session)"
    by (simp add: example_session_facts)
  have c: "\<not> closed (wgConn (natEntry (heap example_session ! 0)))"
    by (simp add: example_session_facts)
  have a: "\<exists>s'. relayProxyToWg_packet 105 None \<lparr>buf = [2, 0, 0, 0], start = 0, length' = 4\<rparr> 0
            example_session = Inr s'
         \<and> readDeadline (wgConn (natEntry (heap s' ! 0))) = Some 285
         \<and> packetBufPool s' = [[2, 0, 0, 0]]"
    using relayProxyToWg_packet_deadline
            [OF i, of "\<lparr>buf = [2, 0, 0, 0], start = 0, length' = 4\<rparr>" 105 None] c
    by (auto simp: example_session_facts RejectAfterTime_def)
  have b: "\<exists>s'. relayProxyToWg_packet 105 None \<lparr>buf = [4, 0, 0, 0], start = 0, length' = 4\<rparr> 0
            example_session = Inr s'
         \<and> readDeadline (wgConn (natEntry (heap s' ! 0))) = Some 280
         \<and> packetBufPool s' = [[4, 0, 0, 0]]"
    using relayProxyToWg_packet_deadline
            [OF i, of "\<lparr>buf = [4, 0, 0, 0], start = 0, length' = 4\<rparr>" 105 None] c
    by (auto simp: example_session_facts RejectAfterTime_def)
  from a b show ?thesis by blast
qed

section \<open>Properties of the Wg\<rightarrow>Proxy worker\<close>

text \<open>
  C8. When the Wg\<rightarrow>Proxy worker reads a datagram whose source is not the configured
  WireGuard endpoint (compared with IPv4-mapped addresses unmapped), the iteration only
  logs a warning: nothing is handed to the proxy socket, the handler's encryption is not
  applied, the session entry, the table, the worker's pktinfo and its counters stay as
  they were, and the worker keeps running. The worker's scratch buffer holds the datagram
  the read put there.
\<close>

theorem relayWgToProxy_iter_non_wg_source:
  assumes "i < length (heap s)" and "relayWgToProxy (heap s ! i) = Running"
    and "\<not> AddrPortMappedEqual src (wgAddrPort s)"
  shows "\<exists>s' m scratch. relayWgToProxy_iter d (Recv data oob flags src) oserr i s = Inr s'
     \<and> proxyWrites s' = proxyWrites s
     \<and> logger s' = logger s @ [(WarnLevel, m)]
     \<and> s' = s\<lparr>heap := (heap s)[i := (heap s ! i)\<lparr>w2pPacketBuf := scratch\<rparr>],
              logger := logger s'\<rparr>
     \<and> scratch = take (nat (FrontOverhead (handler s))) (w2pPacketBuf (heap s ! i))
          @ take (min (length data)
                   (nat (maxProxyPacketSize (natEntry (heap s ! i)) - RearOverhead (handler s)
                           - FrontOverhead (handler s)))) data
          @ drop (nat (FrontOverhead (handler s))
                   + min (length data)
                       (nat (maxProxyPacketSize (natEntry (heap s ! i)) - RearOverhead (handler s)
                               - FrontOverhead (handler s)))) (w2pPacketBuf (heap s ! i))
     \<and> natEntry (heap s' ! i) = natEntry (heap s ! i)
     \<and> relayWgToProxy (heap s' ! i) = Running
     \<and> table s' = table s"
  using assms
  by (auto simp: relayWgToProxy_iter_def Let_def upd_session_def logw_def
      split: option.splits)

lemma example_session_more:
  "wgAddrPort example_session = AddrPort (IP 0 0xFFFF7F000001 z4) 51820"
  "proxyWrites example_session = []"
  "ingress example_session = Running"
  "poolGets example_session = 1"
  "poolPuts example_session = 0"
  "maxProxyPacketSizev4 example_session = 1472"
  "handler example_session = zeroOverheadHandler"
  "chclosed (wgConnSendCh (natEntry (heap example_session ! 0))) = False"
  "chcap (wgConnSendCh (natEntry (heap example_session ! 0))) = 1"
  "clientPktinfoCache (natEntry (heap example_session ! 0)) = []"
  "wg example_session = 2"
  "sendLog (heap example_session ! 0)
     = [\<lparr>buf = [1, 0, 0, 0] @ replicate 1468 0, start = 0, length' = 4\<rparr>]"
  by (simp_all add: example_session_def example_server_eq recvFromProxyConn_iter_def
      getPacketBuf_def example_defs const_defs Let_def recvFromProxyConn_locked_def recvFromProxyConn_session_def
      newSession_def SetReadDeadline_def ListenUDP_def make_chan_def Is4_def Is4In6_def
      startWorkers_def relayWgToProxy_start_def slice_def trySend_def chan_can_send_def
      upd_session_def logw_def)

theorem relayWgToProxy_iter_non_wg_source_witness:
  "\<exists>s'. relayWgToProxy_iter example_deps
            (Recv [4, 0, 0, 0] [] 0 (AddrPort (IP 0 0xFFFF7F000001 z4) 9999)) None 0
            example_session = Inr s'
      \<and> proxyWrites s' = []
      \<and> natEntry (heap s' ! 0) = natEntry (heap example_session ! 0)
      \<and> relayWgToProxy (heap s' ! 0) = Running"
proof -
  have i: "0 < length (heap example_session)"
    by (simp add: example_session_facts)
  have r: "relayWgToProxy (heap example_session ! 0) = Running"
    by (simp add: example_session_facts)
  have n: "\<not> AddrPortMappedEqual (AddrPort (IP 0 0xFFFF7F000001 z4) 9999)
              (wgAddrPort example_session)"
    by (simp add: example_session_more AddrPortMappedEqual_def)
  show ?thesis
    using relayWgToProxy_iter_non_wg_source [OF i r n, of example_deps "[4, 0, 0, 0]" "[]" 0 None]
    by (auto simp: example_session_more)
qed

section \<open>Properties of the ingress loop\<close>

lemma trySend_full:
  assumes "\<not> chclosed (wgConnSendCh (natEntry (heap s ! p)))"
    and "\<not> chan_can_send (heap s ! p) recvReady"
    and "buf qp \<noteq> []"
  shows "trySend p recvReady qp s =
           Inr (s\<lparr>logger := logger s
                     @ [(DebugLevel, ''wgPacket dropped due to full send channel'')],
                  packetBufPool := buf qp # packetBufPool s,
                  poolPuts := Suc (poolPuts s)\<rparr>)"
  using assms by (simp add: trySend_def putPacketBuf_def logw_def)

lemma getPacketBuf_Inr:
  assumes "getPacketBuf s = Inr (b, s1)"
  shows "poolGets s1 = Suc (poolGets s)" and "heap s1 = heap s" and "table s1 = table s"
    and "poolPuts s1 = poolPuts s" and "logger s1 = logger s" and "handler s1 = handler s"
    and "wg s1 = wg s" and "ingress s1 = ingress s"
    and "s1 = s\<lparr>packetBufPool := packetBufPool s1, poolGets := Suc (poolGets s)\<rparr>"
    and "proxyConn s1 = proxyConn s" and "mwg s1 = mwg s"
    and "maxProxyPacketSizev4 s1 = maxProxyPacketSizev4 s"
    and "maxProxyPacketSizev6 s1 = maxProxyPacketSizev6 s"
    and "proxyWrites s1 = proxyWrites s" and "wgAddrPort s1 = wgAddrPort s"
    and "sendChannelCapacity s1 = sendChannelCapacity s"
  using assms by (auto simp: getPacketBuf_def split: if_splits list.splits)

lemma locked_existing_full:
  assumes tab: "table s src = Some p" and p: "p < length (heap s)"
    and op: "\<not> chclosed (wgConnSendCh (natEntry (heap s ! p)))"
    and full: "\<not> chan_can_send (heap s ! p) recvReady"
    and parse: "clientPktinfoCache (natEntry (heap s ! p)) = cmsg
                  \<or> (\<exists>info. ParsePktinfoCmsg d cmsg = Inr info)"
    and ne: "buf qp \<noteq> []"
  shows "\<exists>s'. recvFromProxyConn_locked d now listenErr recvReady src cmsg qp s = Inr s'
     \<and> table s' = table s
     \<and> length (heap s') = length (heap s)
     \<and> (\<forall>j. j \<noteq> p \<longrightarrow> heap s' ! j = heap s ! j)
     \<and> wgConnSendCh (natEntry (heap s' ! p)) = wgConnSendCh (natEntry (heap s ! p))
     \<and> wgConn (natEntry (heap s' ! p)) = wgConn (natEntry (heap s ! p))
     \<and> maxProxyPacketSize (natEntry (heap s' ! p)) = maxProxyPacketSize (natEntry (heap s ! p))
     \<and> sendLog (heap s' ! p) = sendLog (heap s ! p)
     \<and> relayProxyToWg (heap s' ! p) = relayProxyToWg (heap s ! p)
     \<and> relayWgToProxy (heap s' ! p) = relayWgToProxy (heap s ! p)
     \<and> packetBufPool s' = buf qp # packetBufPool s
     \<and> poolGets s' = poolGets s
     \<and> poolPuts s' = Suc (poolPuts s)
     \<and> wg s' = wg s
     \<and> ingress s' = ingress s
     \<and> proxyConn s' = proxyConn s
     \<and> last (logger s') = (DebugLevel, ''wgPacket dropped due to full send channel'')"
proof (cases "clientPktinfoCache (natEntry (heap s ! p)) = cmsg")
  case True
  then show ?thesis
    using tab p op full ne
    by (simp add: recvFromProxyConn_locked_def recvFromProxyConn_session_def trySend_full)
next
  case False
  with parse obtain info where info: "ParsePktinfoCmsg d cmsg = Inr info" by blast
  let ?s2 = "logw DebugLevel ''Updated client pktinfo''
               (upd_session p (\<lambda>se. se\<lparr>natEntry := (natEntry se)
                   \<lparr>clientPktinfo := Some cmsg, clientPktinfoCache := cmsg\<rparr>\<rparr>) s)"
  have op2: "\<not> chclosed (wgConnSendCh (natEntry (heap ?s2 ! p)))"
    using op p by (simp add: upd_session_def)
  have full2: "\<not> chan_can_send (heap ?s2 ! p) recvReady"
    using full p by (simp add: upd_session_def chan_can_send_def)
  have eq: "recvFromProxyConn_locked d now listenErr recvReady src cmsg qp s
              = trySend p recvReady qp ?s2"
    using tab p False info by (simp add: recvFromProxyConn_locked_def recvFromProxyConn_session_def)
  show ?thesis
    unfolding eq trySend_full [OF op2 full2 ne]
    using p by (simp add: upd_session_def)
qed

lemma iter_existing_full:
  assumes run: "ingress s = Running"
    and get: "getPacketBuf s = Inr (b, s1)"
    and flags: "ParseFlagsForError d flags = None"
    and dec: "DecryptZeroCopy (handler s)
                (take (min (length data) (length b)) data @ drop (min (length data) (length b)) b)
                0 (int (min (length data) (length b))) = Inr (pb, st, len)"
    and ne: "pb \<noteq> []"
    and tab: "table s src = Some p" and p: "p < length (heap s)"
    and op: "\<not> chclosed (wgConnSendCh (natEntry (heap s ! p)))"
    and full: "\<not> chan_can_send (heap s ! p) recvReady"
    and parse: "clientPktinfoCache (natEntry (heap s ! p)) = cmsg
                  \<or> (\<exists>info. ParsePktinfoCmsg d cmsg = Inr info)"
  shows "\<exists>s'. recvFromProxyConn_iter d (Recv data cmsg flags src) now listenErr recvReady s = Inr s'
     \<and> table s' = table s
     \<and> length (heap s') = length (heap s)
     \<and> (\<forall>j. j \<noteq> p \<longrightarrow> heap s' ! j = heap s ! j)
     \<and> wgConnSendCh (natEntry (heap s' ! p)) = wgConnSendCh (natEntry (heap s ! p))
     \<and> wgConn (natEntry (heap s' ! p)) = wgConn (natEntry (heap s ! p))
     \<and> maxProxyPacketSize (natEntry (heap s' ! p)) = maxProxyPacketSize (natEntry (heap s ! p))
     \<and> sendLog (heap s' ! p) = sendLog (heap s ! p)
     \<and> relayProxyToWg (heap s' ! p) = relayProxyToWg (heap s ! p)
     \<and> relayWgToProxy (heap s' ! p) = relayWgToProxy (heap s ! p)
     \<and> packetBufPool s' = pb # packetBufPool s1
     \<and> poolGets s' = Suc (poolGets s)
     \<and> poolPuts s' = Suc (poolPuts s)
     \<and> wg s' = wg s
     \<and> ingress s' = Running
     \<and> proxyConn s' = proxyConn s
     \<and> last (logger s') = (DebugLevel, ''wgPacket dropped due to full send channel'')"
proof -
  note g = getPacketBuf_Inr [OF get]
  have s1: "s1 = s\<lparr>packetBufPool := packetBufPool s1, poolGets := Suc (poolGets s)\<rparr>"
    by (rule g(9))
  have tab1: "table s1 src = Some p" using tab g by simp
  have p1: "p < length (heap s1)" using p g by simp
  have op1: "\<not> chclosed (wgConnSendCh (natEntry (heap s1 ! p)))" using op g by simp
  have full1: "\<not> chan_can_send (heap s1 ! p) recvReady" using full g by simp
  have parse1: "clientPktinfoCache (natEntry (heap s1 ! p)) = cmsg
                  \<or> (\<exists>info. ParsePktinfoCmsg d cmsg = Inr info)" using parse g by simp
  have ne1: "buf \<lparr>buf = pb, start = st, length' = len\<rparr> \<noteq> []" using ne by simp
  have eq: "recvFromProxyConn_iter d (Recv data cmsg flags src) now listenErr recvReady s
      = recvFromProxyConn_locked d now listenErr recvReady src cmsg
          \<lparr>buf = pb, start = st, length' = len\<rparr> s1"
    using run get flags dec g(6) by (simp add: recvFromProxyConn_iter_def Let_def)
  from locked_existing_full [OF tab1 p1 op1 full1 parse1 ne1, of now listenErr]
  show ?thesis unfolding eq using g run by (auto simp: )
qed

text \<open>
  C3. Whenever the send channel of a session cannot take a packet, the \<^verbatim>\<open>select\<close>
  returns at once by its \<^verbatim>\<open>default\<close> branch: it logs the drop and puts the packet's
  buffer on the pool, and changes nothing else. So when a decrypted packet arrives for a
  session of the table whose channel is full, the iteration returns, the channel keeps
  exactly the packets it held (the new packet is the one dropped), the table and every
  other session are as before, and the iteration has taken one buffer and returned one.
  Of the packet's own session only the pktinfo can have been refreshed by the earlier
  step of the same iteration.
\<close>

theorem recvFromProxyConn_iter_queue_full:
  "(\<not> chclosed (wgConnSendCh (natEntry (heap s0 ! q)))
      \<and> \<not> chan_can_send (heap s0 ! q) ready \<and> buf qp \<noteq> []
    \<longrightarrow> trySend q ready qp s0 =
           Inr (s0\<lparr>logger := logger s0
                     @ [(DebugLevel, ''wgPacket dropped due to full send channel'')],
                   packetBufPool := buf qp # packetBufPool s0,
                   poolPuts := Suc (poolPuts s0)\<rparr>))
   \<and> (ingress s = Running
      \<and> getPacketBuf s = Inr (b, s1)
      \<and> ParseFlagsForError d flags = None
      \<and> DecryptZeroCopy (handler s)
            (take (min (length data) (length b)) data @ drop (min (length data) (length b)) b)
            0 (int (min (length data) (length b))) = Inr (pb, st, len)
      \<and> pb \<noteq> []
      \<and> table s src = Some p \<and> p < length (heap s)
      \<and> \<not> chclosed (wgConnSendCh (natEntry (heap s ! p)))
      \<and> \<not> chan_can_send (heap s ! p) recvReady
      \<and> (clientPktinfoCache (natEntry (heap s ! p)) = cmsg
            \<or> (\<exists>info. ParsePktinfoCmsg d cmsg = Inr info))
    \<longrightarrow> (\<exists>s'. recvFromProxyConn_iter d (Recv data cmsg flags src) now listenErr recvReady s = Inr s'
     \<and> table s' = table s
     \<and> length (heap s') = length (heap s)
     \<and> (\<forall>j. j \<noteq> p \<longrightarrow> heap s' ! j = heap s ! j)
     \<and> wgConnSendCh (natEntry (heap s' ! p)) = wgConnSendCh (natEntry (heap s ! p))
     \<and> wgConn (natEntry (heap s' ! p)) = wgConn (natEntry (heap s ! p))
     \<and> maxProxyPacketSize (natEntry (heap s' ! p)) = maxProxyPacketSize (natEntry (heap s ! p))
     \<and> sendLog (heap s' ! p) = sendLog (heap s ! p)
     \<and> relayProxyToWg (heap s' ! p) = relayProxyToWg (heap s ! p)
     \<and> relayWgToProxy (heap s' ! p) = relayWgToProxy (heap s ! p)
     \<and> packetBufPool s' = pb # packetBufPool s1
     \<and> poolGets s' = Suc (poolGets s)
     \<and> poolPuts s' = Suc (poolPuts s)
     \<and> wg s' = wg s
     \<and> ingress s' = Running
     \<and> proxyConn s' = proxyConn s
     \<and> last (logger s') = (DebugLevel, ''wgPacket dropped due to full send channel'')))"
proof -
  have A: "\<not> chclosed (wgConnSendCh (natEntry (heap s0 ! q)))
      \<and> \<not> chan_can_send (heap s0 ! q) ready \<and> buf qp \<noteq> []
    \<longrightarrow> trySend q ready qp s0 =
           Inr (s0\<lparr>logger := logger s0
                     @ [(DebugLevel, ''wgPacket dropped due to full send channel'')],
                   packetBufPool := buf qp # packetBufPool s0,
                   poolPuts := Suc (poolPuts s0)\<rparr>)"
    by (simp add: trySend_full)
  have B: "ingress s = Running
      \<and> getPacketBuf s = Inr (b, s1)
      \<and> ParseFlagsForError d flags = None
      \<and> DecryptZeroCopy (handler s)
            (take (min (length data) (length b)) data @ drop (min (length data) (length b)) b)
            0 (int (min (length data) (length b))) = Inr (pb, st, len)
      \<and> pb \<noteq> []
      \<and> table s src = Some p \<and> p < length (heap s)
      \<and> \<not> chclosed (wgConnSendCh (natEntry (heap s ! p)))
      \<and> \<not> chan_can_send (heap s ! p) recvReady
      \<and> (clientPktinfoCache (natEntry (heap s ! p)) = cmsg
            \<or> (\<exists>info. ParsePktinfoCmsg d cmsg = Inr info))
    \<longrightarrow> (\<exists>s'. recvFromProxyConn_iter d (Recv data cmsg flags src) now listenErr recvReady s = Inr s'
     \<and> table s' = table s
     \<and> length (heap s') = length (heap s)
     \<and> (\<forall>j. j \<noteq> p \<longrightarrow> heap s' ! j = heap s ! j)
     \<and> wgConnSendCh (natEntry (heap s' ! p)) = wgConnSendCh (natEntry (heap s ! p))
     \<and> wgConn (natEntry (heap s' ! p)) = wgConn (natEntry (heap s ! p))
     \<and> maxProxyPacketSize (natEntry (heap s' ! p)) = maxProxyPacketSize (natEntry (heap s ! p))
     \<and> sendLog (heap s' ! p) = sendLog (heap s ! p)
     \<and> relayProxyToWg (heap s' ! p) = relayProxyToWg (heap s ! p)
     \<and> relayWgToProxy (heap s' ! p) = relayWgToProxy (heap s ! p)
     \<and> packetBufPool s' = pb # packetBufPool s1
     \<and> poolGets s' = Suc (poolGets s)
     \<and> poolPuts s' = Suc (poolPuts s)
     \<and> wg s' = wg s
     \<and> ingress s' = Running
     \<and> proxyConn s' = proxyConn s
     \<and> last (logger s') = (DebugLevel, ''wgPacket dropped due to full send channel''))"
    using iter_existing_full [of s b s1 d flags data pb st len src p recvReady cmsg now listenErr]
    by blast
  from A B show ?thesis by (rule conjI)
qed

theorem recvFromProxyConn_iter_queue_full_witness:
  "\<exists>s'. recvFromProxyConn_iter example_deps (Recv [4, 0, 0, 0] [] 0 example_client)
            101 None False example_session = Inr s'
      \<and> table s' = table example_session
      \<and> chbuf (wgConnSendCh (natEntry (heap s' ! 0)))
          = [\<lparr>buf = [1, 0, 0, 0] @ replicate 1468 0, start = 0, length' = 4\<rparr>]
      \<and> packetBufPool s' = [[4, 0, 0, 0] @ replicate 1468 0]
      \<and> poolGets s' = 2 \<and> poolPuts s' = 1"
proof -
  let ?s1 = "example_session\<lparr>poolGets := Suc (poolGets example_session)\<rparr>"
  have run: "ingress example_session = Running"
    by (simp add: example_session_more)
  have get: "getPacketBuf example_session = Inr (replicate 1472 0, ?s1)"
    by (simp add: getPacketBuf_def example_session_more example_session_facts)
  have flags: "ParseFlagsForError example_deps 0 = None"
    by (simp add: example_deps_def)
  have dec: "DecryptZeroCopy (handler example_session)
                (take (min (length [4, 0, 0, 0 :: byte]) (length (replicate 1472 (0 :: byte))))
                   [4, 0, 0, 0]
                 @ drop (min (length [4, 0, 0, 0 :: byte]) (length (replicate 1472 (0 :: byte))))
                     (replicate 1472 0))
                0 (int (min (length [4, 0, 0, 0 :: byte]) (length (replicate 1472 (0 :: byte)))))
              = Inr ([4, 0, 0, 0] @ replicate 1468 0, 0, 4)"
    by (simp add: example_session_more zeroOverheadHandler_def)
  have ne: "[4, 0, 0, 0] @ replicate 1468 (0 :: byte) \<noteq> []" by simp
  have tab: "table example_session example_client = Some 0"
    by (simp add: example_session_facts)
  have p: "0 < length (heap example_session)"
    by (simp add: example_session_facts)
  have op: "\<not> chclosed (wgConnSendCh (natEntry (heap example_session ! 0)))"
    by (simp add: example_session_more)
  have full: "\<not> chan_can_send (heap example_session ! 0) False"
    by (simp add: chan_can_send_def example_session_more example_session_facts)
  have parse: "clientPktinfoCache (natEntry (heap example_session ! 0)) = []
                 \<or> (\<exists>info. ParsePktinfoCmsg example_deps [] = Inr info)"
    by (simp add: example_session_more)
  have full0: "trySend 0 False \<lparr>buf = [4, 0, 0, 0], start = 0, length' = 4\<rparr> example_session
      = Inr (example_session\<lparr>logger := logger example_session
                     @ [(DebugLevel, ''wgPacket dropped due to full send channel'')],
                   packetBufPool := [4, 0, 0, 0] # packetBufPool example_session,
                   poolPuts := Suc (poolPuts example_session)\<rparr>)"
    using recvFromProxyConn_iter_queue_full
            [where ?s0.0 = example_session and q = 0 and ready = False
               and qp = "\<lparr>buf = [4, 0, 0, 0], start = 0, length' = 4\<rparr>", THEN conjunct1]
      op full by simp
  show ?thesis
    using recvFromProxyConn_iter_queue_full
            [where s = example_session and b = "replicate 1472 0" and ?s1.0 = ?s1
               and d = example_deps and flags = 0 and data = "[4, 0, 0, 0]"
               and pb = "[4, 0, 0, 0] @ replicate 1468 0" and st = 0 and len = 4
               and src = example_client and p = 0 and recvReady = False and cmsg = "[]"
               and now = 101 and listenErr = None, THEN conjunct2]
      run get flags dec ne tab p op full parse full0
    by (auto simp: example_session_more example_session_facts)
qed

section \<open>Invariants of the running server\<close>

lemma writes_of_append [simp]: "writes_of (xs @ ys) = writes_of xs @ writes_of ys"
  by (induction xs rule: writes_of.induct) auto

lemma no_close_append [simp]: "no_close (xs @ ys) = (no_close xs \<and> no_close ys)"
  by (induction xs rule: no_close.induct) auto

lemma Close_closed: "Close c = (r, c') \<Longrightarrow> closed c'"
  by (auto simp: Close_def split: if_splits)

lemma SetReadDeadline_closed: "SetReadDeadline c t = (r, c') \<Longrightarrow> closed c' = closed c"
  by (auto simp: SetReadDeadline_def split: if_splits)

lemma server_inv_frame:
  assumes "server_inv s" and "heap s' = heap s" and "table s' = table s"
  shows "server_inv s'"
  using assms by (simp add: server_inv_def)

lemma server_invD_session:
  "server_inv s \<Longrightarrow> i < length (heap s) \<Longrightarrow> session_inv (heap s ! i)"
  by (simp add: server_inv_def)

text \<open>Changing one entry keeps the invariant when the table's view of it is kept.\<close>

lemma server_inv_upd:
  assumes inv: "server_inv s" and i: "i < length (heap s)"
    and len: "length (heap s') = length (heap s)"
    and oth: "\<And>j. j \<noteq> i \<Longrightarrow> heap s' ! j = heap s ! j"
    and se: "session_inv (heap s' ! i)"
    and cap: "clientAddrPort (heap s' ! i) = clientAddrPort (heap s ! i)"
    and w: "relayWgToProxy (heap s' ! i) = relayWgToProxy (heap s ! i)"
    and t: "table s' = table s"
  shows "server_inv s'"
proof -
  have a: "session_inv (heap s' ! j)" if "j < length (heap s')" for j
    using that inv se len oth [of j] by (cases "j = i") (auto simp: server_inv_def)
  have b: "p < length (heap s') \<and> clientAddrPort (heap s' ! p) = k
             \<and> relayWgToProxy (heap s' ! p) \<noteq> Exited" if "table s' k = Some p" for k p
  proof -
    have "p < length (heap s) \<and> clientAddrPort (heap s ! p) = k
             \<and> relayWgToProxy (heap s ! p) \<noteq> Exited"
      using that inv t by (simp add: server_inv_def)
    then show ?thesis
      using len cap w oth [of p] by (cases "p = i") auto
  qed
  have c: "table s' (clientAddrPort (heap s' ! j)) = Some j"
    if j: "j < length (heap s')" and r: "relayWgToProxy (heap s' ! j) = Running" for j
  proof -
    have "relayWgToProxy (heap s ! j) = Running
            \<and> clientAddrPort (heap s' ! j) = clientAddrPort (heap s ! j)"
      using j r cap w oth [of j] by (cases "j = i") auto
    then show ?thesis
      using inv j len t by (simp add: server_inv_def)
  qed
  show ?thesis
    unfolding server_inv_def using a b c by blast
qed

lemma slice_Inr_payload:
  "slice (buf qp) (start qp) (start qp + length' qp) = Inr w \<Longrightarrow> w = payload qp"
  by (auto simp: slice_def payload_def split: if_splits)

text \<open>What the body of the Proxy\<rightarrow>Wg loop changes.\<close>

lemma relayProxyToWg_packet_Inr:
  assumes r: "relayProxyToWg_packet now oserr qp i s = Inr s'" and i: "i < length (heap s)"
  shows "length (heap s') = length (heap s)"
    and "\<And>j. j \<noteq> i \<Longrightarrow> heap s' ! j = heap s ! j"
    and "table s' = table s"
    and "maxProxyPacketSizev4 s' = maxProxyPacketSizev4 s"
    and "maxProxyPacketSizev6 s' = maxProxyPacketSizev6 s"
    and "closed (wgConn (natEntry (heap s' ! i))) = closed (wgConn (natEntry (heap s ! i)))"
    and "wgConnSendCh (natEntry (heap s' ! i)) = wgConnSendCh (natEntry (heap s ! i))"
    and "maxProxyPacketSize (natEntry (heap s' ! i)) = maxProxyPacketSize (natEntry (heap s ! i))"
    and "sendLog (heap s' ! i) = sendLog (heap s ! i)"
    and "relayProxyToWg (heap s' ! i) = relayProxyToWg (heap s ! i)"
    and "relayWgToProxy (heap s' ! i) = relayWgToProxy (heap s ! i)"
    and "clientAddrPort (heap s' ! i) = clientAddrPort (heap s ! i)"
    and "writes_of (p2wTrace (heap s' ! i)) = writes_of (p2wTrace (heap s ! i)) @ [payload qp]"
    and "no_close (p2wTrace (heap s' ! i)) = no_close (p2wTrace (heap s ! i))"
proof -
  from r obtain w where w: "slice (buf qp) (start qp) (start qp + length' qp) = Inr w"
    by (auto simp: relayProxyToWg_packet_def split: sum.splits)
  then have wp: "w = payload qp" by (rule slice_Inr_payload)
  from r w obtain b where b: "index w 0 = Inr b"
    by (auto simp: relayProxyToWg_packet_def Let_def split: sum.splits)
  obtain eff c' s2 where e:
    "(if isHandshake b
      then (case SetReadDeadline (wgConn (natEntry (heap s ! i))) (now + RejectAfterTime) of
              (None, c') \<Rightarrow> ([EffSetReadDeadline (now + RejectAfterTime) None], c',
                  (case WriteTo (wgConn (natEntry (heap s ! i))) oserr of None \<Rightarrow> s
                   | Some err \<Rightarrow> logw WarnLevel ''Failed to write wgPacket to wgConn'' s))
            | (Some err, c') \<Rightarrow>
                ([EffSetReadDeadline (now + RejectAfterTime) (Some err)], c',
                 logw WarnLevel ''Failed to SetReadDeadline on wgConn''
                  (case WriteTo (wgConn (natEntry (heap s ! i))) oserr of None \<Rightarrow> s
                   | Some err \<Rightarrow> logw WarnLevel ''Failed to write wgPacket to wgConn'' s)))
      else ([], wgConn (natEntry (heap s ! i)),
            (case WriteTo (wgConn (natEntry (heap s ! i))) oserr of None \<Rightarrow> s
                   | Some err \<Rightarrow> logw WarnLevel ''Failed to write wgPacket to wgConn'' s)))
     = (eff, c', s2)"
    by (cases rule: prod_cases3) blast
  have e1: "no_close eff \<and> writes_of eff = []
      \<and> closed c' = closed (wgConn (natEntry (heap s ! i)))
      \<and> heap s2 = heap s \<and> table s2 = table s
      \<and> maxProxyPacketSizev4 s2 = maxProxyPacketSizev4 s
      \<and> maxProxyPacketSizev6 s2 = maxProxyPacketSizev6 s"
    using e by (auto simp: SetReadDeadline_def split: if_splits option.splits)
  from r w b e obtain s3 where s3: "putPacketBuf (buf qp) s2 = Inr s3"
    and s': "s' = upd_session i
                (\<lambda>se. se\<lparr>natEntry := (natEntry se)\<lparr>wgConn := c'\<rparr>,
                          p2wPacketsSent := p2wPacketsSent se + 1,
                          p2wWgBytesSent := p2wWgBytesSent se + of_int (length' qp),
                          p2wTrace := p2wTrace se
                            @ [EffWrite w (wgAddrPort s) (WriteTo (wgConn (natEntry (heap s ! i))) oserr)]
                            @ eff @ [EffPutBuf (buf qp)]\<rparr>) s3"
    by (auto simp: relayProxyToWg_packet_def Let_def split: sum.splits)
  have s3h: "heap s3 = heap s \<and> table s3 = table s
      \<and> maxProxyPacketSizev4 s3 = maxProxyPacketSizev4 s
      \<and> maxProxyPacketSizev6 s3 = maxProxyPacketSizev6 s"
    using s3 e1 by (auto simp: putPacketBuf_def split: if_splits)
  show "length (heap s') = length (heap s)"
    and "\<And>j. j \<noteq> i \<Longrightarrow> heap s' ! j = heap s ! j"
    and "table s' = table s"
    and "maxProxyPacketSizev4 s' = maxProxyPacketSizev4 s"
    and "maxProxyPacketSizev6 s' = maxProxyPacketSizev6 s"
    and "closed (wgConn (natEntry (heap s' ! i))) = closed (wgConn (natEntry (heap s ! i)))"
    and "wgConnSendCh (natEntry (heap s' ! i)) = wgConnSendCh (natEntry (heap s ! i))"
    and "maxProxyPacketSize (natEntry (heap s' ! i)) = maxProxyPacketSize (natEntry (heap s ! i))"
    and "sendLog (heap s' ! i) = sendLog (heap s ! i)"
    and "relayProxyToWg (heap s' ! i) = relayProxyToWg (heap s ! i)"
    and "relayWgToProxy (heap s' ! i) = relayWgToProxy (heap s ! i)"
    and "clientAddrPort (heap s' ! i) = clientAddrPort (heap s ! i)"
    and "writes_of (p2wTrace (heap s' ! i)) = writes_of (p2wTrace (heap s ! i)) @ [payload qp]"
    and "no_close (p2wTrace (heap s' ! i)) = no_close (p2wTrace (heap s ! i))"
    using i e1 s3h wp by (simp_all add: s' upd_session_def)
qed

lemma heap_ext_refl: "heap_ext s s"
  by (simp add: heap_ext_def)

lemma heap_ext_trans:
  assumes "heap_ext s s'" and "heap_ext s' s''"
  shows "heap_ext s s''"
  using assms unfolding heap_ext_def
  by (smt (verit, best) le_trans not_le_imp_less order_less_le_trans)

lemma heap_ext_same:
  assumes "length (heap s') = length (heap s)"
    and "maxProxyPacketSizev4 s' = maxProxyPacketSizev4 s"
    and "maxProxyPacketSizev6 s' = maxProxyPacketSizev6 s"
    and "\<And>i. i < length (heap s) \<Longrightarrow>
           maxProxyPacketSize (natEntry (heap s' ! i)) = maxProxyPacketSize (natEntry (heap s ! i))
           \<and> clientAddrPort (heap s' ! i) = clientAddrPort (heap s ! i)"
  shows "heap_ext s s'"
  using assms by (simp add: heap_ext_def)

lemma heap_ext_frame:
  assumes "heap s' = heap s"
    and "maxProxyPacketSizev4 s' = maxProxyPacketSizev4 s"
    and "maxProxyPacketSizev6 s' = maxProxyPacketSizev6 s"
  shows "heap_ext s s'"
  using assms by (simp add: heap_ext_def)

lemma wg_Done_Inr:
  assumes "wg_Done s = Inr s'"
  shows "heap s' = heap s" and "table s' = table s"
    and "maxProxyPacketSizev4 s' = maxProxyPacketSizev4 s"
    and "maxProxyPacketSizev6 s' = maxProxyPacketSizev6 s"
  using assms by (auto simp: wg_Done_def split: if_splits)

lemma relayProxyToWg_exit_Inr:
  assumes r: "relayProxyToWg_exit i s = Inr s'" and i: "i < length (heap s)"
  shows "length (heap s') = length (heap s)"
    and "\<And>j. j \<noteq> i \<Longrightarrow> heap s' ! j = heap s ! j"
    and "table s' = table s"
    and "maxProxyPacketSizev4 s' = maxProxyPacketSizev4 s"
    and "maxProxyPacketSizev6 s' = maxProxyPacketSizev6 s"
    and "closed (wgConn (natEntry (heap s' ! i)))"
    and "wgConnSendCh (natEntry (heap s' ! i)) = wgConnSendCh (natEntry (heap s ! i))"
    and "maxProxyPacketSize (natEntry (heap s' ! i)) = maxProxyPacketSize (natEntry (heap s ! i))"
    and "sendLog (heap s' ! i) = sendLog (heap s ! i)"
    and "relayProxyToWg (heap s' ! i) = Exited"
    and "relayWgToProxy (heap s' ! i) = relayWgToProxy (heap s ! i)"
    and "clientAddrPort (heap s' ! i) = clientAddrPort (heap s ! i)"
    and "\<exists>r. p2wTrace (heap s' ! i) = p2wTrace (heap s ! i) @ [EffClose r]"
proof -
  obtain cerr c' where c: "Close (wgConn (natEntry (heap s ! i))) = (cerr, c')"
    by (cases "Close (wgConn (natEntry (heap s ! i)))") blast
  have cl: "closed c'" using c by (rule Close_closed)
  let ?s2 = "upd_session i
                 (\<lambda>se. se\<lparr>natEntry := (natEntry se)\<lparr>wgConn := c'\<rparr>,
                           relayProxyToWg := Exited,
                           p2wTrace := p2wTrace se @ [EffClose cerr]\<rparr>)
                 (logw InfoLevel ''Finished relay proxyConn -> wgConn'' s)"
  have w: "wg_Done ?s2 = Inr s'"
    using r c by (simp add: relayProxyToWg_exit_def Let_def)
  note d = wg_Done_Inr [OF w]
  show "length (heap s') = length (heap s)"
    and "\<And>j. j \<noteq> i \<Longrightarrow> heap s' ! j = heap s ! j"
    and "table s' = table s"
    and "maxProxyPacketSizev4 s' = maxProxyPacketSizev4 s"
    and "maxProxyPacketSizev6 s' = maxProxyPacketSizev6 s"
    and "closed (wgConn (natEntry (heap s' ! i)))"
    and "wgConnSendCh (natEntry (heap s' ! i)) = wgConnSendCh (natEntry (heap s ! i))"
    and "maxProxyPacketSize (natEntry (heap s' ! i)) = maxProxyPacketSize (natEntry (heap s ! i))"
    and "sendLog (heap s' ! i) = sendLog (heap s ! i)"
    and "relayProxyToWg (heap s' ! i) = Exited"
    and "relayWgToProxy (heap s' ! i) = relayWgToProxy (heap s ! i)"
    and "clientAddrPort (heap s' ! i) = clientAddrPort (heap s ! i)"
    and "\<exists>r. p2wTrace (heap s' ! i) = p2wTrace (heap s ! i) @ [EffClose r]"
    using i cl by (simp_all add: d upd_session_def)
qed

lemma relayProxyToWg_step_inv:
  assumes r: "relayProxyToWg_step now oserr i s = Inr s'" and inv: "server_inv s"
  shows "server_inv s'"
proof (cases "i < length (heap s) \<and> relayProxyToWg (heap s ! i) = Running")
  case False
  then show ?thesis using r inv by (auto simp: relayProxyToWg_step_def)
next
  case True
  then have i: "i < length (heap s)" and run: "relayProxyToWg (heap s ! i) = Running"
    by simp_all
  have si: "session_inv (heap s ! i)" using inv i by (rule server_invD_session)
  show ?thesis
  proof (cases "chbuf (wgConnSendCh (natEntry (heap s ! i)))")
    case Nil
    show ?thesis
    proof (cases "chclosed (wgConnSendCh (natEntry (heap s ! i)))")
      case False
      then show ?thesis using r inv i run Nil by (simp add: relayProxyToWg_step_def)
    next
      case cl: True
      have e: "relayProxyToWg_exit i s = Inr s'"
        using r i run Nil cl by (simp add: relayProxyToWg_step_def)
      note x = relayProxyToWg_exit_Inr [OF e i]
      from x(13) obtain rr where tr: "p2wTrace (heap s' ! i) = p2wTrace (heap s ! i) @ [EffClose rr]"
        by blast
      have "session_inv (heap s' ! i)"
        using si run Nil cl x(6,7,9,10,11) tr
        by (auto simp: session_inv_def)
      then show ?thesis
        using inv i x(1) x(2) x(12) x(11) x(3) server_inv_upd [of s i s'] by blast
    qed
  next
    case (Cons qp rest)
    let ?sm = "upd_session i
               (\<lambda>se. se\<lparr>natEntry := (natEntry se)
                          \<lparr>wgConnSendCh := (wgConnSendCh (natEntry se))\<lparr>chbuf := rest\<rparr>\<rparr>\<rparr>) s"
    have e: "relayProxyToWg_packet now oserr qp i ?sm = Inr s'"
      using r i run Cons by (simp add: relayProxyToWg_step_def)
    have im: "i < length (heap ?sm)" using i by simp
    note x = relayProxyToWg_packet_Inr [OF e im]
    have m: "heap ?sm ! i = (heap s ! i)\<lparr>natEntry := (natEntry (heap s ! i))
                \<lparr>wgConnSendCh := (wgConnSendCh (natEntry (heap s ! i)))\<lparr>chbuf := rest\<rparr>\<rparr>\<rparr>"
      using i by (simp add: upd_session_def)
    have "session_inv (heap s' ! i)"
      using si run Cons x(6,7,9,10,11,13,14)
      by (auto simp: session_inv_def m)
    moreover have "length (heap s') = length (heap s)" using x(1) by simp
    moreover have "\<And>j. j \<noteq> i \<Longrightarrow> heap s' ! j = heap s ! j"
      using x(2) by (simp add: upd_session_def)
    moreover have "clientAddrPort (heap s' ! i) = clientAddrPort (heap s ! i)"
      using x(12) by (simp add: m)
    moreover have "relayWgToProxy (heap s' ! i) = relayWgToProxy (heap s ! i)"
      using x(11) by (simp add: m)
    moreover have "table s' = table s" using x(3) by simp
    ultimately show ?thesis
      using inv i server_inv_upd by blast
  qed
qed

lemma relayProxyToWg_step_ext:
  assumes r: "relayProxyToWg_step now oserr i s = Inr s'"
  shows "heap_ext s s'"
proof (cases "i < length (heap s) \<and> relayProxyToWg (heap s ! i) = Running")
  case False
  then show ?thesis using r by (auto simp: relayProxyToWg_step_def heap_ext_refl)
next
  case True
  then have i: "i < length (heap s)" and run: "relayProxyToWg (heap s ! i) = Running"
    by simp_all
  show ?thesis
  proof (cases "chbuf (wgConnSendCh (natEntry (heap s ! i)))")
    case Nil
    show ?thesis
    proof (cases "chclosed (wgConnSendCh (natEntry (heap s ! i)))")
      case False
      then show ?thesis using r i run Nil by (simp add: relayProxyToWg_step_def heap_ext_refl)
    next
      case cl: True
      have e: "relayProxyToWg_exit i s = Inr s'"
        using r i run Nil cl by (simp add: relayProxyToWg_step_def)
      note x = relayProxyToWg_exit_Inr [OF e i]
      show ?thesis
      proof (rule heap_ext_same)
        fix j assume "j < length (heap s)"
        then show "maxProxyPacketSize (natEntry (heap s' ! j)) = maxProxyPacketSize (natEntry (heap s ! j))
           \<and> clientAddrPort (heap s' ! j) = clientAddrPort (heap s ! j)"
          using x(2) [of j] x(8) x(12) by (cases "j = i") auto
      qed (use x in auto)
    qed
  next
    case (Cons qp rest)
    let ?sm = "upd_session i
               (\<lambda>se. se\<lparr>natEntry := (natEntry se)
                          \<lparr>wgConnSendCh := (wgConnSendCh (natEntry se))\<lparr>chbuf := rest\<rparr>\<rparr>\<rparr>) s"
    have e: "relayProxyToWg_packet now oserr qp i ?sm = Inr s'"
      using r i run Cons by (simp add: relayProxyToWg_step_def)
    have im: "i < length (heap ?sm)" using i by simp
    note x = relayProxyToWg_packet_Inr [OF e im]
    have m: "heap ?sm ! i = (heap s ! i)\<lparr>natEntry := (natEntry (heap s ! i))
                \<lparr>wgConnSendCh := (wgConnSendCh (natEntry (heap s ! i)))\<lparr>chbuf := rest\<rparr>\<rparr>\<rparr>"
      using i by (simp add: upd_session_def)
    show ?thesis
    proof (rule heap_ext_same)
      fix j assume "j < length (heap s)"
      then show "maxProxyPacketSize (natEntry (heap s' ! j)) = maxProxyPacketSize (natEntry (heap s ! j))
           \<and> clientAddrPort (heap s' ! j) = clientAddrPort (heap s ! j)"
        using x(2) [of j] x(8) x(12) by (cases "j = i") (auto simp: m upd_session_def)
    qed (use x in auto)
  qed
qed

text \<open>What an iteration of the Wg\<rightarrow>Proxy loop that stays in the loop changes.\<close>

lemma relayWgToProxy_iter_Inr:
  assumes r: "relayWgToProxy_iter d rr oserr i s = Inr s'"
    and nd: "rr \<noteq> RecvErr ErrDeadlineExceeded"
  shows "length (heap s') = length (heap s)"
    and "table s' = table s"
    and "maxProxyPacketSizev4 s' = maxProxyPacketSizev4 s"
    and "maxProxyPacketSizev6 s' = maxProxyPacketSizev6 s"
    and "\<And>j. j < length (heap s) \<Longrightarrow>
          natEntry (heap s' ! j) = natEntry (heap s ! j)
          \<and> sendLog (heap s' ! j) = sendLog (heap s ! j)
          \<and> p2wTrace (heap s' ! j) = p2wTrace (heap s ! j)
          \<and> relayProxyToWg (heap s' ! j) = relayProxyToWg (heap s ! j)
          \<and> relayWgToProxy (heap s' ! j) = relayWgToProxy (heap s ! j)
          \<and> clientAddrPort (heap s' ! j) = clientAddrPort (heap s ! j)"
proof -
  have "length (heap s') = length (heap s) \<and> table s' = table s
     \<and> maxProxyPacketSizev4 s' = maxProxyPacketSizev4 s
     \<and> maxProxyPacketSizev6 s' = maxProxyPacketSizev6 s
     \<and> (\<forall>j < length (heap s).
          natEntry (heap s' ! j) = natEntry (heap s ! j)
          \<and> sendLog (heap s' ! j) = sendLog (heap s ! j)
          \<and> p2wTrace (heap s' ! j) = p2wTrace (heap s ! j)
          \<and> relayProxyToWg (heap s' ! j) = relayProxyToWg (heap s ! j)
          \<and> relayWgToProxy (heap s' ! j) = relayWgToProxy (heap s ! j)
          \<and> clientAddrPort (heap s' ! j) = clientAddrPort (heap s ! j))"
  proof (cases "i < length (heap s) \<and> relayWgToProxy (heap s ! i) = Running")
    case False
    then show ?thesis using r by (auto simp: relayWgToProxy_iter_def)
  next
    case True
    show ?thesis
    proof (cases rr)
      case (RecvErr err)
      then show ?thesis using r nd True by (auto simp: relayWgToProxy_iter_def)
    next
      case (Recv data oob flags src)
      show ?thesis
        using r True unfolding Recv relayWgToProxy_iter_def Let_def
        by (auto simp: upd_session_def nth_list_update
            split: option.splits sum.splits if_splits prod.splits)
    qed
  qed
  then show "length (heap s') = length (heap s)"
    and "table s' = table s"
    and "maxProxyPacketSizev4 s' = maxProxyPacketSizev4 s"
    and "maxProxyPacketSizev6 s' = maxProxyPacketSizev6 s"
    and "\<And>j. j < length (heap s) \<Longrightarrow>
          natEntry (heap s' ! j) = natEntry (heap s ! j)
          \<and> sendLog (heap s' ! j) = sendLog (heap s ! j)
          \<and> p2wTrace (heap s' ! j) = p2wTrace (heap s ! j)
          \<and> relayProxyToWg (heap s' ! j) = relayProxyToWg (heap s ! j)
          \<and> relayWgToProxy (heap s' ! j) = relayWgToProxy (heap s ! j)
          \<and> clientAddrPort (heap s' ! j) = clientAddrPort (heap s ! j)"
    by simp_all
qed

lemma session_inv_cong:
  assumes "natEntry se' = natEntry se" and "sendLog se' = sendLog se"
    and "p2wTrace se' = p2wTrace se" and "relayProxyToWg se' = relayProxyToWg se"
    and "relayWgToProxy se' = relayWgToProxy se"
  shows "session_inv se' = session_inv se"
  using assms by (simp add: session_inv_def)

text \<open>
  A step that keeps the table and, of every entry, what the invariants read keeps the
  invariants.
\<close>

lemma server_inv_same:
  assumes inv: "server_inv s"
    and len: "length (heap s') = length (heap s)" and t: "table s' = table s"
    and f: "\<And>j. j < length (heap s) \<Longrightarrow>
          natEntry (heap s' ! j) = natEntry (heap s ! j)
          \<and> sendLog (heap s' ! j) = sendLog (heap s ! j)
          \<and> p2wTrace (heap s' ! j) = p2wTrace (heap s ! j)
          \<and> relayProxyToWg (heap s' ! j) = relayProxyToWg (heap s ! j)
          \<and> relayWgToProxy (heap s' ! j) = relayWgToProxy (heap s ! j)
          \<and> clientAddrPort (heap s' ! j) = clientAddrPort (heap s ! j)"
  shows "server_inv s'"
proof -
  have a: "session_inv (heap s' ! j)" if "j < length (heap s')" for j
  proof -
    have j: "j < length (heap s)" using that len by simp
    have "session_inv (heap s' ! j) = session_inv (heap s ! j)"
      using f [OF j] by (intro session_inv_cong) simp_all
    then show ?thesis using inv j by (simp add: server_inv_def)
  qed
  have b: "p < length (heap s') \<and> clientAddrPort (heap s' ! p) = k
             \<and> relayWgToProxy (heap s' ! p) \<noteq> Exited" if "table s' k = Some p" for k p
  proof -
    have x: "p < length (heap s) \<and> clientAddrPort (heap s ! p) = k
             \<and> relayWgToProxy (heap s ! p) \<noteq> Exited"
      using that inv t by (simp add: server_inv_def)
    then show ?thesis using len f [of p] by simp
  qed
  have c: "table s' (clientAddrPort (heap s' ! j)) = Some j"
    if j: "j < length (heap s')" and r: "relayWgToProxy (heap s' ! j) = Running" for j
  proof -
    have j': "j < length (heap s)" using j len by simp
    then show ?thesis using inv r f [OF j'] t by (simp add: server_inv_def)
  qed
  show ?thesis
    unfolding server_inv_def using a b c by blast
qed

lemma heap_ext_same_fields:
  assumes len: "length (heap s') = length (heap s)"
    and "maxProxyPacketSizev4 s' = maxProxyPacketSizev4 s"
    and "maxProxyPacketSizev6 s' = maxProxyPacketSizev6 s"
    and f: "\<And>j. j < length (heap s) \<Longrightarrow>
          natEntry (heap s' ! j) = natEntry (heap s ! j)
          \<and> sendLog (heap s' ! j) = sendLog (heap s ! j)
          \<and> p2wTrace (heap s' ! j) = p2wTrace (heap s ! j)
          \<and> relayProxyToWg (heap s' ! j) = relayProxyToWg (heap s ! j)
          \<and> relayWgToProxy (heap s' ! j) = relayWgToProxy (heap s ! j)
          \<and> clientAddrPort (heap s' ! j) = clientAddrPort (heap s ! j)"
  shows "heap_ext s s'"
  using assms by (simp add: heap_ext_def)

text \<open>What the end of the Wg\<rightarrow>Proxy worker changes.\<close>

lemma relayWgToProxy_exit_Inr:
  assumes r: "relayWgToProxy_exit i s = Inr s'" and i: "i < length (heap s)"
  shows "length (heap s') = length (heap s)"
    and "\<And>j. j \<noteq> i \<Longrightarrow> heap s' ! j = heap s ! j"
    and "table s' = (table s)(clientAddrPort (heap s ! i) := None)"
    and "maxProxyPacketSizev4 s' = maxProxyPacketSizev4 s"
    and "maxProxyPacketSizev6 s' = maxProxyPacketSizev6 s"
    and "wgConn (natEntry (heap s' ! i)) = wgConn (natEntry (heap s ! i))"
    and "chbuf (wgConnSendCh (natEntry (heap s' ! i))) = chbuf (wgConnSendCh (natEntry (heap s ! i)))"
    and "chclosed (wgConnSendCh (natEntry (heap s' ! i)))"
    and "maxProxyPacketSize (natEntry (heap s' ! i)) = maxProxyPacketSize (natEntry (heap s ! i))"
    and "sendLog (heap s' ! i) = sendLog (heap s ! i)"
    and "p2wTrace (heap s' ! i) = p2wTrace (heap s ! i)"
    and "relayProxyToWg (heap s' ! i) = relayProxyToWg (heap s ! i)"
    and "relayWgToProxy (heap s' ! i) = Exited"
    and "clientAddrPort (heap s' ! i) = clientAddrPort (heap s ! i)"
    and "\<not> chclosed (wgConnSendCh (natEntry (heap s ! i)))"
proof -
  let ?s1 = "logw InfoLevel ''Finished relay wgConn -> proxyConn'' s"
  let ?s2 = "(upd_session i
                   (\<lambda>se. se\<lparr>natEntry := (natEntry se)
                              \<lparr>wgConnSendCh := (wgConnSendCh (natEntry se))\<lparr>chclosed := True\<rparr>\<rparr>,
                             relayWgToProxy := Exited\<rparr>) ?s1)
                 \<lparr>table := (table ?s1)(clientAddrPort (heap ?s1 ! i) := None)\<rparr>"
  have nc: "\<not> chclosed (wgConnSendCh (natEntry (heap s ! i)))"
    using r by (auto simp: relayWgToProxy_exit_def Let_def split: if_splits)
  have w: "wg_Done ?s2 = Inr s'"
    using r nc by (simp add: relayWgToProxy_exit_def Let_def)
  note d = wg_Done_Inr [OF w]
  show "length (heap s') = length (heap s)"
    and "\<And>j. j \<noteq> i \<Longrightarrow> heap s' ! j = heap s ! j"
    and "table s' = (table s)(clientAddrPort (heap s ! i) := None)"
    and "maxProxyPacketSizev4 s' = maxProxyPacketSizev4 s"
    and "maxProxyPacketSizev6 s' = maxProxyPacketSizev6 s"
    and "wgConn (natEntry (heap s' ! i)) = wgConn (natEntry (heap s ! i))"
    and "chbuf (wgConnSendCh (natEntry (heap s' ! i))) = chbuf (wgConnSendCh (natEntry (heap s ! i)))"
    and "chclosed (wgConnSendCh (natEntry (heap s' ! i)))"
    and "maxProxyPacketSize (natEntry (heap s' ! i)) = maxProxyPacketSize (natEntry (heap s ! i))"
    and "sendLog (heap s' ! i) = sendLog (heap s ! i)"
    and "p2wTrace (heap s' ! i) = p2wTrace (heap s ! i)"
    and "relayProxyToWg (heap s' ! i) = relayProxyToWg (heap s ! i)"
    and "relayWgToProxy (heap s' ! i) = Exited"
    and "clientAddrPort (heap s' ! i) = clientAddrPort (heap s ! i)"
    and "\<not> chclosed (wgConnSendCh (natEntry (heap s ! i)))"
    using i nc by (simp_all add: d upd_session_def)
qed

lemma relayWgToProxy_exit_inv:
  assumes r: "relayWgToProxy_exit i s = Inr s'" and i: "i < length (heap s)"
    and run: "relayWgToProxy (heap s ! i) = Running" and inv: "server_inv s"
  shows "server_inv s'"
proof -
  note x = relayWgToProxy_exit_Inr [OF r i]
  have si: "session_inv (heap s ! i)" using inv i by (rule server_invD_session)
  have ti: "table s (clientAddrPort (heap s ! i)) = Some i"
    using inv i run by (simp add: server_inv_def)
  have T: "p < length (heap s) \<and> clientAddrPort (heap s ! p) = k
             \<and> relayWgToProxy (heap s ! p) \<noteq> Exited" if "table s k = Some p" for k p
    using that inv by (simp add: server_inv_def)
  have W: "table s (clientAddrPort (heap s ! j)) = Some j"
    if "j < length (heap s)" and "relayWgToProxy (heap s ! j) = Running" for j
    using that inv by (simp add: server_inv_def)
  have a: "session_inv (heap s' ! j)" if j: "j < length (heap s')" for j
  proof (cases "j = i")
    case True
    have "session_inv (heap s' ! i)"
      using si run x(6,7,8,10,11,12,13) by (auto simp: session_inv_def)
    then show ?thesis using True by simp
  next
    case False
    then show ?thesis using j inv x(1) x(2) [of j] by (simp add: server_inv_def)
  qed
  have b: "p < length (heap s') \<and> clientAddrPort (heap s' ! p) = k
             \<and> relayWgToProxy (heap s' ! p) \<noteq> Exited" if t: "table s' k = Some p" for k p
  proof -
    have k: "k \<noteq> clientAddrPort (heap s ! i)" and tk: "table s k = Some p"
      using t x(3) by (auto split: if_splits)
    have p: "p < length (heap s) \<and> clientAddrPort (heap s ! p) = k
             \<and> relayWgToProxy (heap s ! p) \<noteq> Exited"
      using T [OF tk] .
    then have "p \<noteq> i" using k by auto
    then show ?thesis using p x(1) x(2) [of p] by simp
  qed
  have c: "table s' (clientAddrPort (heap s' ! j)) = Some j"
    if j: "j < length (heap s')" and rj: "relayWgToProxy (heap s' ! j) = Running" for j
  proof -
    have ji: "j \<noteq> i" using rj x(13) by auto
    then have e: "heap s' ! j = heap s ! j" by (rule x(2))
    have tj: "table s (clientAddrPort (heap s ! j)) = Some j"
      using W [of j] j rj e x(1) by simp
    have "clientAddrPort (heap s ! j) \<noteq> clientAddrPort (heap s ! i)"
      using tj ti ji by auto
    then show ?thesis using tj e x(3) by simp
  qed
  show ?thesis
    unfolding server_inv_def using a b c by blast
qed

lemma relayWgToProxy_iter_inv:
  assumes r: "relayWgToProxy_iter d rr oserr i s = Inr s'" and inv: "server_inv s"
  shows "server_inv s'"
proof (cases "rr = RecvErr ErrDeadlineExceeded")
  case False
  note x = relayWgToProxy_iter_Inr [OF r False]
  show ?thesis using inv x(1) x(2) x(5) by (rule server_inv_same)
next
  case True
  show ?thesis
  proof (cases "i < length (heap s) \<and> relayWgToProxy (heap s ! i) = Running")
    case False
    then show ?thesis using r inv by (auto simp: relayWgToProxy_iter_def)
  next
    case t: True
    then have "relayWgToProxy_exit i s = Inr s'"
      using r True by (simp add: relayWgToProxy_iter_def)
    then show ?thesis using t inv by (auto intro: relayWgToProxy_exit_inv)
  qed
qed

lemma relayWgToProxy_iter_ext:
  assumes r: "relayWgToProxy_iter d rr oserr i s = Inr s'"
  shows "heap_ext s s'"
proof (cases "rr = RecvErr ErrDeadlineExceeded")
  case False
  note x = relayWgToProxy_iter_Inr [OF r False]
  show ?thesis using x(1) x(3) x(4) x(5) by (rule heap_ext_same_fields)
next
  case True
  show ?thesis
  proof (cases "i < length (heap s) \<and> relayWgToProxy (heap s ! i) = Running")
    case False
    then show ?thesis using r by (auto simp: relayWgToProxy_iter_def heap_ext_refl)
  next
    case t: True
    then have e: "relayWgToProxy_exit i s = Inr s'"
      using r True by (simp add: relayWgToProxy_iter_def)
    from t have i: "i < length (heap s)" by simp
    note x = relayWgToProxy_exit_Inr [OF e i]
    show ?thesis
    proof (rule heap_ext_same)
      fix j assume "j < length (heap s)"
      then show "maxProxyPacketSize (natEntry (heap s' ! j)) = maxProxyPacketSize (natEntry (heap s ! j))
           \<and> clientAddrPort (heap s' ! j) = clientAddrPort (heap s ! j)"
        using x(2) [of j] x(9) x(14) by (cases "j = i") auto
    qed (use x in auto)
  qed
qed

lemma putPacketBuf_Inr:
  assumes "putPacketBuf b s = Inr s'"
  shows "heap s' = heap s" and "table s' = table s"
    and "maxProxyPacketSizev4 s' = maxProxyPacketSizev4 s"
    and "maxProxyPacketSizev6 s' = maxProxyPacketSizev6 s"
  using assms by (auto simp: putPacketBuf_def split: if_splits)

lemma putPacketBuf_inv_ext:
  assumes "putPacketBuf b s = Inr s'"
  shows "server_inv s \<Longrightarrow> server_inv s'" and "heap_ext s s'"
  using putPacketBuf_Inr [OF assms] by (auto intro: server_inv_frame heap_ext_frame)

lemma logw_inv_ext:
  shows "server_inv s \<Longrightarrow> server_inv (logw lv m s)" and "heap_ext s (logw lv m s)"
  by (auto intro: server_inv_frame heap_ext_frame)

text \<open>A new session: either nothing is allocated, or one entry is, under the client's key.\<close>

lemma newSession_None:
  assumes r: "newSession now listenErr k s = Inr (None, s')"
  shows "heap s' = heap s" and "table s' = table s"
    and "maxProxyPacketSizev4 s' = maxProxyPacketSizev4 s"
    and "maxProxyPacketSizev6 s' = maxProxyPacketSizev6 s"
  using r
  by (auto simp: newSession_def SetReadDeadline_def ListenUDP_def make_chan_def Let_def
      split: option.splits if_splits sum.splits)

lemma newSession_Some:
  assumes r: "newSession now listenErr k s = Inr (Some p, s')"
  shows "p = length (heap s)" and "length (heap s') = Suc (length (heap s))"
    and "\<And>j. j < length (heap s) \<Longrightarrow> heap s' ! j = heap s ! j"
    and "table s' = (table s)(k \<mapsto> p)"
    and "maxProxyPacketSizev4 s' = maxProxyPacketSizev4 s"
    and "maxProxyPacketSizev6 s' = maxProxyPacketSizev6 s"
    and "clientAddrPort (heap s' ! p) = k"
    and "maxProxyPacketSize (natEntry (heap s' ! p)) =
               (if Is4 (Addr k) \<or> Is4In6 (Addr k)
                then maxProxyPacketSizev4 s else maxProxyPacketSizev6 s)"
    and "relayWgToProxy (heap s' ! p) = NotStarted"
    and "relayProxyToWg (heap s' ! p) = NotStarted"
    and "p2wTrace (heap s' ! p) = []" and "sendLog (heap s' ! p) = []"
    and "chbuf (wgConnSendCh (natEntry (heap s' ! p))) = []"
    and "\<not> chclosed (wgConnSendCh (natEntry (heap s' ! p)))"
    and "\<not> closed (wgConn (natEntry (heap s' ! p)))"
    and "listenErr = None"
  using r
  by (auto simp: newSession_def SetReadDeadline_def ListenUDP_def make_chan_def Let_def
      nth_append split: option.splits if_splits sum.splits)

lemma newSession_ext:
  assumes r: "newSession now listenErr k s = Inr (po, s')"
  shows "heap_ext s s'"
proof (cases po)
  case None
  then show ?thesis using newSession_None [of now listenErr k s s'] r
    by (auto intro: heap_ext_frame)
next
  case (Some p)
  note x = newSession_Some [OF r [unfolded Some]]
  have n: "\<forall>i. length (heap s) \<le> i \<and> i < length (heap s') \<longrightarrow>
            maxProxyPacketSize (natEntry (heap s' ! i)) =
              (if Is4 (Addr (clientAddrPort (heap s' ! i)))
                  \<or> Is4In6 (Addr (clientAddrPort (heap s' ! i)))
               then maxProxyPacketSizev4 s else maxProxyPacketSizev6 s)"
  proof (intro allI impI)
    fix i assume "length (heap s) \<le> i \<and> i < length (heap s')"
    then have "i = p" using x(1,2) by simp
    then show "maxProxyPacketSize (natEntry (heap s' ! i)) =
              (if Is4 (Addr (clientAddrPort (heap s' ! i)))
                  \<or> Is4In6 (Addr (clientAddrPort (heap s' ! i)))
               then maxProxyPacketSizev4 s else maxProxyPacketSizev6 s)"
      using x(7,8) by simp
  qed
  show ?thesis
    unfolding heap_ext_def using n x(2,3,5,6) by simp
qed

lemma newSession_inv:
  assumes r: "newSession now listenErr k s = Inr (po, s')" and inv: "server_inv s"
    and nk: "table s k = None"
  shows "server_inv s'"
proof (cases po)
  case None
  then show ?thesis using newSession_None [of now listenErr k s s'] r inv
    by (auto intro: server_inv_frame)
next
  case (Some p)
  note x = newSession_Some [OF r [unfolded Some]]
  have T: "q < length (heap s) \<and> clientAddrPort (heap s ! q) = k'
             \<and> relayWgToProxy (heap s ! q) \<noteq> Exited" if "table s k' = Some q" for k' q
    using that inv by (simp add: server_inv_def)
  have W: "table s (clientAddrPort (heap s ! j)) = Some j"
    if "j < length (heap s)" and "relayWgToProxy (heap s ! j) = Running" for j
    using that inv by (simp add: server_inv_def)
  have a: "session_inv (heap s' ! j)" if j: "j < length (heap s')" for j
  proof (cases "j = p")
    case True
    have "session_inv (heap s' ! p)" using x by (auto simp: session_inv_def)
    then show ?thesis using True by simp
  next
    case False
    then have "j < length (heap s)" using j x by simp
    then show ?thesis using inv x by (simp add: server_inv_def)
  qed
  have b: "q < length (heap s') \<and> clientAddrPort (heap s' ! q) = k'
             \<and> relayWgToProxy (heap s' ! q) \<noteq> Exited" if t: "table s' k' = Some q" for k' q
  proof (cases "k' = k")
    case True
    then show ?thesis using t x by simp
  next
    case False
    then have "table s k' = Some q" using t x by simp
    from T [OF this] show ?thesis using x by simp
  qed
  have c: "table s' (clientAddrPort (heap s' ! j)) = Some j"
    if j: "j < length (heap s')" and rj: "relayWgToProxy (heap s' ! j) = Running" for j
  proof -
    have jp: "j \<noteq> p" using rj x by auto
    then have jl: "j < length (heap s)" using j x by simp
    then have e: "heap s' ! j = heap s ! j" using x by simp
    have tj: "table s (clientAddrPort (heap s ! j)) = Some j"
      using W [OF jl] rj e by simp
    then have "clientAddrPort (heap s ! j) \<noteq> k" using nk by auto
    then show ?thesis using tj e x by simp
  qed
  show ?thesis
    unfolding server_inv_def using a b c by blast
qed

text \<open>Starting the workers of the entry just allocated.\<close>

lemma startWorkers_Inr:
  assumes r: "startWorkers p cpp s = Inr s'" and p: "p < length (heap s)"
  shows "length (heap s') = length (heap s)"
    and "\<And>j. j \<noteq> p \<Longrightarrow> heap s' ! j = heap s ! j"
    and "table s' = table s"
    and "maxProxyPacketSizev4 s' = maxProxyPacketSizev4 s"
    and "maxProxyPacketSizev6 s' = maxProxyPacketSizev6 s"
    and "natEntry (heap s' ! p) = natEntry (heap s ! p)"
    and "sendLog (heap s' ! p) = sendLog (heap s ! p)"
    and "p2wTrace (heap s' ! p) = p2wTrace (heap s ! p)"
    and "relayProxyToWg (heap s' ! p) = Running"
    and "relayWgToProxy (heap s' ! p) = Running"
    and "clientAddrPort (heap s' ! p) = clientAddrPort (heap s ! p)"
    and "wg s' = wg s + 2"
  using r p
  by (auto simp: startWorkers_def relayWgToProxy_start_def Let_def logw_def
      split: sum.splits if_splits)

lemma startWorkers_ext:
  assumes r: "startWorkers p cpp s = Inr s'" and p: "p < length (heap s)"
  shows "heap_ext s s'"
proof (rule heap_ext_same)
  note x = startWorkers_Inr [OF r p]
  fix j assume "j < length (heap s)"
  then show "maxProxyPacketSize (natEntry (heap s' ! j)) = maxProxyPacketSize (natEntry (heap s ! j))
           \<and> clientAddrPort (heap s' ! j) = clientAddrPort (heap s ! j)"
    using x(2) [of j] x(6) x(11) by (cases "j = p") auto
qed (use startWorkers_Inr [OF r p] in auto)

lemma startWorkers_inv:
  assumes r: "startWorkers p cpp s = Inr s'" and p: "p < length (heap s)"
    and inv: "server_inv s"
    and n1: "relayWgToProxy (heap s ! p) = NotStarted"
    and n2: "relayProxyToWg (heap s ! p) = NotStarted"
    and tp: "table s (clientAddrPort (heap s ! p)) = Some p"
  shows "server_inv s'"
proof -
  note x = startWorkers_Inr [OF r p]
  have si: "session_inv (heap s ! p)" using inv p by (rule server_invD_session)
  have T: "q < length (heap s) \<and> clientAddrPort (heap s ! q) = k'
             \<and> relayWgToProxy (heap s ! q) \<noteq> Exited" if "table s k' = Some q" for k' q
    using that inv by (simp add: server_inv_def)
  have W: "table s (clientAddrPort (heap s ! j)) = Some j"
    if "j < length (heap s)" and "relayWgToProxy (heap s ! j) = Running" for j
    using that inv by (simp add: server_inv_def)
  have a: "session_inv (heap s' ! j)" if j: "j < length (heap s')" for j
  proof (cases "j = p")
    case True
    have "session_inv (heap s' ! p)"
      using si n1 n2 x(6,7,8,9,10) by (auto simp: session_inv_def)
    then show ?thesis using True by simp
  next
    case False
    then show ?thesis using j inv x(1) x(2) [of j] by (simp add: server_inv_def)
  qed
  have b: "q < length (heap s') \<and> clientAddrPort (heap s' ! q) = k'
             \<and> relayWgToProxy (heap s' ! q) \<noteq> Exited" if t: "table s' k' = Some q" for k' q
  proof -
    have "table s k' = Some q" using t x(3) by simp
    from T [OF this] show ?thesis
      using x(1) x(2) [of q] x(10) x(11) by (cases "q = p") auto
  qed
  have c: "table s' (clientAddrPort (heap s' ! j)) = Some j"
    if j: "j < length (heap s')" and rj: "relayWgToProxy (heap s' ! j) = Running" for j
  proof (cases "j = p")
    case True
    then show ?thesis using tp x(3) x(11) by simp
  next
    case False
    then have e: "heap s' ! j = heap s ! j" by (rule x(2))
    then show ?thesis using W [of j] j rj x(1) x(3) by simp
  qed
  show ?thesis
    unfolding server_inv_def using a b c by blast
qed

text \<open>The send of the \<^verbatim>\<open>select\<close>, or its \<^verbatim>\<open>default\<close> branch.\<close>

lemma trySend_inv:
  assumes r: "trySend p recvReady qp s = Inr s'" and p: "p < length (heap s)"
    and inv: "server_inv s"
  shows "server_inv s'"
proof -
  have nc: "\<not> chclosed (wgConnSendCh (natEntry (heap s ! p)))"
    using r by (auto simp: trySend_def split: if_splits)
  show ?thesis
  proof (cases "chan_can_send (heap s ! p) recvReady")
    case False
    then have "putPacketBuf (buf qp)
             (logw DebugLevel ''wgPacket dropped due to full send channel'' s) = Inr s'"
      using r nc by (simp add: trySend_def)
    then show ?thesis using inv by (auto intro: putPacketBuf_inv_ext logw_inv_ext)
  next
    case True
    let ?f = "\<lambda>se. se\<lparr>natEntry := (natEntry se)
                            \<lparr>wgConnSendCh := (wgConnSendCh (natEntry se))
                               \<lparr>chbuf := chbuf (wgConnSendCh (natEntry se)) @ [qp]\<rparr>\<rparr>,
                           sendLog := sendLog se @ [qp]\<rparr>"
    have s': "s' = upd_session p ?f s"
      using r nc True by (simp add: trySend_def)
    have si: "session_inv (heap s ! p)" using inv p by (rule server_invD_session)
    have h: "heap s' ! p = ?f (heap s ! p)" using p by (simp add: s' upd_session_def)
    have "session_inv (heap s' ! p)"
      unfolding h using si nc by (auto simp: session_inv_def)
    moreover have "length (heap s') = length (heap s)" by (simp add: s')
    moreover have "\<And>j. j \<noteq> p \<Longrightarrow> heap s' ! j = heap s ! j"
      by (simp add: s' upd_session_def)
    moreover have "clientAddrPort (heap s' ! p) = clientAddrPort (heap s ! p)"
      by (simp add: h)
    moreover have "relayWgToProxy (heap s' ! p) = relayWgToProxy (heap s ! p)"
      by (simp add: h)
    moreover have "table s' = table s" by (simp add: s')
    ultimately show ?thesis
      using inv p server_inv_upd [of s p s'] by blast
  qed
qed

lemma trySend_ext:
  assumes r: "trySend p recvReady qp s = Inr s'"
  shows "heap_ext s s'"
proof -
  have nc: "\<not> chclosed (wgConnSendCh (natEntry (heap s ! p)))"
    using r by (auto simp: trySend_def split: if_splits)
  show ?thesis
  proof (cases "chan_can_send (heap s ! p) recvReady")
    case False
    then have "putPacketBuf (buf qp)
             (logw DebugLevel ''wgPacket dropped due to full send channel'' s) = Inr s'"
      using r nc by (simp add: trySend_def)
    then have "heap_ext (logw DebugLevel ''wgPacket dropped due to full send channel'' s) s'"
      by (rule putPacketBuf_inv_ext)
    then show ?thesis using logw_inv_ext(2) heap_ext_trans by blast
  next
    case True
    then have s': "s' = upd_session p (\<lambda>se. se\<lparr>natEntry := (natEntry se)
                            \<lparr>wgConnSendCh := (wgConnSendCh (natEntry se))
                               \<lparr>chbuf := chbuf (wgConnSendCh (natEntry se)) @ [qp]\<rparr>\<rparr>,
                           sendLog := sendLog se @ [qp]\<rparr>) s"
      using r nc by (simp add: trySend_def)
    show ?thesis
    proof (rule heap_ext_same)
      fix j assume "j < length (heap s)"
      then show "maxProxyPacketSize (natEntry (heap s' ! j)) = maxProxyPacketSize (natEntry (heap s ! j))
           \<and> clientAddrPort (heap s' ! j) = clientAddrPort (heap s ! j)"
        by (cases "j = p") (auto simp: s' upd_session_def)
    qed (simp_all add: s')
  qed
qed

text \<open>The refresh of the pktinfo cache of an entry.\<close>

lemma pktinfo_upd_inv_ext:
  fixes s p cmsg
  defines "s' \<equiv> upd_session p
                    (\<lambda>se. se\<lparr>natEntry := (natEntry se)
                               \<lparr>clientPktinfo := Some cmsg, clientPktinfoCache := cmsg\<rparr>\<rparr>) s"
  assumes p: "p < length (heap s)"
  shows "server_inv s \<Longrightarrow> server_inv s'" and "heap_ext s s'"
    and "length (heap s') = length (heap s)" and "table s' = table s"
    and "relayWgToProxy (heap s' ! p) = relayWgToProxy (heap s ! p)"
    and "relayProxyToWg (heap s' ! p) = relayProxyToWg (heap s ! p)"
    and "clientAddrPort (heap s' ! p) = clientAddrPort (heap s ! p)"
proof -
  have h: "heap s' ! p = (heap s ! p)\<lparr>natEntry := (natEntry (heap s ! p))
                               \<lparr>clientPktinfo := Some cmsg, clientPktinfoCache := cmsg\<rparr>\<rparr>"
    using p by (simp add: s'_def upd_session_def)
  have o: "\<And>j. j \<noteq> p \<Longrightarrow> heap s' ! j = heap s ! j"
    by (simp add: s'_def upd_session_def)
  have l: "length (heap s') = length (heap s)" by (simp add: s'_def)
  have t: "table s' = table s" by (simp add: s'_def)
  show "server_inv s'" if inv: "server_inv s"
  proof -
    have "session_inv (heap s ! p)" using inv p by (rule server_invD_session)
    then have "session_inv (heap s' ! p)" by (auto simp: h session_inv_def)
    moreover have "clientAddrPort (heap s' ! p) = clientAddrPort (heap s ! p)"
      by (simp add: h)
    moreover have "relayWgToProxy (heap s' ! p) = relayWgToProxy (heap s ! p)"
      by (simp add: h)
    ultimately show ?thesis
      using inv p l o t server_inv_upd [of s p s'] by blast
  qed
  show "heap_ext s s'"
  proof (rule heap_ext_same)
    fix j assume "j < length (heap s)"
    then show "maxProxyPacketSize (natEntry (heap s' ! j)) = maxProxyPacketSize (natEntry (heap s ! j))
           \<and> clientAddrPort (heap s' ! j) = clientAddrPort (heap s ! j)"
      using o [of j] by (cases "j = p") (auto simp: h)
  qed (simp_all add: s'_def)
  show "length (heap s') = length (heap s)" by (rule l)
  show "table s' = table s" by (rule t)
  show "relayWgToProxy (heap s' ! p) = relayWgToProxy (heap s ! p)"
    and "relayProxyToWg (heap s' ! p) = relayProxyToWg (heap s ! p)"
    and "clientAddrPort (heap s' ! p) = clientAddrPort (heap s ! p)"
    by (simp_all add: h)
qed

text \<open>The critical section of the ingress loop.\<close>

lemma recvFromProxyConn_session_inv_ext:
  assumes r: "recvFromProxyConn_session d ok p recvReady cmsg qp s1 = Inr s'"
    and p: "p < length (heap s1)"
  shows "server_inv s1 \<Longrightarrow>
           (\<not> ok \<Longrightarrow> relayWgToProxy (heap s1 ! p) = NotStarted
                      \<and> relayProxyToWg (heap s1 ! p) = NotStarted
                      \<and> table s1 (clientAddrPort (heap s1 ! p)) = Some p)
           \<Longrightarrow> server_inv s'"
    and "heap_ext s1 s'"
proof -
  let ?upd = "upd_session p
                (\<lambda>se. se\<lparr>natEntry := (natEntry se)
                           \<lparr>clientPktinfo := Some cmsg, clientPktinfoCache := cmsg\<rparr>\<rparr>) s1"
  let ?s2 = "logw DebugLevel ''Updated client pktinfo'' ?upd"
  note u = pktinfo_upd_inv_ext [OF p, of cmsg]
  consider
    (fail) e where "clientPktinfoCache (natEntry (heap s1 ! p)) \<noteq> cmsg"
      and "ParsePktinfoCmsg d cmsg = Inl e"
  | (new) info where "clientPktinfoCache (natEntry (heap s1 ! p)) \<noteq> cmsg"
      and "ParsePktinfoCmsg d cmsg = Inr info"
  | (same) "clientPktinfoCache (natEntry (heap s1 ! p)) = cmsg"
    by (cases "ParsePktinfoCmsg d cmsg") auto
  then have "(server_inv s1 \<longrightarrow>
           (\<not> ok \<longrightarrow> relayWgToProxy (heap s1 ! p) = NotStarted
                      \<and> relayProxyToWg (heap s1 ! p) = NotStarted
                      \<and> table s1 (clientAddrPort (heap s1 ! p)) = Some p)
           \<longrightarrow> server_inv s') \<and> heap_ext s1 s'"
  proof cases
    case fail
    then have "putPacketBuf (buf qp)
            (logw WarnLevel ''Failed to parse pktinfo control message from proxyConn'' s1) = Inr s'"
      using r by (simp add: recvFromProxyConn_session_def)
    then show ?thesis
      using putPacketBuf_inv_ext logw_inv_ext heap_ext_trans by blast
  next
    case new
    have e: "(case (if \<not> ok then startWorkers p (Some cmsg) ?s2 else Inr ?s2) of
                Inl pn \<Rightarrow> Inl pn
              | Inr s3 \<Rightarrow> trySend p recvReady qp s3) = Inr s'"
      using r new by (simp add: recvFromProxyConn_session_def)
    have p2: "p < length (heap ?s2)" using p by simp
    have x2: "heap_ext s1 ?s2"
      using u(2) logw_inv_ext(2) heap_ext_trans by blast
    have i2: "server_inv ?s2" if "server_inv s1"
      using that u(1) logw_inv_ext(1) by blast
    show ?thesis
    proof (cases ok)
      case True
      then have t: "trySend p recvReady qp ?s2 = Inr s'" using e by simp
      show ?thesis
        using trySend_inv [OF t p2] trySend_ext [OF t] i2 x2 heap_ext_trans by blast
    next
      case False
      then obtain s3 where w: "startWorkers p (Some cmsg) ?s2 = Inr s3"
        and t: "trySend p recvReady qp s3 = Inr s'"
        using e by (auto split: sum.splits)
      have p3: "p < length (heap s3)" using startWorkers_Inr(1) [OF w p2] p by simp
      have x3: "heap_ext s1 s3"
        using x2 startWorkers_ext [OF w p2] heap_ext_trans by blast
      have i3: "server_inv s3"
        if inv: "server_inv s1" and f: "relayWgToProxy (heap s1 ! p) = NotStarted
                      \<and> relayProxyToWg (heap s1 ! p) = NotStarted
                      \<and> table s1 (clientAddrPort (heap s1 ! p)) = Some p"
      proof (rule startWorkers_inv [OF w p2 i2 [OF inv]])
        show "relayWgToProxy (heap ?s2 ! p) = NotStarted" using f u(5) by simp
        show "relayProxyToWg (heap ?s2 ! p) = NotStarted" using f u(6) by simp
        show "table ?s2 (clientAddrPort (heap ?s2 ! p)) = Some p" using f u(4) u(7) by simp
      qed
      show ?thesis
        using trySend_inv [OF t p3] trySend_ext [OF t] i3 x3 heap_ext_trans False by blast
    qed
  next
    case same
    have e: "(case (if \<not> ok then startWorkers p None s1 else Inr s1) of
                Inl pn \<Rightarrow> Inl pn
              | Inr s3 \<Rightarrow> trySend p recvReady qp s3) = Inr s'"
      using r same by (simp add: recvFromProxyConn_session_def)
    show ?thesis
    proof (cases ok)
      case True
      then have t: "trySend p recvReady qp s1 = Inr s'" using e by simp
      show ?thesis
        using trySend_inv [OF t p] trySend_ext [OF t] by blast
    next
      case False
      then obtain s3 where w: "startWorkers p None s1 = Inr s3"
        and t: "trySend p recvReady qp s3 = Inr s'"
        using e by (auto split: sum.splits)
      have p3: "p < length (heap s3)" using startWorkers_Inr(1) [OF w p] p by simp
      have x3: "heap_ext s1 s3" by (rule startWorkers_ext [OF w p])
      have i3: "server_inv s3"
        if inv: "server_inv s1" and f: "relayWgToProxy (heap s1 ! p) = NotStarted
                      \<and> relayProxyToWg (heap s1 ! p) = NotStarted
                      \<and> table s1 (clientAddrPort (heap s1 ! p)) = Some p"
        using startWorkers_inv [OF w p inv] f by blast
      show ?thesis
        using trySend_inv [OF t p3] trySend_ext [OF t] i3 x3 heap_ext_trans False by blast
    qed
  qed
  then show "server_inv s1 \<Longrightarrow>
           (\<not> ok \<Longrightarrow> relayWgToProxy (heap s1 ! p) = NotStarted
                      \<and> relayProxyToWg (heap s1 ! p) = NotStarted
                      \<and> table s1 (clientAddrPort (heap s1 ! p)) = Some p)
           \<Longrightarrow> server_inv s'"
    and "heap_ext s1 s'"
    by blast+
qed

lemma recvFromProxyConn_locked_inv_ext:
  assumes r: "recvFromProxyConn_locked d now listenErr recvReady k cmsg qp s = Inr s'"
  shows "server_inv s \<Longrightarrow> server_inv s'" and "heap_ext s s'"
proof -
  have "(server_inv s \<longrightarrow> server_inv s') \<and> heap_ext s s'"
  proof (cases "table s k")
    case (Some p)
    then have p: "p < length (heap s)"
      and e: "recvFromProxyConn_session d True p recvReady cmsg qp s = Inr s'"
      using r by (auto simp: recvFromProxyConn_locked_def split: if_splits)
    show ?thesis
      using recvFromProxyConn_session_inv_ext [OF e p] by blast
  next
    case None
    then obtain po s1 where n: "newSession now listenErr k s = Inr (po, s1)"
      using r by (auto simp: recvFromProxyConn_locked_def split: sum.splits)
    have x1: "heap_ext s s1" by (rule newSession_ext [OF n])
    have i1: "server_inv s1" if "server_inv s"
      using newSession_inv [OF n that None] .
    show ?thesis
    proof (cases po)
      case po: None
      then have "putPacketBuf (buf qp) s1 = Inr s'"
        using r None n by (simp add: recvFromProxyConn_locked_def)
      then show ?thesis
        using putPacketBuf_inv_ext i1 x1 heap_ext_trans by blast
    next
      case (Some p)
      note y = newSession_Some [OF n [unfolded Some]]
      have e: "recvFromProxyConn_session d False p recvReady cmsg qp s1 = Inr s'"
        using r None n Some by (simp add: recvFromProxyConn_locked_def)
      have p: "p < length (heap s1)" using y(1,2) by simp
      have f: "relayWgToProxy (heap s1 ! p) = NotStarted
                      \<and> relayProxyToWg (heap s1 ! p) = NotStarted
                      \<and> table s1 (clientAddrPort (heap s1 ! p)) = Some p"
        using y(4,7,9,10) by simp
      show ?thesis
        using recvFromProxyConn_session_inv_ext [OF e p] f i1 x1 heap_ext_trans by blast
    qed
  qed
  then show "server_inv s \<Longrightarrow> server_inv s'" and "heap_ext s s'" by blast+
qed

lemma recvFromProxyConn_iter_inv_ext:
  assumes r: "recvFromProxyConn_iter d rr now listenErr recvReady s = Inr s'"
  shows "server_inv s \<Longrightarrow> server_inv s'" and "heap_ext s s'"
proof -
  have "(server_inv s \<longrightarrow> server_inv s') \<and> heap_ext s s'"
  proof (cases "ingress s = Running")
    case False
    then show ?thesis using r by (simp add: recvFromProxyConn_iter_def heap_ext_refl)
  next
    case True
    then obtain b s1 where g: "getPacketBuf s = Inr (b, s1)"
      using r by (auto simp: recvFromProxyConn_iter_def split: sum.splits)
    note gg = getPacketBuf_Inr [OF g]
    have x1: "heap_ext s s1" using gg by (auto intro: heap_ext_frame)
    have i1: "server_inv s1" if "server_inv s" using that gg by (auto intro: server_inv_frame)
    have "(server_inv s1 \<longrightarrow> server_inv s') \<and> heap_ext s1 s'"
    proof (cases rr)
      case (RecvErr err)
      show ?thesis
      proof (cases "err = ErrDeadlineExceeded")
        case True
        then obtain s2 where p: "putPacketBuf b s1 = Inr s2"
          and e: "recvFromProxyConn_exit s2 = Inr s'"
          using r \<open>ingress s = Running\<close> g RecvErr
          by (auto simp: recvFromProxyConn_iter_def split: sum.splits)
        have "heap s' = heap s2 \<and> table s' = table s2
            \<and> maxProxyPacketSizev4 s' = maxProxyPacketSizev4 s2
            \<and> maxProxyPacketSizev6 s' = maxProxyPacketSizev6 s2"
          using e by (auto simp: recvFromProxyConn_exit_def logw_def split: if_splits)
        then have "(server_inv s2 \<longrightarrow> server_inv s') \<and> heap_ext s2 s'"
          by (auto intro: server_inv_frame heap_ext_frame)
        then show ?thesis
          using putPacketBuf_inv_ext [OF p] heap_ext_trans by blast
      next
        case False
        then have "putPacketBuf b (logw WarnLevel ''Failed to read from proxyConn'' s1) = Inr s'"
          using r \<open>ingress s = Running\<close> g RecvErr by (simp add: recvFromProxyConn_iter_def)
        then show ?thesis
          using putPacketBuf_inv_ext logw_inv_ext heap_ext_trans by blast
      qed
    next
      case (Recv data cmsg flags k)
      let ?n = "min (length data) (length b)"
      let ?b1 = "take ?n data @ drop ?n b"
      show ?thesis
      proof (cases "ParseFlagsForError d flags")
        case (Some err)
        then have "putPacketBuf ?b1 (logw WarnLevel ''Failed to read from proxyConn'' s1) = Inr s'"
          using r \<open>ingress s = Running\<close> g Recv
          by (simp add: recvFromProxyConn_iter_def Let_def)
        then show ?thesis
          using putPacketBuf_inv_ext logw_inv_ext heap_ext_trans by blast
      next
        case None
        show ?thesis
        proof (cases "DecryptZeroCopy (handler s1) ?b1 0 (int ?n)")
          case (Inl err)
          then have "putPacketBuf ?b1 (logw WarnLevel ''Failed to decrypt swgpPacket'' s1) = Inr s'"
            using r \<open>ingress s = Running\<close> g Recv None
            by (simp add: recvFromProxyConn_iter_def Let_def)
          then show ?thesis
            using putPacketBuf_inv_ext logw_inv_ext heap_ext_trans by blast
        next
          case (Inr res)
          obtain b2 st len where res: "res = (b2, st, len)" by (cases res) auto
          have "recvFromProxyConn_locked d now listenErr recvReady k cmsg
                  \<lparr>buf = b2, start = st, length' = len\<rparr> s1 = Inr s'"
            using r \<open>ingress s = Running\<close> g Recv None Inr res
            by (simp add: recvFromProxyConn_iter_def Let_def)
          then show ?thesis
            using recvFromProxyConn_locked_inv_ext by blast
        qed
      qed
    qed
    then show ?thesis using x1 i1 heap_ext_trans by blast
  qed
  then show "server_inv s \<Longrightarrow> server_inv s'" and "heap_ext s s'" by blast+
qed

text \<open>\<^verbatim>\<open>Stop\<close> keeps the invariants and extends the state.\<close>

lemma expire_session_inv_ext:
  shows "server_inv s \<Longrightarrow> server_inv (expire_session now s i)"
    and "heap_ext s (expire_session now s i)"
    and "length (heap (expire_session now s i)) = length (heap s)"
proof -
  let ?s' = "expire_session now s i"
  have "(server_inv s \<longrightarrow> server_inv ?s') \<and> heap_ext s ?s'
          \<and> length (heap ?s') = length (heap s)"
  proof (cases "table s (clientAddrPort (heap s ! i)) = Some i
                  \<and> \<not> closed (wgConn (natEntry (heap s ! i)))")
    case False
    then have "heap ?s' = heap s \<and> table ?s' = table s
        \<and> maxProxyPacketSizev4 ?s' = maxProxyPacketSizev4 s
        \<and> maxProxyPacketSizev6 ?s' = maxProxyPacketSizev6 s"
      by (auto simp: expire_session_def SetReadDeadline_def)
    then show ?thesis by (auto intro: server_inv_frame heap_ext_frame)
  next
    case True
    let ?f = "\<lambda>se. se\<lparr>natEntry := (natEntry se)
                 \<lparr>wgConn := (wgConn (natEntry (heap s ! i)))\<lparr>readDeadline := Some now\<rparr>\<rparr>\<rparr>"
    have e: "?s' = upd_session i ?f s"
      using True by (simp add: expire_session_def SetReadDeadline_def)
    show ?thesis
    proof (cases "i < length (heap s)")
      case False
      then have "heap ?s' = heap s \<and> table ?s' = table s
        \<and> maxProxyPacketSizev4 ?s' = maxProxyPacketSizev4 s
        \<and> maxProxyPacketSizev6 ?s' = maxProxyPacketSizev6 s"
        by (simp add: e upd_session_def list_update_beyond not_less)
      then show ?thesis by (auto intro: server_inv_frame heap_ext_frame)
    next
      case i: True
      have h: "heap ?s' ! i = ?f (heap s ! i)" using i by (simp add: e upd_session_def)
      have o: "\<And>j. j \<noteq> i \<Longrightarrow> heap ?s' ! j = heap s ! j" by (simp add: e upd_session_def)
      have l: "length (heap ?s') = length (heap s)" by (simp add: e)
      have t: "table ?s' = table s" by (simp add: e)
      have a: "server_inv ?s'" if inv: "server_inv s"
      proof -
        have "session_inv (heap s ! i)" using inv i by (rule server_invD_session)
        then have "session_inv (heap ?s' ! i)" unfolding h by (auto simp: session_inv_def)
        moreover have "clientAddrPort (heap ?s' ! i) = clientAddrPort (heap s ! i)"
          unfolding h by simp
        moreover have "relayWgToProxy (heap ?s' ! i) = relayWgToProxy (heap s ! i)"
          unfolding h by simp
        ultimately show ?thesis
          using inv i l o t server_inv_upd [of s i ?s'] by blast
      qed
      have b: "heap_ext s ?s'"
      proof (rule heap_ext_same)
        fix j assume "j < length (heap s)"
        then show "maxProxyPacketSize (natEntry (heap ?s' ! j))
                     = maxProxyPacketSize (natEntry (heap s ! j))
           \<and> clientAddrPort (heap ?s' ! j) = clientAddrPort (heap s ! j)"
          using o [of j] by (cases "j = i") (auto simp: h)
      qed (simp_all add: e)
      from a b l show ?thesis by blast
    qed
  qed
  then show "server_inv s \<Longrightarrow> server_inv ?s'" and "heap_ext s ?s'"
    and "length (heap ?s') = length (heap s)" by blast+
qed

lemma expire_fold_inv_ext:
  shows "server_inv s \<Longrightarrow> server_inv (foldl (expire_session now) s is)"
    and "heap_ext s (foldl (expire_session now) s is)"
proof -
  have "(server_inv s \<longrightarrow> server_inv (foldl (expire_session now) s is))
          \<and> heap_ext s (foldl (expire_session now) s is)"
  proof (induction "is" arbitrary: s)
    case Nil
    then show ?case by (simp add: heap_ext_refl)
  next
    case (Cons i "is")
    show ?case
      unfolding foldl_Cons
      using Cons.IH [of "expire_session now s i"] expire_session_inv_ext(1,2) [of s now i]
        heap_ext_trans by blast
  qed
  then show "server_inv s \<Longrightarrow> server_inv (foldl (expire_session now) s is)"
    and "heap_ext s (foldl (expire_session now) s is)" by blast+
qed

lemma drain_inv_ext:
  assumes "drain n now i s = Inr s'"
  shows "server_inv s \<Longrightarrow> server_inv s'" and "heap_ext s s'"
proof -
  have "(server_inv s \<longrightarrow> server_inv s') \<and> heap_ext s s'"
    using assms
  proof (induction n arbitrary: s)
    case 0
    then show ?case by (simp add: heap_ext_refl)
  next
    case (Suc n)
    then obtain s1 where s1: "relayProxyToWg_step now None i s = Inr s1"
      and r: "drain n now i s1 = Inr s'"
      by (auto split: sum.splits)
    show ?case
      using relayProxyToWg_step_inv [OF s1] relayProxyToWg_step_ext [OF s1] Suc.IH [OF r]
        heap_ext_trans by blast
  qed
  then show "server_inv s \<Longrightarrow> server_inv s'" and "heap_ext s s'" by blast+
qed

lemma wg_Wait_inv_ext:
  assumes "wg_Wait d now is s = Inr s'"
  shows "server_inv s \<Longrightarrow> server_inv s'" and "heap_ext s s'"
proof -
  have "(server_inv s \<longrightarrow> server_inv s') \<and> heap_ext s s'"
    using assms
  proof (induction "is" arbitrary: s)
    case Nil
    then show ?case by (simp add: heap_ext_refl)
  next
    case (Cons i "is")
    then obtain s1 where f: "finish_session d now i s = Inr s1"
      and r: "wg_Wait d now is s1 = Inr s'"
      by (auto split: sum.splits)
    from f obtain s0 where w: "relayWgToProxy_iter d (RecvErr ErrDeadlineExceeded) None i s = Inr s0"
      and dr: "drain (Suc (length (chbuf (wgConnSendCh (natEntry (heap s0 ! i)))))) now i s0 = Inr s1"
      by (auto simp: finish_session_def split: sum.splits)
    have "(server_inv s \<longrightarrow> server_inv s1) \<and> heap_ext s s1"
      using relayWgToProxy_iter_inv [OF w] relayWgToProxy_iter_ext [OF w] drain_inv_ext [OF dr]
        heap_ext_trans by blast
    then show ?case
      using Cons.IH [OF r] heap_ext_trans by blast
  qed
  then show "server_inv s \<Longrightarrow> server_inv s'" and "heap_ext s s'" by blast+
qed

lemma Stop_inv_ext:
  assumes "Stop d now s = Inr (r, s')"
  shows "server_inv s \<Longrightarrow> server_inv s'" and "heap_ext s s'"
proof -
  have "(server_inv s \<longrightarrow> server_inv s') \<and> heap_ext s s'"
  proof (cases "proxyConn s")
    case None
    then have "s' = s" using assms by (simp add: Stop_def)
    then show ?thesis by (simp add: heap_ext_refl)
  next
    case (Some pc)
    show ?thesis
    proof (cases "closed pc")
      case True
      then have "s' = s" using assms Some by (simp add: Stop_def SetReadDeadline_def)
      then show ?thesis by (simp add: heap_ext_refl)
    next
      case False
      let ?s0 = "s\<lparr>proxyConn := Some (pc\<lparr>readDeadline := Some now\<rparr>)\<rparr>"
      from False obtain s1 s2 pc2 cerr pc3
        where m: "mwg_Wait d now ?s0 = Inr s1"
          and w: "wg_Wait d now [0 ..< length (heap s1)] (expire_all now s1) = Inr s2"
          and s': "s' = s2\<lparr>proxyConn := Some pc3\<rparr>"
        using assms Some
        by (auto simp: Stop_def SetReadDeadline_def split: sum.splits option.splits prod.splits)
      have a0: "(server_inv s \<longrightarrow> server_inv ?s0) \<and> heap_ext s ?s0"
        by (auto intro: server_inv_frame heap_ext_frame)
      have a1: "(server_inv ?s0 \<longrightarrow> server_inv s1) \<and> heap_ext ?s0 s1"
        using m recvFromProxyConn_iter_inv_ext unfolding mwg_Wait_def by blast
      have a2: "(server_inv s1 \<longrightarrow> server_inv (expire_all now s1))
                  \<and> heap_ext s1 (expire_all now s1)"
        unfolding expire_all_def using expire_fold_inv_ext by blast
      have a3: "(server_inv (expire_all now s1) \<longrightarrow> server_inv s2)
                  \<and> heap_ext (expire_all now s1) s2"
        using wg_Wait_inv_ext [OF w] by blast
      have a4: "(server_inv s2 \<longrightarrow> server_inv s') \<and> heap_ext s2 s'"
        unfolding s' by (auto intro: server_inv_frame heap_ext_frame)
      show ?thesis
        using a0 a1 a2 a3 a4 heap_ext_trans by blast
    qed
  qed
  then show "server_inv s \<Longrightarrow> server_inv s'" and "heap_ext s s'" by blast+
qed

text \<open>Every step, and so every run, keeps the invariants and extends the state.\<close>

lemma step_inv_ext:
  assumes "step d e s = Inr s'"
  shows "server_inv s \<Longrightarrow> server_inv s'" and "heap_ext s s'"
proof -
  have "(server_inv s \<longrightarrow> server_inv s') \<and> heap_ext s s'"
  proof (cases e)
    case (IngressRecv r now listenErr recvReady)
    then show ?thesis using assms recvFromProxyConn_iter_inv_ext by auto
  next
    case (ProxyToWg i now oserr)
    then show ?thesis
      using assms relayProxyToWg_step_inv relayProxyToWg_step_ext by auto
  next
    case (WgToProxy i r oserr)
    then show ?thesis
      using assms relayWgToProxy_iter_inv relayWgToProxy_iter_ext by auto
  next
    case (StopCall now)
    then obtain r where "Stop d now s = Inr (r, s')"
      using assms by (auto split: sum.splits)
    then show ?thesis using Stop_inv_ext by blast
  qed
  then show "server_inv s \<Longrightarrow> server_inv s'" and "heap_ext s s'" by blast+
qed

lemma exec_inv_ext:
  assumes "exec d evs s = Inr s'"
  shows "server_inv s \<Longrightarrow> server_inv s'" and "heap_ext s s'"
proof -
  have "(server_inv s \<longrightarrow> server_inv s') \<and> heap_ext s s'"
    using assms
  proof (induction evs arbitrary: s)
    case Nil
    then show ?case by (simp add: heap_ext_refl)
  next
    case (Cons e evs)
    then obtain s1 where s1: "step d e s = Inr s1" and r: "exec d evs s1 = Inr s'"
      by (auto split: sum.splits)
    show ?case
      using step_inv_ext [OF s1] Cons.IH [OF r] heap_ext_trans by blast
  qed
  then show "server_inv s \<Longrightarrow> server_inv s'" and "heap_ext s s'" by blast+
qed

text \<open>
  In every state a started server reaches, the upstream socket of a Proxy\<rightarrow>Wg worker
  that is running is open.
\<close>

lemma running_worker_socket_open:
  assumes "heap s = []" and "table s = Map.empty" and "exec d evs s = Inr s'"
    and "i < length (heap s')" and "relayProxyToWg (heap s' ! i) = Running"
  shows "\<not> closed (wgConn (natEntry (heap s' ! i)))"
proof -
  have "server_inv s" using assms(1,2) by (simp add: server_inv_def)
  then have "server_inv s'" using assms(3) by (rule exec_inv_ext(1) [rotated])
  then have "session_inv (heap s' ! i)" using assms(4) by (rule server_invD_session)
  then show ?thesis using assms(5) by (simp add: session_inv_def)
qed

lemma server_inv_empty:
  assumes "heap s = []" and "table s = Map.empty"
  shows "server_inv s"
  using assms by (simp add: server_inv_def)

text \<open>A well-formed queued packet is handled without a panic.\<close>

lemma relayProxyToWg_packet_total:
  assumes "0 \<le> start qp" and "start qp + length' qp \<le> int (length (buf qp))"
    and "1 \<le> length' qp"
  shows "\<exists>s'. relayProxyToWg_packet now oserr qp i s = Inr s'"
proof -
  have sl: "slice (buf qp) (start qp) (start qp + length' qp)
      = Inr (take (nat (length' qp)) (drop (nat (start qp)) (buf qp)))"
    using assms by (simp add: slice_def)
  have ne: "buf qp \<noteq> []" using assms by auto
  have ix: "index (take (nat (length' qp)) (drop (nat (start qp)) (buf qp))) 0
      = Inr (buf qp ! nat (start qp))"
    using assms by (auto simp: index_def)
  show ?thesis
    by (simp add: relayProxyToWg_packet_def sl ix Let_def putPacketBuf_def ne
        split: prod.splits option.splits)
qed

lemma relayProxyToWg_packet_pool:
  assumes r: "relayProxyToWg_packet now oserr qp i s = Inr s'"
  shows "packetBufPool s' = buf qp # packetBufPool s" and "wg s' = wg s"
  using r
  by (auto simp: relayProxyToWg_packet_def Let_def putPacketBuf_def SetReadDeadline_def
      logw_def split: sum.splits if_splits prod.splits option.splits)

text \<open>
  After its channel is closed, a running worker handles the packets left in it, oldest
  first, and then leaves: one turn for each packet and one more.
\<close>

lemma drain_closed:
  assumes "i < length (heap s)" and "relayProxyToWg (heap s ! i) = Running"
    and "chclosed (wgConnSendCh (natEntry (heap s ! i)))"
    and "chbuf (wgConnSendCh (natEntry (heap s ! i))) = q"
    and "\<forall>qp \<in> set q. 0 \<le> start qp \<and> start qp + length' qp \<le> int (length (buf qp))
            \<and> 1 \<le> length' qp"
    and "0 < wg s"
  shows "\<exists>s'. drain (Suc (length q)) now i s = Inr s'
           \<and> relayProxyToWg (heap s' ! i) = Exited
           \<and> chbuf (wgConnSendCh (natEntry (heap s' ! i))) = []
           \<and> closed (wgConn (natEntry (heap s' ! i)))
           \<and> writes_of (p2wTrace (heap s' ! i)) = writes_of (p2wTrace (heap s ! i)) @ map payload q
           \<and> (\<exists>r. p2wTrace (heap s' ! i) = butlast (p2wTrace (heap s' ! i)) @ [EffClose r])
           \<and> no_close (butlast (p2wTrace (heap s' ! i))) = no_close (p2wTrace (heap s ! i))
           \<and> packetBufPool s' = rev (map buf q) @ packetBufPool s"
  using assms
proof (induction q arbitrary: s)
  case Nil
  then have e: "relayProxyToWg_step now None i s = relayProxyToWg_exit i s"
    by (simp add: relayProxyToWg_step_def)
  have "\<exists>s'. relayProxyToWg_exit i s = Inr s' \<and> packetBufPool s' = packetBufPool s"
    using Nil(6)
    by (cases "Close (wgConn (natEntry (heap s ! i)))")
      (simp add: relayProxyToWg_exit_def wg_Done_def Let_def logw_def upd_session_def)
  then obtain s' where x: "relayProxyToWg_exit i s = Inr s'"
    and pool: "packetBufPool s' = packetBufPool s"
    by blast
  note y = relayProxyToWg_exit_Inr [OF x Nil(1)]
  from y(13) obtain r where tr: "p2wTrace (heap s' ! i) = p2wTrace (heap s ! i) @ [EffClose r]"
    by blast
  have "drain (Suc (length ([] :: queuedPacket list))) now i s = Inr s'"
    using e x by simp
  then show ?case
    using y(6,7,10) Nil(4) tr pool by auto
next
  case (Cons qp rest)
  let ?sm = "upd_session i
               (\<lambda>se. se\<lparr>natEntry := (natEntry se)
                          \<lparr>wgConnSendCh := (wgConnSendCh (natEntry se))\<lparr>chbuf := rest\<rparr>\<rparr>\<rparr>) s"
  have wf: "0 \<le> start qp" "start qp + length' qp \<le> int (length (buf qp))" "1 \<le> length' qp"
    using Cons.prems(5) by simp_all
  obtain s1 where p: "relayProxyToWg_packet now None qp i ?sm = Inr s1"
    using relayProxyToWg_packet_total [OF wf] by blast
  have st: "relayProxyToWg_step now None i s = Inr s1"
    using Cons.prems(1,2,4) p by (simp add: relayProxyToWg_step_def)
  have im: "i < length (heap ?sm)" using Cons.prems(1) by simp
  note x = relayProxyToWg_packet_Inr [OF p im]
  note y = relayProxyToWg_packet_pool [OF p]
  have m: "heap ?sm ! i = (heap s ! i)\<lparr>natEntry := (natEntry (heap s ! i))
                \<lparr>wgConnSendCh := (wgConnSendCh (natEntry (heap s ! i)))\<lparr>chbuf := rest\<rparr>\<rparr>\<rparr>"
    using Cons.prems(1) by (simp add: upd_session_def)
  have a1: "i < length (heap s1)" using x(1) Cons.prems(1) by simp
  have a2: "relayProxyToWg (heap s1 ! i) = Running" using x(10) Cons.prems(2) by (simp add: m)
  have a3: "chclosed (wgConnSendCh (natEntry (heap s1 ! i)))"
    using x(7) Cons.prems(3) by (simp add: m)
  have a4: "chbuf (wgConnSendCh (natEntry (heap s1 ! i))) = rest" using x(7) by (simp add: m)
  have a5: "\<forall>qp \<in> set rest. 0 \<le> start qp \<and> start qp + length' qp \<le> int (length (buf qp))
            \<and> 1 \<le> length' qp"
    using Cons.prems(5) by simp
  have a6: "0 < wg s1" using y(2) Cons.prems(6) by simp
  from Cons.IH [OF a1 a2 a3 a4 a5 a6] obtain s'
    where d: "drain (Suc (length rest)) now i s1 = Inr s'"
      and r: "relayProxyToWg (heap s' ! i) = Exited"
        "chbuf (wgConnSendCh (natEntry (heap s' ! i))) = []"
        "closed (wgConn (natEntry (heap s' ! i)))"
        "writes_of (p2wTrace (heap s' ! i)) = writes_of (p2wTrace (heap s1 ! i)) @ map payload rest"
        "\<exists>r. p2wTrace (heap s' ! i) = butlast (p2wTrace (heap s' ! i)) @ [EffClose r]"
        "no_close (butlast (p2wTrace (heap s' ! i))) = no_close (p2wTrace (heap s1 ! i))"
        "packetBufPool s' = rev (map buf rest) @ packetBufPool s1"
    by blast
  have "drain (Suc (length (qp # rest))) now i s = Inr s'"
    using st d by simp
  moreover have "writes_of (p2wTrace (heap s' ! i))
      = writes_of (p2wTrace (heap s ! i)) @ map payload (qp # rest)"
    using r(4) x(13) by (simp add: m)
  moreover have "no_close (butlast (p2wTrace (heap s' ! i))) = no_close (p2wTrace (heap s ! i))"
    using r(6) x(14) by (simp add: m)
  moreover have "packetBufPool s' = rev (map buf (qp # rest)) @ packetBufPool s"
    using r(7) y(1) by simp
  ultimately show ?case using r(1,2,3,5) by blast
qed

section \<open>Properties of the sessions of a running server\<close>

text \<open>
  C7. The \<open>maxProxyPacketSize\<close> of an entry is chosen when the entry is created, by the
  family of the client's address: in every state a started server reaches, the entry the
  table holds for a client address has the IPv4 size when the address is IPv4 or
  IPv4-mapped IPv6, and the IPv6 size otherwise. It is never written again: whatever
  the goroutines and \<^verbatim>\<open>Stop\<close> do afterwards, every allocated entry keeps its size
  (and the server keeps its two sizes).
\<close>

theorem maxProxyPacketSize_by_family_immutable:
  "(heap s0 = [] \<and> table s0 = Map.empty \<and> exec d evs0 s0 = Inr s1 \<and> table s1 k = Some p
      \<longrightarrow> p < length (heap s1)
          \<and> maxProxyPacketSize (natEntry (heap s1 ! p)) =
              (if Is4 (Addr k) \<or> Is4In6 (Addr k)
               then maxProxyPacketSizev4 s0 else maxProxyPacketSizev6 s0))
   \<and> (exec d evs s = Inr s' \<and> i < length (heap s)
      \<longrightarrow> i < length (heap s')
          \<and> maxProxyPacketSize (natEntry (heap s' ! i)) = maxProxyPacketSize (natEntry (heap s ! i))
          \<and> maxProxyPacketSizev4 s' = maxProxyPacketSizev4 s
          \<and> maxProxyPacketSizev6 s' = maxProxyPacketSizev6 s)"
proof -
  have A: "heap s0 = [] \<and> table s0 = Map.empty \<and> exec d evs0 s0 = Inr s1 \<and> table s1 k = Some p
      \<longrightarrow> p < length (heap s1)
          \<and> maxProxyPacketSize (natEntry (heap s1 ! p)) =
              (if Is4 (Addr k) \<or> Is4In6 (Addr k)
               then maxProxyPacketSizev4 s0 else maxProxyPacketSizev6 s0)"
  proof (rule impI)
    assume a: "heap s0 = [] \<and> table s0 = Map.empty \<and> exec d evs0 s0 = Inr s1
                 \<and> table s1 k = Some p"
    then have inv: "server_inv s1"
      using exec_inv_ext(1) server_inv_empty by blast
    have ext: "heap_ext s0 s1" using a exec_inv_ext(2) by blast
    have p: "p < length (heap s1)" and c: "clientAddrPort (heap s1 ! p) = k"
      using inv a by (auto simp: server_inv_def)
    have "maxProxyPacketSize (natEntry (heap s1 ! p)) =
                (if Is4 (Addr (clientAddrPort (heap s1 ! p)))
                    \<or> Is4In6 (Addr (clientAddrPort (heap s1 ! p)))
                 then maxProxyPacketSizev4 s0 else maxProxyPacketSizev6 s0)"
      using ext p a unfolding heap_ext_def by simp
    then show "p < length (heap s1)
            \<and> maxProxyPacketSize (natEntry (heap s1 ! p)) =
                (if Is4 (Addr k) \<or> Is4In6 (Addr k)
                 then maxProxyPacketSizev4 s0 else maxProxyPacketSizev6 s0)"
      using p c by simp
  qed
  have B: "exec d evs s = Inr s' \<and> i < length (heap s)
      \<longrightarrow> i < length (heap s')
          \<and> maxProxyPacketSize (natEntry (heap s' ! i)) = maxProxyPacketSize (natEntry (heap s ! i))
          \<and> maxProxyPacketSizev4 s' = maxProxyPacketSizev4 s
          \<and> maxProxyPacketSizev6 s' = maxProxyPacketSizev6 s"
  proof (rule impI)
    assume a: "exec d evs s = Inr s' \<and> i < length (heap s)"
    then have "heap_ext s s'" using exec_inv_ext(2) by blast
    then show "i < length (heap s')
            \<and> maxProxyPacketSize (natEntry (heap s' ! i)) = maxProxyPacketSize (natEntry (heap s ! i))
            \<and> maxProxyPacketSizev4 s' = maxProxyPacketSizev4 s
            \<and> maxProxyPacketSizev6 s' = maxProxyPacketSizev6 s"
      using a unfolding heap_ext_def by auto
  qed
  from A B show ?thesis by (rule conjI)
qed


lemmas ingress_defs =
  recvFromProxyConn_iter_def getPacketBuf_def putPacketBuf_def recvFromProxyConn_locked_def
  recvFromProxyConn_session_def newSession_def SetReadDeadline_def ListenUDP_def make_chan_def
  Is4_def Is4In6_def Is6_def startWorkers_def relayWgToProxy_start_def slice_def index_def
  trySend_def chan_can_send_def upd_session_def logw_def Let_def

lemma example_three_clients_run:
  "\<exists>s1. exec example_deps example_three_clients example_server = Inr s1
      \<and> table s1 example_client = Some 0
      \<and> table s1 example_client_mapped = Some 1
      \<and> table s1 example_client_v6 = Some 2"
  by (simp add: example_three_clients_def example_server_eq example_defs
      example_client_mapped_def example_client_v6_def ingress_defs const_defs)

lemmas worker_defs =
  relayProxyToWg_step_def relayProxyToWg_packet_def relayProxyToWg_exit_def
  relayWgToProxy_iter_def relayWgToProxy_exit_def wg_Done_def Close_def WriteTo_def
  isHandshake_def WireGuardMessageTypeHandshakeInitiation_def
  WireGuardMessageTypeHandshakeResponse_def

lemma example_server_empty:
  "heap example_server = []" "table example_server = Map.empty"
  "maxProxyPacketSizev4 example_server = 1472" "maxProxyPacketSizev6 example_server = 1452"
  by (simp_all add: example_server_eq)

theorem maxProxyPacketSize_by_family_immutable_witness:
  "(\<exists>s1. exec example_deps example_three_clients example_server = Inr s1
      \<and> maxProxyPacketSize (natEntry (heap s1 ! 0)) = 1472
      \<and> maxProxyPacketSize (natEntry (heap s1 ! 1)) = 1472
      \<and> maxProxyPacketSize (natEntry (heap s1 ! 2)) = 1452)
   \<and> (\<exists>s'. exec example_deps [ProxyToWg 0 105 None] example_session = Inr s'
      \<and> maxProxyPacketSize (natEntry (heap s' ! 0)) = 1472)"
proof -
  obtain s1 where r: "exec example_deps example_three_clients example_server = Inr s1"
    and t0: "table s1 example_client = Some 0"
    and t1: "table s1 example_client_mapped = Some 1"
    and t2: "table s1 example_client_v6 = Some 2"
    using example_three_clients_run by blast
  note e = example_server_empty
  have f: "Is4 (Addr example_client)" "Is4In6 (Addr example_client_mapped)"
    "\<not> Is4 (Addr example_client_v6)" "\<not> Is4In6 (Addr example_client_v6)"
    by (simp_all add: example_client_def example_client_mapped_def example_client_v6_def
        Is4_def Is4In6_def Is6_def)
  have a: "maxProxyPacketSize (natEntry (heap s1 ! 0)) = 1472"
    using maxProxyPacketSize_by_family_immutable
            [of example_server example_deps example_three_clients s1 example_client 0]
      e r t0 f by simp
  have b: "maxProxyPacketSize (natEntry (heap s1 ! 1)) = 1472"
    using maxProxyPacketSize_by_family_immutable
            [of example_server example_deps example_three_clients s1 example_client_mapped 1]
      e r t1 f by simp
  have c: "maxProxyPacketSize (natEntry (heap s1 ! 2)) = 1452"
    using maxProxyPacketSize_by_family_immutable
            [of example_server example_deps example_three_clients s1 example_client_v6 2]
      e r t2 f by simp
  obtain s' where r': "exec example_deps [ProxyToWg 0 105 None] example_session = Inr s'"
    by (simp add: worker_defs ingress_defs example_session_facts example_session_more const_defs)
  have m: "maxProxyPacketSize (natEntry (heap example_session ! 0)) = 1472"
    by (simp add: example_session_def example_server_eq example_defs ingress_defs const_defs)
  have d: "maxProxyPacketSize (natEntry (heap s' ! 0)) = 1472"
    using maxProxyPacketSize_by_family_immutable
            [where d = example_deps and evs = "[ProxyToWg 0 105 None]"
               and s = example_session and s' = s' and i = 0]
      r' m by (simp add: example_session_facts)
  from r a b c r' d show ?thesis by blast
qed

lemma example_session_life_run:
  "\<exists>s'. exec example_deps example_session_life example_server = Inr s'
      \<and> length (heap s') = 1
      \<and> relayProxyToWg (heap s' ! 0) = Exited
      \<and> sendLog (heap s' ! 0) = [\<lparr>buf = [1, 0, 0, 0] @ replicate 1468 0, start = 0, length' = 4\<rparr>]
      \<and> table s' example_client = None"
  by (simp add: example_session_life_def example_server_eq example_defs
      ingress_defs worker_defs const_defs)

lemma example_draining_run:
  "\<exists>s2. exec example_deps (take 2 example_session_life) example_server = Inr s2
      \<and> length (heap s2) = 1
      \<and> relayProxyToWg (heap s2 ! 0) = Running
      \<and> chclosed (wgConnSendCh (natEntry (heap s2 ! 0)))
      \<and> chbuf (wgConnSendCh (natEntry (heap s2 ! 0)))
           = [\<lparr>buf = [1, 0, 0, 0] @ replicate 1468 0, start = 0, length' = 4\<rparr>]
      \<and> p2wTrace (heap s2 ! 0) = []
      \<and> wg s2 = 1"
  by (simp add: example_session_life_def example_server_eq example_defs
      ingress_defs worker_defs const_defs)


section \<open>Properties of Stop\<close>

lemma Stop_on_closed:
  assumes "proxyConn s = Some pc" and "closed pc"
  shows "Stop d t s = Inr (Some ErrNetClosing, s)"
  using assms by (simp add: Stop_def SetReadDeadline_def)

lemma Stop_leaves_closed:
  assumes "Stop d t s = Inr (r, s1)" and "proxyConn s = Some pc"
  shows "\<exists>pc'. proxyConn s1 = Some pc' \<and> closed pc'"
proof (cases "closed pc")
  case True
  then have "s1 = s" using assms by (simp add: Stop_def SetReadDeadline_def)
  then show ?thesis using assms(2) True by simp
next
  case False
  then obtain s2 pc2 cerr pc3 where c: "Close pc2 = (cerr, pc3)"
    and s1: "s1 = s2\<lparr>proxyConn := Some pc3\<rparr>"
    using assms
    by (auto simp: Stop_def SetReadDeadline_def split: sum.splits option.splits prod.splits)
  have "closed pc3" using c by (rule Close_closed)
  then show ?thesis using s1 by simp
qed

lemma Stop_never_started:
  assumes "proxyConn s = None"
  shows "Stop d t s = Inr (None, s)"
  using assms by (simp add: Stop_def)

text \<open>
  C2 (as amended). A second \<^verbatim>\<open>Stop\<close> after one that has returned changes nothing.
  It returns nil only when the server has no proxy socket (it was never started); once a
  \<^verbatim>\<open>Stop\<close> has closed the proxy socket, the second call stops at
  \<^verbatim>\<open>proxyConn.SetReadDeadline\<close> and returns its closed-connection error.
\<close>

theorem Stop_twice:
  assumes "Stop d t1 s = Inr (r1, s1)"
  shows "\<exists>r2. Stop d t2 s1 = Inr (r2, s1)
           \<and> (r2 = None) = (proxyConn s = None)
           \<and> (proxyConn s \<noteq> None \<longrightarrow> r2 = Some ErrNetClosing)"
proof (cases "proxyConn s")
  case None
  then have "s1 = s" using assms by (simp add: Stop_never_started)
  then show ?thesis using None by (simp add: Stop_never_started)
next
  case (Some pc)
  from Stop_leaves_closed [OF assms Some] obtain pc' where "proxyConn s1 = Some pc'"
    and "closed pc'" by blast
  then have "Stop d t2 s1 = Inr (Some ErrNetClosing, s1)" by (rule Stop_on_closed)
  then show ?thesis using Some by simp
qed

lemmas stop_defs =
  Stop_def mwg_Wait_def expire_all_def expire_session_def finish_session_def
  recvFromProxyConn_exit_def

lemma example_Stop_server:
  "\<exists>s1. Stop example_deps 200 example_server = Inr (None, s1)"
  by (simp add: stop_defs example_server_eq example_defs ingress_defs worker_defs const_defs)

lemma example_Stop_session:
  "\<exists>s1. Stop example_deps 200 example_session = Inr (None, s1)
      \<and> table s1 = Map.empty \<and> wg s1 = 0 \<and> mwg s1 = 0"
  by (simp add: stop_defs example_session_def example_server_eq example_defs ingress_defs
      worker_defs const_defs)


theorem Stop_twice_witness:
  "(\<exists>s1. Stop example_deps 200 example_server = Inr (None, s1)
       \<and> Stop example_deps 201 s1 = Inr (Some ErrNetClosing, s1))
   \<and> Stop example_deps 201 (example_server\<lparr>proxyConn := None\<rparr>)
       = Inr (None, example_server\<lparr>proxyConn := None\<rparr>)"
proof -
  obtain s1 where a: "Stop example_deps 200 example_server = Inr (None, s1)"
    using example_Stop_server by blast
  have p: "proxyConn example_server \<noteq> None" by (simp add: example_server_eq)
  have b: "Stop example_deps 201 s1 = Inr (Some ErrNetClosing, s1)"
    using Stop_twice [OF a, of 201] p by auto
  have c: "Stop example_deps 200 (example_server\<lparr>proxyConn := None\<rparr>)
             = Inr (None, example_server\<lparr>proxyConn := None\<rparr>)"
    by (simp add: Stop_never_started)
  have d: "Stop example_deps 201 (example_server\<lparr>proxyConn := None\<rparr>)
             = Inr (None, example_server\<lparr>proxyConn := None\<rparr>)"
    using Stop_twice [OF c, of 201] by auto
  from a b d show ?thesis by blast
qed

text \<open>
  The started example server with one live session: the first \<^verbatim>\<open>Stop\<close> returns nil
  with the table empty and both wait groups at zero; the second returns an error.
\<close>

theorem Stop_twice_counterexample:
  "Stop example_deps 200 example_session = Inr (None, example_stopped)
   \<and> table example_stopped = Map.empty \<and> wg example_stopped = 0 \<and> mwg example_stopped = 0
   \<and> Stop example_deps 201 example_stopped = Inr (Some ErrNetClosing, example_stopped)
   \<and> Stop example_deps 201 example_stopped \<noteq> Inr (None, example_stopped)"
proof -
  obtain s1 where a: "Stop example_deps 200 example_session = Inr (None, s1)"
    and t: "table s1 = Map.empty" "wg s1 = 0" "mwg s1 = 0"
    using example_Stop_session by blast
  have e: "example_stopped = s1" by (simp add: example_stopped_def a)
  have "proxyConn example_session = Some \<lparr>closed = False, readDeadline = None\<rparr>"
    by (simp add: example_session_def example_server_eq example_defs ingress_defs const_defs)
  from Stop_leaves_closed [OF a this] obtain pc' where "proxyConn s1 = Some pc'"
    and "closed pc'" by blast
  then have "Stop example_deps 201 s1 = Inr (Some ErrNetClosing, s1)"
    by (rule Stop_on_closed)
  with a t e show ?thesis by simp
qed

section \<open>A session whose first control message does not parse\<close>

lemma example_unparsed_run_result:
  "\<exists>s'. exec example_deps example_unparsed_run example_server = Inr s'
      \<and> proxyConn s' = Some \<lparr>closed = True, readDeadline = Some 200\<rparr>
      \<and> ingress s' = Exited
      \<and> table s' example_client = Some 0
      \<and> relayWgToProxy (heap s' ! 0) = NotStarted
      \<and> relayProxyToWg (heap s' ! 0) = NotStarted
      \<and> wg s' = 0
      \<and> length (chbuf (wgConnSendCh (natEntry (heap s' ! 0)))) = 1
      \<and> p2wTrace (heap s' ! 0) = []
      \<and> \<not> closed (wgConn (natEntry (heap s' ! 0)))
      \<and> logger s' = [(InfoLevel, ''Started service''),
            (WarnLevel, ''Failed to parse pktinfo control message from proxyConn''),
            (InfoLevel, ''Finished receiving from proxyConn'')]"
  by (simp add: example_unparsed_run_def example_server_eq example_defs ingress_defs
      worker_defs stop_defs const_defs)

text \<open>
  C1. A run of the started example server: a first datagram from a new client whose
  control message does not parse, a second datagram from the same client with no control
  message, a turn of the Proxy\<rightarrow>Wg worker of the entry, and \<^verbatim>\<open>Stop\<close>. The first
  iteration inserts the entry and leaves by the \<^verbatim>\<open>continue\<close> of the pktinfo error, before
  the workers are started; the second finds the entry in the table and queues its
  packet. At the end the proxy socket is closed and the table still holds the entry:
  neither worker was ever started, the wait group never counted them, the queued packet
  was never written and the upstream socket is still open.
\<close>

theorem pktinfo_failure_entry_without_workers:
  "exec example_deps example_unparsed_run example_server = Inr example_unparsed
   \<and> proxyConn example_unparsed = Some \<lparr>closed = True, readDeadline = Some 200\<rparr>
   \<and> ingress example_unparsed = Exited
   \<and> table example_unparsed example_client = Some 0
   \<and> relayWgToProxy (heap example_unparsed ! 0) = NotStarted
   \<and> relayProxyToWg (heap example_unparsed ! 0) = NotStarted
   \<and> wg example_unparsed = 0
   \<and> length (chbuf (wgConnSendCh (natEntry (heap example_unparsed ! 0)))) = 1
   \<and> p2wTrace (heap example_unparsed ! 0) = []
   \<and> \<not> closed (wgConn (natEntry (heap example_unparsed ! 0)))
   \<and> logger example_unparsed = [(InfoLevel, ''Started service''),
         (WarnLevel, ''Failed to parse pktinfo control message from proxyConn''),
         (InfoLevel, ''Finished receiving from proxyConn'')]"
proof -
  obtain s' where r: "exec example_deps example_unparsed_run example_server = Inr s'"
    and f: "proxyConn s' = Some \<lparr>closed = True, readDeadline = Some 200\<rparr>"
      "ingress s' = Exited"
      "table s' example_client = Some 0"
      "relayWgToProxy (heap s' ! 0) = NotStarted"
      "relayProxyToWg (heap s' ! 0) = NotStarted"
      "wg s' = 0"
      "length (chbuf (wgConnSendCh (natEntry (heap s' ! 0)))) = 1"
      "p2wTrace (heap s' ! 0) = []"
      "\<not> closed (wgConn (natEntry (heap s' ! 0)))"
      "logger s' = [(InfoLevel, ''Started service''),
            (WarnLevel, ''Failed to parse pktinfo control message from proxyConn''),
            (InfoLevel, ''Finished receiving from proxyConn'')]"
    using example_unparsed_run_result by blast
  have e: "example_unparsed = s'" by (simp add: example_unparsed_def r)
  show ?thesis unfolding e using r f by simp
qed

end
